theory Spec2Isabelle
  imports Complex_Main "HOL-Library.Multiset"
begin

section \<open>Python values, exceptions and the state of one run\<close>

text \<open>
  The module \<^verbatim>\<open>RectMesh.py\<close> drives a geometry kernel (gmsh) through one object of
  class \<^verbatim>\<open>RectMesh\<close>. Every method is embedded as a function from the state of the run
  to a result and the state it leaves behind, so that an exception keeps whatever the
  method had already written.
\<close>

datatype error =
    RuntimeError
  | AttributeError
  | IndexError
  | ValueError
  | TypeError
  | UninitialisedRead
  | GeometryConstructionError

text \<open>
  A two-dimensional integer array as numpy holds it: its shape and its cells. A cell of
  an array made by \<^verbatim>\<open>np.empty\<close> holds no defined value until it is assigned; such a
  cell is \<open>None\<close>, and reading it is reported as \<open>UninitialisedRead\<close> (numpy would
  hand out whatever the memory holds).
\<close>

record array2 =
  shape0 :: nat
  shape1 :: nat
  item :: "nat \<times> nat \<Rightarrow> int option"

text \<open>
  Modelled from the spec: the geometry kernel (gmsh, an external library) and its
  creation calls \<^verbatim>\<open>addPoint\<close>, \<^verbatim>\<open>addLine\<close>, \<^verbatim>\<open>addCurveLoop\<close>, \<^verbatim>\<open>addPlaneSurface\<close>
  and \<^verbatim>\<open>addPhysicalGroup\<close>. The session is one process-wide state; ids are handed out
  sequentially, in creation order: each kind of entity has its own tag counter, and a
  creation call that names no tag takes the next tag of its kind, a positive number, and
  records the entity. A physical group is recorded under the tag it is given. The kernel
  rejects a malformed curve loop or surface with an exception and creates nothing then;
  what it checks is written out with the two calls below. The mesh size is passed
  through and never computed with.
\<close>

record kernel =
  geo_points :: "(int \<times> real \<times> real \<times> real \<times> real) list"
  geo_lines :: "(int \<times> int \<times> int) list"
  geo_curve_loops :: "(int \<times> int list) list"
  geo_plane_surfaces :: "(int \<times> int list) list"
  geo_physical_groups :: "(int \<times> int list \<times> int \<times> string) list"
  max_point :: nat
  max_line :: nat
  max_curve_loop :: nat
  max_surface :: nat

record physical_group =
  material_name :: string
  entities :: "int list"

text \<open>The attributes of a \<^verbatim>\<open>RectMesh\<close> object; an attribute not yet assigned is \<open>None\<close>.\<close>

record rectmesh =
  self_x :: "real list"
  self_y :: "real list"
  self_nx :: int
  self_ny :: int
  self_materials :: "int list list option"
  self_material_names :: "string list option"
  self_mesh_size :: "real option"
  self_nodes :: "array2 option"
  self_linex :: "array2 option"
  self_liney :: "array2 option"
  self_curves :: "array2 option"
  self_surfaces :: "array2 option"
  self_n_matrial :: "int option"
  self_physical_groups :: "physical_group list option"

text \<open>
  A selection is a Python list of index arrays. The filters assign into the list they
  are given, so selections live in a store of list objects addressed by reference.
\<close>

type_synonym selection = "int list list"

record world =
  mesh :: rectmesh
  gmsh :: kernel
  heap :: "nat \<Rightarrow> selection"
  heap_next :: nat

type_synonym 'a py = "world \<Rightarrow> (error + 'a) \<times> world"

definition py_return :: "'a \<Rightarrow> 'a py" where
  "py_return v w = (Inr v, w)"

definition py_raise :: "error \<Rightarrow> 'a py" where
  "py_raise e w = (Inl e, w)"

definition py_bind :: "'a py \<Rightarrow> ('a \<Rightarrow> 'b py) \<Rightarrow> 'b py" where
  "py_bind m f w = (case m w of (Inl e, w') \<Rightarrow> (Inl e, w') | (Inr v, w') \<Rightarrow> f v w')"

definition py_lift :: "error + 'a \<Rightarrow> 'a py" where
  "py_lift r w = (r, w)"

text \<open>Reading an attribute of \<^verbatim>\<open>self\<close>; an unassigned one raises \<open>AttributeError\<close>.\<close>

definition attr :: "(rectmesh \<Rightarrow> 'a option) \<Rightarrow> 'a py" where
  "attr f w = (case f (mesh w) of None \<Rightarrow> (Inl AttributeError, w) | Some v \<Rightarrow> (Inr v, w))"

definition field :: "(rectmesh \<Rightarrow> 'a) \<Rightarrow> 'a py" where
  "field f w = (Inr (f (mesh w)), w)"

definition modify_mesh :: "(rectmesh \<Rightarrow> rectmesh) \<Rightarrow> unit py" where
  "modify_mesh f w = (Inr (), w\<lparr>mesh := f (mesh w)\<rparr>)"

text \<open>\<^verbatim>\<open>for a in xs: body(a)\<close>; an exception in the body ends the loop.\<close>

fun for_each :: "'a list \<Rightarrow> ('a \<Rightarrow> unit py) \<Rightarrow> unit py" where
  "for_each [] body w = (Inr (), w)"
| "for_each (a # as) body w =
     (case body a w of (Inl e, w') \<Rightarrow> (Inl e, w') | (Inr u, w') \<Rightarrow> for_each as body w')"

text \<open>\<^verbatim>\<open>range(n)\<close> for a Python integer \<open>n\<close>: empty when \<open>n \<le> 0\<close>.\<close>

definition py_range :: "int \<Rightarrow> nat list" where
  "py_range n = [0..<nat n]"

subsection \<open>Indexing\<close>

text \<open>
  An index into a sequence of length \<open>n\<close>, for Python lists and numpy arrays alike:
  negative indices count from the end, anything outside \<open>[-n, n)\<close> raises.
\<close>

definition norm_index :: "nat \<Rightarrow> int \<Rightarrow> error + nat" where
  "norm_index n i =
     (if 0 \<le> i \<and> i < int n then Inr (nat i)
      else if - int n \<le> i \<and> i < 0 then Inr (nat (i + int n))
      else Inl IndexError)"

definition getitem :: "'a list \<Rightarrow> int \<Rightarrow> error + 'a" where
  "getitem xs i = (case norm_index (length xs) i of Inl e \<Rightarrow> Inl e | Inr k \<Rightarrow> Inr (xs ! k))"

definition setitem :: "'a list \<Rightarrow> int \<Rightarrow> 'a \<Rightarrow> error + 'a list" where
  "setitem xs i v =
     (case norm_index (length xs) i of Inl e \<Rightarrow> Inl e | Inr k \<Rightarrow> Inr (xs[k := v]))"

definition np_empty :: "int \<Rightarrow> int \<Rightarrow> error + array2" where
  "np_empty a b =
     (if a < 0 \<or> b < 0 then Inl ValueError
      else Inr \<lparr>shape0 = nat a, shape1 = nat b, item = (\<lambda>c. None)\<rparr>)"

definition np_empty_like :: "array2 \<Rightarrow> array2" where
  "np_empty_like a = \<lparr>shape0 = shape0 a, shape1 = shape1 a, item = (\<lambda>c. None)\<rparr>"

definition getitem2 :: "array2 \<Rightarrow> int \<Rightarrow> int \<Rightarrow> error + int" where
  "getitem2 a i j =
     (case norm_index (shape0 a) i of Inl e \<Rightarrow> Inl e | Inr i' \<Rightarrow>
      case norm_index (shape1 a) j of Inl e \<Rightarrow> Inl e | Inr j' \<Rightarrow>
      case item a (i', j') of None \<Rightarrow> Inl UninitialisedRead | Some v \<Rightarrow> Inr v)"

definition setitem2 :: "array2 \<Rightarrow> int \<Rightarrow> int \<Rightarrow> int \<Rightarrow> error + array2" where
  "setitem2 a i j v =
     (case norm_index (shape0 a) i of Inl e \<Rightarrow> Inl e | Inr i' \<Rightarrow>
      case norm_index (shape1 a) j of Inl e \<Rightarrow> Inl e | Inr j' \<Rightarrow>
      Inr (a\<lparr>item := (item a)((i', j') := Some v)\<rparr>))"

subsection \<open>The kernel's creation calls\<close>

definition addPoint :: "real \<Rightarrow> real \<Rightarrow> real \<Rightarrow> real \<Rightarrow> int py" where
  "addPoint px py pz h w =
     (let k = gmsh w; t = int (max_point k) + 1
      in (Inr t, w\<lparr>gmsh := k\<lparr>geo_points := geo_points k @ [(t, px, py, pz, h)],
                                max_point := Suc (max_point k)\<rparr>\<rparr>))"

definition addLine :: "int \<Rightarrow> int \<Rightarrow> int py" where
  "addLine start end w =
     (let k = gmsh w; t = int (max_line k) + 1
      in (Inr t, w\<lparr>gmsh := k\<lparr>geo_lines := geo_lines k @ [(t, start, end)],
                                max_line := Suc (max_line k)\<rparr>\<rparr>))"

text \<open>
  Modelled from the spec: how the kernel finds an entity and what makes a curve loop or
  a surface malformed. An entity is found by its tag, the one created last first. A
  curve named with a negative sign is traversed from its end point to its start point.
  A loop is closed when every curve ends where the next one starts and the last one ends
  where the first one starts; points lie in one plane when no three of the vectors from
  the first point to the others span a volume.
\<close>

definition lookup :: "(int \<times> 'a) list \<Rightarrow> int \<Rightarrow> 'a option" where
  "lookup entries t = map_of (rev entries) t"

definition curve_ends :: "(int \<times> int \<times> int) list \<Rightarrow> int \<Rightarrow> (int \<times> int) option" where
  "curve_ends lines t =
     (case lookup lines (abs t) of
        None \<Rightarrow> None
      | Some (s, e) \<Rightarrow> Some (if 0 < t then (s, e) else (e, s)))"

definition loop_ends :: "(int \<times> int \<times> int) list \<Rightarrow> int list \<Rightarrow> (int \<times> int) list option" where
  "loop_ends lines curveTags = those (map (curve_ends lines) curveTags)"

fun chained :: "(int \<times> int) list \<Rightarrow> bool" where
  "chained (a # b # rest) = (snd a = fst b \<and> chained (b # rest))"
| "chained rest = True"

definition closed_chain :: "(int \<times> int) list \<Rightarrow> bool" where
  "closed_chain es \<longleftrightarrow> es \<noteq> [] \<and> chained es \<and> snd (last es) = fst (hd es)"

definition point_coords ::
  "(int \<times> real \<times> real \<times> real \<times> real) list \<Rightarrow> int \<Rightarrow> (real \<times> real \<times> real) option" where
  "point_coords points p =
     (case lookup points p of None \<Rightarrow> None | Some (x, y, z, h) \<Rightarrow> Some (x, y, z))"

definition diff3 :: "real \<times> real \<times> real \<Rightarrow> real \<times> real \<times> real \<Rightarrow> real \<times> real \<times> real" where
  "diff3 p q = (fst p - fst q, fst (snd p) - fst (snd q), snd (snd p) - snd (snd q))"

definition det3 :: "real \<times> real \<times> real \<Rightarrow> real \<times> real \<times> real \<Rightarrow> real \<times> real \<times> real \<Rightarrow> real" where
  "det3 u v w =
     fst u * (fst (snd v) * snd (snd w) - snd (snd v) * fst (snd w))
     - fst (snd u) * (fst v * snd (snd w) - snd (snd v) * fst w)
     + snd (snd u) * (fst v * fst (snd w) - fst (snd v) * fst w)"

definition coplanar :: "(real \<times> real \<times> real) list \<Rightarrow> bool" where
  "coplanar ps =
     (case ps of
        [] \<Rightarrow> True
      | p # rest \<Rightarrow>
          (let ds = map (\<lambda>q. diff3 q p) rest
           in list_all (\<lambda>u. list_all (\<lambda>v. list_all (\<lambda>w. det3 u v w = 0) ds) ds) ds))"

text \<open>
  Modelled from the spec: \<^verbatim>\<open>addCurveLoop\<close> rejects a loop that is not closed. It can
  tell only when the kernel holds every curve the loop names; a loop that names a curve
  the kernel does not hold is recorded as given, and is rejected once a surface is asked
  for on it.
\<close>

definition loop_accepted :: "kernel \<Rightarrow> int list \<Rightarrow> bool" where
  "loop_accepted k curveTags =
     (case loop_ends (geo_lines k) curveTags of None \<Rightarrow> True | Some es \<Rightarrow> closed_chain es)"

definition addCurveLoop :: "int list \<Rightarrow> int py" where
  "addCurveLoop curveTags w =
     (let k = gmsh w; t = int (max_curve_loop k) + 1
      in if loop_accepted k curveTags
         then (Inr t, w\<lparr>gmsh := k\<lparr>geo_curve_loops := geo_curve_loops k @ [(t, curveTags)],
                                      max_curve_loop := Suc (max_curve_loop k)\<rparr>\<rparr>)
         else (Inl GeometryConstructionError, w))"

text \<open>
  Modelled from the spec: \<^verbatim>\<open>addPlaneSurface\<close> rejects a surface with no wire, and one
  with a wire that is no curve loop of the kernel, that names a curve the kernel does
  not hold or a curve between points it does not hold, that is not closed, or whose
  corner points do not lie in one plane.
\<close>

definition wire_accepted :: "kernel \<Rightarrow> int \<Rightarrow> bool" where
  "wire_accepted k wire =
     (case lookup (geo_curve_loops k) wire of
        None \<Rightarrow> False
      | Some curveTags \<Rightarrow>
          (case loop_ends (geo_lines k) curveTags of
             None \<Rightarrow> False
           | Some es \<Rightarrow>
               closed_chain es \<and>
               (case those (map (\<lambda>e. point_coords (geo_points k) (fst e)) es) of
                  None \<Rightarrow> False
                | Some ps \<Rightarrow> coplanar ps)))"

definition addPlaneSurface :: "int list \<Rightarrow> int py" where
  "addPlaneSurface wireTags w =
     (let k = gmsh w; t = int (max_surface k) + 1
      in if wireTags \<noteq> [] \<and> list_all (wire_accepted k) wireTags
         then (Inr t, w\<lparr>gmsh := k\<lparr>geo_plane_surfaces := geo_plane_surfaces k @ [(t, wireTags)],
                                      max_surface := Suc (max_surface k)\<rparr>\<rparr>)
         else (Inl GeometryConstructionError, w))"

definition addPhysicalGroup :: "int \<Rightarrow> int list \<Rightarrow> int \<Rightarrow> string \<Rightarrow> unit py" where
  "addPhysicalGroup dimension tags tag name w =
     (let k = gmsh w
      in (Inr (), w\<lparr>gmsh := k\<lparr>geo_physical_groups :=
                                  geo_physical_groups k @ [(dimension, tags, tag, name)]\<rparr>\<rparr>))"

section \<open>The class RectMesh\<close>

definition init :: "real list \<Rightarrow> real list \<Rightarrow> int list list option \<Rightarrow> string list option \<Rightarrow> rectmesh"
  where
  "init lx ly materials material_names =
     \<lparr>self_x = lx, self_y = ly,
      self_nx = int (length lx) - 1, self_ny = int (length ly) - 1,
      self_materials = materials, self_material_names = material_names,
      self_mesh_size = None, self_nodes = None, self_linex = None, self_liney = None,
      self_curves = None, self_surfaces = None, self_n_matrial = None,
      self_physical_groups = None\<rparr>"

subsection \<open>The property setters\<close>

definition set_materials :: "int list list \<Rightarrow> unit py" where
  "set_materials materials = modify_mesh (\<lambda>s. s\<lparr>self_materials := Some materials\<rparr>)"

definition set_material_names :: "string list \<Rightarrow> unit py" where
  "set_material_names material_names =
     modify_mesh (\<lambda>s. s\<lparr>self_material_names := Some material_names\<rparr>)"

subsection \<open>generate_nodes\<close>

text \<open>
  The conversion of coordinate lists into arrays at the head of the method changes no
  value and is left out; reading \<^verbatim>\<open>self.x[ix]\<close> is the same on both.
\<close>

definition nodes_body :: "nat \<Rightarrow> nat \<Rightarrow> unit py" where
  "nodes_body iy ix =
     py_bind (field self_x) (\<lambda>xs. py_bind (py_lift (getitem xs (int ix))) (\<lambda>x.
     py_bind (field self_y) (\<lambda>ys. py_bind (py_lift (getitem ys (int iy))) (\<lambda>y.
     py_bind (attr self_mesh_size) (\<lambda>h.
     py_bind (addPoint x y 0 h) (\<lambda>t.
     py_bind (attr self_nodes) (\<lambda>a.
     py_bind (py_lift (setitem2 a (int ix) (int iy) t)) (\<lambda>a'.
     modify_mesh (\<lambda>s. s\<lparr>self_nodes := Some a'\<rparr>)))))))))"

definition generate_nodes :: "unit py" where
  "generate_nodes =
     py_bind (field self_nx) (\<lambda>nx. py_bind (field self_ny) (\<lambda>ny.
     py_bind (py_lift (np_empty (nx + 1) (ny + 1))) (\<lambda>a.
     py_bind (modify_mesh (\<lambda>s. s\<lparr>self_nodes := Some a\<rparr>)) (\<lambda>u.
     for_each (py_range (ny + 1)) (\<lambda>iy.
       py_bind (field self_nx) (\<lambda>nx'.
       for_each (py_range (nx' + 1)) (\<lambda>ix. nodes_body iy ix)))))))"

subsection \<open>generate_lines\<close>

definition linex_body :: "nat \<Rightarrow> nat \<Rightarrow> unit py" where
  "linex_body iy ix =
     py_bind (attr self_nodes) (\<lambda>n. py_bind (py_lift (getitem2 n (int ix) (int iy))) (\<lambda>start.
     py_bind (attr self_nodes) (\<lambda>n'. py_bind (py_lift (getitem2 n' (int ix + 1) (int iy))) (\<lambda>end.
     py_bind (addLine start end) (\<lambda>t.
     py_bind (attr self_linex) (\<lambda>a.
     py_bind (py_lift (setitem2 a (int ix) (int iy) t)) (\<lambda>a'.
     modify_mesh (\<lambda>s. s\<lparr>self_linex := Some a'\<rparr>))))))))"

definition liney_body :: "nat \<Rightarrow> nat \<Rightarrow> unit py" where
  "liney_body ix iy =
     py_bind (attr self_nodes) (\<lambda>n. py_bind (py_lift (getitem2 n (int ix) (int iy))) (\<lambda>start.
     py_bind (attr self_nodes) (\<lambda>n'. py_bind (py_lift (getitem2 n' (int ix) (int iy + 1))) (\<lambda>end.
     py_bind (addLine start end) (\<lambda>t.
     py_bind (attr self_liney) (\<lambda>a.
     py_bind (py_lift (setitem2 a (int ix) (int iy) t)) (\<lambda>a'.
     modify_mesh (\<lambda>s. s\<lparr>self_liney := Some a'\<rparr>))))))))"

definition generate_linex :: "unit py" where
  "generate_linex =
     py_bind (field self_nx) (\<lambda>nx. py_bind (field self_ny) (\<lambda>ny.
     py_bind (py_lift (np_empty nx (ny + 1))) (\<lambda>a.
     py_bind (modify_mesh (\<lambda>s. s\<lparr>self_linex := Some a\<rparr>)) (\<lambda>u.
     for_each (py_range (ny + 1)) (\<lambda>iy.
       py_bind (field self_nx) (\<lambda>nx'.
       for_each (py_range nx') (\<lambda>ix. linex_body iy ix)))))))"

definition generate_liney :: "unit py" where
  "generate_liney =
     py_bind (field self_nx) (\<lambda>nx. py_bind (field self_ny) (\<lambda>ny.
     py_bind (py_lift (np_empty (nx + 1) ny)) (\<lambda>a.
     py_bind (modify_mesh (\<lambda>s. s\<lparr>self_liney := Some a\<rparr>)) (\<lambda>u.
     for_each (py_range (nx + 1)) (\<lambda>ix.
       py_bind (field self_ny) (\<lambda>ny'.
       for_each (py_range ny') (\<lambda>iy. liney_body ix iy)))))))"

text \<open>The method is its two halves in sequence: the x-directed lines, then the y-directed.\<close>

definition generate_lines :: "unit py" where
  "generate_lines = py_bind generate_linex (\<lambda>u. generate_liney)"

subsection \<open>generate_surfaces\<close>

definition surfaces_body :: "nat \<Rightarrow> nat \<Rightarrow> unit py" where
  "surfaces_body iy ix =
     py_bind (attr self_liney) (\<lambda>ly. py_bind (py_lift (getitem2 ly (int ix + 1) (int iy))) (\<lambda>l1.
     py_bind (attr self_linex) (\<lambda>lx. py_bind (py_lift (getitem2 lx (int ix) (int iy + 1))) (\<lambda>l2.
     py_bind (attr self_liney) (\<lambda>ly'. py_bind (py_lift (getitem2 ly' (int ix) (int iy))) (\<lambda>l3.
     py_bind (attr self_linex) (\<lambda>lx'. py_bind (py_lift (getitem2 lx' (int ix) (int iy))) (\<lambda>l4.
     py_bind (addCurveLoop [l1, - l2, - l3, l4]) (\<lambda>t.
     py_bind (attr self_curves) (\<lambda>c.
     py_bind (py_lift (setitem2 c (int ix) (int iy) t)) (\<lambda>c'.
     py_bind (modify_mesh (\<lambda>s. s\<lparr>self_curves := Some c'\<rparr>)) (\<lambda>u.
     py_bind (attr self_curves) (\<lambda>c''. py_bind (py_lift (getitem2 c'' (int ix) (int iy))) (\<lambda>loop.
     py_bind (addPlaneSurface [loop]) (\<lambda>t'.
     py_bind (attr self_surfaces) (\<lambda>sf.
     py_bind (py_lift (setitem2 sf (int ix) (int iy) t')) (\<lambda>sf'.
     modify_mesh (\<lambda>s. s\<lparr>self_surfaces := Some sf'\<rparr>))))))))))))))))))"

definition generate_surfaces :: "unit py" where
  "generate_surfaces =
     py_bind (field self_nx) (\<lambda>nx. py_bind (field self_ny) (\<lambda>ny.
     py_bind (py_lift (np_empty nx ny)) (\<lambda>a.
     py_bind (modify_mesh (\<lambda>s. s\<lparr>self_curves := Some a\<rparr>)) (\<lambda>u.
     py_bind (attr self_curves) (\<lambda>c.
     py_bind (modify_mesh (\<lambda>s. s\<lparr>self_surfaces := Some (np_empty_like c)\<rparr>)) (\<lambda>u1.
     py_bind (field self_ny) (\<lambda>ny'.
     for_each (py_range ny') (\<lambda>iy.
       py_bind (field self_nx) (\<lambda>nx'.
       for_each (py_range nx') (\<lambda>ix. surfaces_body iy ix))))))))))"

subsection \<open>generate_physical_groups\<close>

text \<open>\<^verbatim>\<open>str(i)\<close> of an integer: its decimal digits, with a minus sign when negative.\<close>

definition digit_char :: "nat \<Rightarrow> char" where
  "digit_char d = ''0123456789'' ! d"

function str_nat :: "nat \<Rightarrow> string" where
  "str_nat n = (if n < 10 then [digit_char n] else str_nat (n div 10) @ [digit_char (n mod 10)])"
  by pat_completeness auto
termination
  by (relation "measure (\<lambda>n. n)") auto

declare str_nat.simps [simp del]

definition py_str :: "int \<Rightarrow> string" where
  "py_str i = (if i < 0 then CHR ''-'' # str_nat (nat (- i)) else str_nat (nat i))"

text \<open>\<^verbatim>\<open>M[r, c]\<close> on the material matrix, held as its list of rows.\<close>

definition getitem_matrix :: "int list list \<Rightarrow> int \<Rightarrow> int \<Rightarrow> error + int" where
  "getitem_matrix M r c =
     (case norm_index (length M) r of Inl e \<Rightarrow> Inl e | Inr r' \<Rightarrow>
      case norm_index (length (M ! r')) c of Inl e \<Rightarrow> Inl e | Inr c' \<Rightarrow> Inr (M ! r' ! c'))"

text \<open>
  One cell of the classification loop. The two \<^verbatim>\<open>print\<close> calls write to standard output
  only; the second one reads \<^verbatim>\<open>self.physical_groups[material_id]\<close> and so raises the
  same \<open>IndexError\<close> as the append that follows it would.
\<close>

definition groups_body :: "nat \<Rightarrow> nat \<Rightarrow> unit py" where
  "groups_body iy ix =
     py_bind (field self_materials) (\<lambda>m.
     py_bind (case m of None \<Rightarrow> py_raise TypeError | Some M \<Rightarrow> py_return M) (\<lambda>M.
     py_bind (field self_ny) (\<lambda>ny.
     py_bind (py_lift (getitem_matrix M (ny - 1 - int iy) (int ix))) (\<lambda>v.
     py_bind (py_return (v - 1)) (\<lambda>material_id.
     py_bind (attr self_surfaces) (\<lambda>sf.
     py_bind (py_lift (getitem2 sf (int ix) (int iy))) (\<lambda>entity_id.
     py_bind (attr self_physical_groups) (\<lambda>gs.
     py_bind (py_lift (getitem gs material_id)) (\<lambda>g.
     py_bind (py_lift (setitem gs material_id (g\<lparr>entities := entities g @ [entity_id]\<rparr>))) (\<lambda>gs'.
     modify_mesh (\<lambda>s. s\<lparr>self_physical_groups := Some gs'\<rparr>)))))))))))"

text \<open>
  The method in its parts: the defaulting of the names, the classification loop over the
  cells and the registration loop over the groups, put together in
  \<open>generate_physical_groups\<close> below in the order of the source.
\<close>

definition default_material_names :: "unit py" where
  "default_material_names =
     py_bind (field self_material_names) (\<lambda>nm.
       case nm of
         None \<Rightarrow>
           py_bind (attr self_n_matrial) (\<lambda>n.
           modify_mesh (\<lambda>s. s\<lparr>self_material_names :=
             Some (map (\<lambda>i. py_str (int i)) (py_range n))\<rparr>))
       | Some names \<Rightarrow> py_return ())"

definition classify_cells :: "unit py" where
  "classify_cells =
     py_bind (field self_ny) (\<lambda>ny.
     for_each (py_range ny) (\<lambda>iy.
       py_bind (field self_nx) (\<lambda>nx.
       for_each (py_range nx) (\<lambda>ix. groups_body iy ix))))"

definition register_groups :: "unit py" where
  "register_groups =
     py_bind (attr self_physical_groups) (\<lambda>gs.
     for_each (enumerate 0 gs) (\<lambda>(group_id, grp).
       addPhysicalGroup 2 (entities grp) (int group_id + 1) (material_name grp)))"

definition generate_physical_groups :: "unit py" where
  "generate_physical_groups =
     py_bind (field self_materials) (\<lambda>m.
       case m of
         None \<Rightarrow> py_raise RuntimeError
       | Some M \<Rightarrow>
     py_bind (modify_mesh (\<lambda>s. s\<lparr>self_n_matrial := Some (int (length M))\<rparr>)) (\<lambda>u.
     py_bind default_material_names (\<lambda>u1.
     py_bind (field self_material_names) (\<lambda>nm.
     py_bind (case nm of None \<Rightarrow> py_raise TypeError | Some names \<Rightarrow> py_return names) (\<lambda>names.
     py_bind (modify_mesh (\<lambda>s. s\<lparr>self_physical_groups :=
         Some (map (\<lambda>n. \<lparr>material_name = n, entities = []\<rparr>) names)\<rparr>)) (\<lambda>u2.
     py_bind classify_cells (\<lambda>u3.
     register_groups)))))))"

subsection \<open>generate\<close>

definition generate :: "real \<Rightarrow> unit py" where
  "generate mesh_size =
     py_bind (modify_mesh (\<lambda>s. s\<lparr>self_mesh_size := Some mesh_size\<rparr>)) (\<lambda>u.
     py_bind generate_nodes (\<lambda>u.
     py_bind generate_lines (\<lambda>u.
     py_bind generate_surfaces (\<lambda>u.
     generate_physical_groups))))"

subsection \<open>export_assembly_materials\<close>

text \<open>
  The format specification \<^verbatim>\<open><5d\<close>: the decimal digits, then spaces up to a width of 5.
\<close>

definition py_format_ljust :: "nat \<Rightarrow> int \<Rightarrow> string" where
  "py_format_ljust width i = (let s = py_str i in s @ replicate (width - length s) CHR '' '')"

definition assembly_line :: "int \<times> int \<Rightarrow> string" where
  "assembly_line p =
     (case p of (assembly_id, material_id) \<Rightarrow>
        py_format_ljust 5 assembly_id @ '' '' @ py_str (material_id + 1) @ [CHR 0x0A])"

fun flatten_groups :: "(nat \<times> physical_group) list \<Rightarrow> (int \<times> int) list \<Rightarrow> (int \<times> int) list" where
  "flatten_groups [] acc = acc"
| "flatten_groups ((group_id, grp) # rest) acc =
     flatten_groups rest (fold (\<lambda>entity a. a @ [(entity, int group_id)]) (entities grp) acc)"

text \<open>
  The method's result is the text it writes; choosing the path and opening the file are
  left to the file system.
\<close>

definition export_assembly_materials :: "string py" where
  "export_assembly_materials =
     py_bind (attr self_physical_groups) (\<lambda>gs.
     py_bind (py_return (flatten_groups (enumerate 0 gs) [])) (\<lambda>assembly_materials.
     py_bind (py_return (sort_key fst assembly_materials)) (\<lambda>sorted_materials.
     py_return (fold (\<lambda>p out. out @ assembly_line p) sorted_materials []))))"

subsection \<open>The selection filters\<close>

definition new_list :: "selection \<Rightarrow> nat py" where
  "new_list v w =
     (Inr (heap_next w), w\<lparr>heap := (heap w)(heap_next w := v), heap_next := Suc (heap_next w)\<rparr>)"

definition deref :: "nat \<Rightarrow> selection py" where
  "deref r w = (Inr (heap w r), w)"

definition assign :: "nat \<Rightarrow> selection \<Rightarrow> unit py" where
  "assign r v w = (Inr (), w\<lparr>heap := (heap w)(r := v)\<rparr>)"

text \<open>
  \<^verbatim>\<open>np.array(range(n))\<close>, as an integer array. (For \<open>n \<le> 0\<close> numpy makes an empty array of
  floats, which it later refuses as an index; index arrays are integer arrays throughout
  this model, so a grid without cells along an axis is outside of what \<open>resolve\<close> is
  modelled on.)
\<close>

definition np_arange :: "int \<Rightarrow> int list" where
  "np_arange n = map int (py_range n)"

text \<open>The \<^verbatim>\<open>if selected is None\<close> block shared by the three filters.\<close>

definition default_selected :: "nat option \<Rightarrow> nat py" where
  "default_selected selected =
     (case selected of
        None \<Rightarrow>
          py_bind (field self_nx) (\<lambda>nx. py_bind (field self_ny) (\<lambda>ny.
          new_list [np_arange nx, np_arange ny]))
      | Some r \<Rightarrow> py_return r)"

definition greater :: "int \<Rightarrow> int \<Rightarrow> nat option \<Rightarrow> nat py" where
  "greater dimn bound selected =
     py_bind (default_selected selected) (\<lambda>r.
     py_bind (deref r) (\<lambda>sel. py_bind (py_lift (getitem sel dimn)) (\<lambda>a.
     py_bind (py_lift (setitem sel dimn (filter (\<lambda>i. i \<ge> bound) a))) (\<lambda>sel'.
     py_bind (assign r sel') (\<lambda>u. py_return r)))))"

definition less :: "int \<Rightarrow> int \<Rightarrow> nat option \<Rightarrow> nat py" where
  "less dimn bound selected =
     py_bind (default_selected selected) (\<lambda>r.
     py_bind (deref r) (\<lambda>sel. py_bind (py_lift (getitem sel dimn)) (\<lambda>a.
     py_bind (py_lift (setitem sel dimn (filter (\<lambda>i. i \<le> bound) a))) (\<lambda>sel'.
     py_bind (assign r sel') (\<lambda>u. py_return r)))))"

definition equal :: "int \<Rightarrow> int \<Rightarrow> nat option \<Rightarrow> nat py" where
  "equal dimn bound selected =
     py_bind (default_selected selected) (\<lambda>r.
     py_bind (deref r) (\<lambda>sel. py_bind (py_lift (getitem sel dimn)) (\<lambda>a.
     py_bind (py_lift (setitem sel dimn (filter (\<lambda>i. i = bound) a))) (\<lambda>sel'.
     py_bind (assign r sel') (\<lambda>u. py_return r)))))"

text \<open>\<^verbatim>\<open>np.sort(np.unique(np.concatenate([ai, bi])))\<close>, for each pair of \<^verbatim>\<open>zip(a, b)\<close>.\<close>

definition np_unique :: "int list \<Rightarrow> int list" where
  "np_unique xs = sort (remdups xs)"

definition join :: "nat \<Rightarrow> nat \<Rightarrow> nat py" where
  "join a b =
     py_bind (deref a) (\<lambda>la. py_bind (deref b) (\<lambda>lb.
     new_list (map (\<lambda>(ai, bi). sort (np_unique (ai @ bi))) (zip la lb))))"

subsection \<open>resolve\<close>

text \<open>
  Indexing a two-dimensional array with two one-dimensional index arrays: numpy
  broadcasts the two to a common length (equal lengths pair up, a length of one is
  repeated) and reads one cell per pair.
\<close>

definition broadcast :: "int list \<Rightarrow> int list \<Rightarrow> error + (int \<times> int) list" where
  "broadcast c0 c1 =
     (if length c0 = length c1 then Inr (zip c0 c1)
      else if length c0 = 1 then Inr (map (\<lambda>j. (hd c0, j)) c1)
      else if length c1 = 1 then Inr (map (\<lambda>i. (i, hd c1)) c0)
      else Inl IndexError)"

fun collect :: "(error + 'a) list \<Rightarrow> error + 'a list" where
  "collect [] = Inr []"
| "collect (Inl e # rs) = Inl e"
| "collect (Inr v # rs) = (case collect rs of Inl e \<Rightarrow> Inl e | Inr vs \<Rightarrow> Inr (v # vs))"

definition fancy_index :: "array2 \<Rightarrow> int list \<Rightarrow> int list \<Rightarrow> error + int list" where
  "fancy_index a c0 c1 =
     (case broadcast c0 c1 of
        Inl e \<Rightarrow> Inl e
      | Inr ps \<Rightarrow> collect (map (\<lambda>(i, j). getitem2 a i j) ps))"

definition resolve :: "nat \<Rightarrow> int list py" where
  "resolve coord =
     py_bind (attr self_surfaces) (\<lambda>sf.
     py_bind (deref coord) (\<lambda>c. py_bind (py_lift (getitem c 0)) (\<lambda>c0.
     py_bind (deref coord) (\<lambda>c'. py_bind (py_lift (getitem c' 1)) (\<lambda>c1.
     py_lift (fancy_index sf c0 c1))))))"

section \<open>Auxiliary definitions for the proofs\<close>

text \<open>The result of the \<^verbatim>\<open>if selected is None\<close> block on a call without a selection.\<close>

definition with_default :: "world \<Rightarrow> world" where
  "with_default w =
     w\<lparr>heap := (heap w)(heap_next w :=
          [np_arange (self_nx (mesh w)), np_arange (self_ny (mesh w))]),
       heap_next := Suc (heap_next w)\<rparr>"

text \<open>
  A concrete run for the worked examples: the grid \<open>x = [0, 1, 2]\<close>, \<open>y = [0, 1, 2]\<close> with
  the material matrix \<open>[[1, 2], [2, 1]]\<close> and the names \<open>F1\<close>, \<open>F2\<close>, on a kernel session
  that holds no entity yet.
\<close>

definition fresh_kernel :: kernel where
  "fresh_kernel =
     \<lparr>geo_points = [], geo_lines = [], geo_curve_loops = [], geo_plane_surfaces = [],
      geo_physical_groups = [], max_point = 0, max_line = 0, max_curve_loop = 0,
      max_surface = 0\<rparr>"

definition demo_mesh :: rectmesh where
  "demo_mesh = init [0, 1, 2] [0, 1, 2] (Some [[1, 2], [2, 1]]) (Some [''F1'', ''F2''])"

definition demo_world :: world where
  "demo_world = \<lparr>mesh = demo_mesh, gmsh = fresh_kernel, heap = (\<lambda>r. []), heap_next = 0\<rparr>"

text \<open>The same run with one selection object, the full index ranges, at address 0.\<close>

definition demo_selection_world :: world where
  "demo_selection_world = demo_world\<lparr>heap := (\<lambda>r. [])(0 := [[0, 1], [0, 1]]), heap_next := 1\<rparr>"

text \<open>
  The composite call \<^verbatim>\<open>join(greater(d, b, s1), less(d, b - 1, s2))\<close>; Python evaluates
  the two arguments from left to right.
\<close>

definition partition_call :: "int \<Rightarrow> int \<Rightarrow> nat option \<Rightarrow> nat option \<Rightarrow> nat py" where
  "partition_call dimn b s1 s2 =
     py_bind (greater dimn b s1) (\<lambda>a. py_bind (less dimn (b - 1) s2) (\<lambda>c. join a c))"

text \<open>The demo run with two separate selection objects, both the full index ranges.\<close>

definition demo_two_selections_world :: world where
  "demo_two_selections_world =
     demo_world\<lparr>heap := (\<lambda>r. [])(0 := [[0, 1], [0, 1]], 1 := [[0, 1], [0, 1]]), heap_next := 2\<rparr>"

text \<open>
  The demo run once its four surfaces exist, numbered in creation order, with three
  selection objects: a pinned column, a pair of unequal lengths and a pair of equal ones.
\<close>

definition demo_surface_id :: "nat \<Rightarrow> nat \<Rightarrow> int" where
  "demo_surface_id i j = 1 + int (j * 2 + i)"

definition demo_surfaces :: array2 where
  "demo_surfaces =
     \<lparr>shape0 = 2, shape1 = 2,
      item = (\<lambda>c. if fst c < 2 \<and> snd c < 2 then Some (demo_surface_id (fst c) (snd c)) else None)\<rparr>"

definition demo_resolve_world :: world where
  "demo_resolve_world =
     demo_world\<lparr>mesh := demo_mesh\<lparr>self_surfaces := Some demo_surfaces\<rparr>,
                heap := (\<lambda>r. [])(0 := [[1], [0, 1]], 1 := [[0, 1, 0], [0, 1]], 2 := [[0, 1], [0, 1]]),
                heap_next := 3\<rparr>"

text \<open>
  The cells of a \<open>W\<close> by \<open>H\<close> grid in the order of a loop nest with \<open>iy\<close> outside and
  \<open>ix\<close> inside, and the cells such a nest has visited when it stands at \<open>(ix, iy)\<close>.
\<close>

definition cells :: "nat \<Rightarrow> nat \<Rightarrow> (nat \<times> nat) list" where
  "cells W H = concat (map (\<lambda>j. map (\<lambda>i. (i, j)) [0..<W]) [0..<H])"

definition cells_upto :: "nat \<Rightarrow> nat \<Rightarrow> nat \<Rightarrow> (nat \<times> nat) list" where
  "cells_upto W iy ix = cells W iy @ map (\<lambda>i. (i, iy)) [0..<ix]"

text \<open>The same for a nest with \<open>ix\<close> outside and \<open>iy\<close> inside.\<close>

definition cols :: "nat \<Rightarrow> nat \<Rightarrow> (nat \<times> nat) list" where
  "cols W H = concat (map (\<lambda>i. map (\<lambda>j. (i, j)) [0..<H]) [0..<W])"

definition cols_upto :: "nat \<Rightarrow> nat \<Rightarrow> nat \<Rightarrow> (nat \<times> nat) list" where
  "cols_upto H ix iy = cols ix H @ map (\<lambda>j. (ix, j)) [0..<iy]"

text \<open>
  An array of shape \<open>(W, H)\<close> in which exactly the visited cells hold a value, the value
  \<open>f\<close> gives for the cell.
\<close>

definition filled :: "nat \<Rightarrow> nat \<Rightarrow> nat \<Rightarrow> nat \<Rightarrow> (nat \<times> nat \<Rightarrow> int) \<Rightarrow> array2" where
  "filled W H iy ix f =
     \<lparr>shape0 = W, shape1 = H,
      item = (\<lambda>c. if fst c < W \<and> (snd c < iy \<or> snd c = iy \<and> fst c < ix)
                   then Some (f c) else None)\<rparr>"

definition filled_cols :: "nat \<Rightarrow> nat \<Rightarrow> nat \<Rightarrow> nat \<Rightarrow> (nat \<times> nat \<Rightarrow> int) \<Rightarrow> array2" where
  "filled_cols W H ix iy f =
     \<lparr>shape0 = W, shape1 = H,
      item = (\<lambda>c. if snd c < H \<and> (fst c < ix \<or> fst c = ix \<and> snd c < iy)
                   then Some (f c) else None)\<rparr>"

text \<open>An array of shape \<open>(W, H)\<close> whose every cell holds the value \<open>f\<close> gives for it.\<close>

definition holds :: "array2 \<Rightarrow> nat \<Rightarrow> nat \<Rightarrow> (nat \<times> nat \<Rightarrow> int) \<Rightarrow> bool" where
  "holds a W H f \<longleftrightarrow>
     shape0 a = W \<and> shape1 a = H \<and> (\<forall>i<W. \<forall>j<H. item a (i, j) = Some (f (i, j)))"

text \<open>The tag a creation call hands out when \<open>n\<close> entities of its kind came before.\<close>

definition tag_after :: "nat \<Rightarrow> nat \<Rightarrow> int" where
  "tag_after t0 n = int t0 + 1 + int n"

text \<open>The state of \<open>generate_nodes\<close> when its loop nest stands at \<open>(ix, iy)\<close>.\<close>

definition node_tag :: "world \<Rightarrow> nat \<Rightarrow> nat \<times> nat \<Rightarrow> int" where
  "node_tag w W c = tag_after (max_point (gmsh w)) (snd c * W + fst c)"

definition nodes_state :: "world \<Rightarrow> nat \<Rightarrow> nat \<Rightarrow> real \<Rightarrow> nat \<Rightarrow> nat \<Rightarrow> world" where
  "nodes_state w W H h iy ix =
     w\<lparr>mesh := (mesh w)\<lparr>self_nodes := Some (filled W H iy ix (node_tag w W))\<rparr>,
       gmsh := (gmsh w)\<lparr>
         geo_points := geo_points (gmsh w) @
           map (\<lambda>c. (node_tag w W c, self_x (mesh w) ! fst c, self_y (mesh w) ! snd c, 0, h))
             (cells_upto W iy ix),
         max_point := max_point (gmsh w) + (iy * W + ix)\<rparr>\<rparr>"

text \<open>
  The state of the two loop nests of \<open>generate_lines\<close> and of the nest of
  \<open>generate_surfaces\<close>, each relative to the state \<open>w\<close> the nest starts from. \<open>nid\<close>
  gives the node ids, \<open>ex\<close> and \<open>ey\<close> the ids of the x- and y-directed lines.
\<close>

definition linex_tag :: "world \<Rightarrow> nat \<Rightarrow> nat \<times> nat \<Rightarrow> int" where
  "linex_tag w nx c = tag_after (max_line (gmsh w)) (snd c * nx + fst c)"

definition linex_state ::
  "world \<Rightarrow> nat \<Rightarrow> nat \<Rightarrow> (nat \<times> nat \<Rightarrow> int) \<Rightarrow> nat \<Rightarrow> nat \<Rightarrow> world" where
  "linex_state w nx ny nid iy ix =
     w\<lparr>mesh := (mesh w)\<lparr>self_linex := Some (filled nx (Suc ny) iy ix (linex_tag w nx))\<rparr>,
       gmsh := (gmsh w)\<lparr>
         geo_lines := geo_lines (gmsh w) @
           map (\<lambda>c. (linex_tag w nx c, nid c, nid (Suc (fst c), snd c))) (cells_upto nx iy ix),
         max_line := max_line (gmsh w) + (iy * nx + ix)\<rparr>\<rparr>"

definition liney_tag :: "world \<Rightarrow> nat \<Rightarrow> nat \<times> nat \<Rightarrow> int" where
  "liney_tag w ny c = tag_after (max_line (gmsh w)) (fst c * ny + snd c)"

definition liney_state ::
  "world \<Rightarrow> nat \<Rightarrow> nat \<Rightarrow> (nat \<times> nat \<Rightarrow> int) \<Rightarrow> nat \<Rightarrow> nat \<Rightarrow> world" where
  "liney_state w nx ny nid ix iy =
     w\<lparr>mesh := (mesh w)\<lparr>self_liney := Some (filled_cols (Suc nx) ny ix iy (liney_tag w ny))\<rparr>,
       gmsh := (gmsh w)\<lparr>
         geo_lines := geo_lines (gmsh w) @
           map (\<lambda>c. (liney_tag w ny c, nid c, nid (fst c, Suc (snd c)))) (cols_upto ny ix iy),
         max_line := max_line (gmsh w) + (ix * ny + iy)\<rparr>\<rparr>"

definition loop_tag :: "world \<Rightarrow> nat \<Rightarrow> nat \<times> nat \<Rightarrow> int" where
  "loop_tag w nx c = tag_after (max_curve_loop (gmsh w)) (snd c * nx + fst c)"

definition surface_tag :: "world \<Rightarrow> nat \<Rightarrow> nat \<times> nat \<Rightarrow> int" where
  "surface_tag w nx c = tag_after (max_surface (gmsh w)) (snd c * nx + fst c)"

definition cell_loop ::
  "(nat \<times> nat \<Rightarrow> int) \<Rightarrow> (nat \<times> nat \<Rightarrow> int) \<Rightarrow> nat \<times> nat \<Rightarrow> int list" where
  "cell_loop ex ey c =
     [ey (Suc (fst c), snd c), - ex (fst c, Suc (snd c)), - ey (fst c, snd c), ex (fst c, snd c)]"

definition surfaces_state ::
  "world \<Rightarrow> nat \<Rightarrow> nat \<Rightarrow> (nat \<times> nat \<Rightarrow> int) \<Rightarrow> (nat \<times> nat \<Rightarrow> int) \<Rightarrow> nat \<Rightarrow> nat \<Rightarrow> world"
  where
  "surfaces_state w nx ny ex ey iy ix =
     w\<lparr>mesh := (mesh w)\<lparr>self_curves := Some (filled nx ny iy ix (loop_tag w nx)),
                         self_surfaces := Some (filled nx ny iy ix (surface_tag w nx))\<rparr>,
       gmsh := (gmsh w)\<lparr>
         geo_curve_loops := geo_curve_loops (gmsh w) @
           map (\<lambda>c. (loop_tag w nx c, cell_loop ex ey c)) (cells_upto nx iy ix),
         geo_plane_surfaces := geo_plane_surfaces (gmsh w) @
           map (\<lambda>c. (surface_tag w nx c, [loop_tag w nx c])) (cells_upto nx iy ix),
         max_curve_loop := max_curve_loop (gmsh w) + (iy * nx + ix),
         max_surface := max_surface (gmsh w) + (iy * nx + ix)\<rparr>\<rparr>"

text \<open>
  A kernel that holds the grid: every id \<open>ex\<close> and \<open>ey\<close> gives is positive and is the
  tag of a line between the two neighbouring nodes, from the lower to the higher index,
  and every id \<open>nid\<close> gives is the tag of a point of height zero.
\<close>

definition grid_in_kernel ::
  "kernel \<Rightarrow> nat \<Rightarrow> nat \<Rightarrow> (nat \<times> nat \<Rightarrow> int) \<Rightarrow> (nat \<times> nat \<Rightarrow> int) \<Rightarrow> (nat \<times> nat \<Rightarrow> int) \<Rightarrow> bool"
  where
  "grid_in_kernel k nx ny nid ex ey \<longleftrightarrow>
     (\<forall>i j. i < nx \<and> j \<le> ny \<longrightarrow>
        0 < ex (i, j) \<and> lookup (geo_lines k) (ex (i, j)) = Some (nid (i, j), nid (Suc i, j)))
   \<and> (\<forall>i j. i \<le> nx \<and> j < ny \<longrightarrow>
        0 < ey (i, j) \<and> lookup (geo_lines k) (ey (i, j)) = Some (nid (i, j), nid (i, Suc j)))
   \<and> (\<forall>i j. i \<le> nx \<and> j \<le> ny \<longrightarrow>
        (\<exists>x y. point_coords (geo_points k) (nid (i, j)) = Some (x, y, 0)))"

text \<open>The end points of the four sides of a cell, in the order and direction its loop walks them.\<close>

definition cell_walk :: "(nat \<times> nat \<Rightarrow> int) \<Rightarrow> nat \<times> nat \<Rightarrow> (int \<times> int) list" where
  "cell_walk nid c =
     [(nid (Suc (fst c), snd c), nid (Suc (fst c), Suc (snd c))),
      (nid (Suc (fst c), Suc (snd c)), nid (fst c, Suc (snd c))),
      (nid (fst c, Suc (snd c)), nid (fst c, snd c)),
      (nid (fst c, snd c), nid (Suc (fst c), snd c))]"

text \<open>The first three steps of \<open>generate\<close>: nodes, then lines, then surfaces.\<close>

definition build_topology :: "unit py" where
  "build_topology =
     py_bind generate_nodes (\<lambda>u. py_bind generate_lines (\<lambda>u. generate_surfaces))"

text \<open>The state those three steps reach from \<open>w\<close> on a grid of \<open>nx\<close> by \<open>ny\<close> cells.\<close>

definition nodes_done :: "world \<Rightarrow> nat \<Rightarrow> nat \<Rightarrow> real \<Rightarrow> world" where
  "nodes_done w nx ny h = nodes_state w (Suc nx) (Suc ny) h (Suc ny) 0"

definition linex_done :: "world \<Rightarrow> nat \<Rightarrow> nat \<Rightarrow> real \<Rightarrow> world" where
  "linex_done w nx ny h =
     linex_state (nodes_done w nx ny h) nx ny (node_tag w (Suc nx)) (Suc ny) 0"

definition liney_done :: "world \<Rightarrow> nat \<Rightarrow> nat \<Rightarrow> real \<Rightarrow> world" where
  "liney_done w nx ny h =
     liney_state (linex_done w nx ny h) nx ny (node_tag w (Suc nx)) (Suc nx) 0"

definition topology_done :: "world \<Rightarrow> nat \<Rightarrow> nat \<Rightarrow> real \<Rightarrow> world" where
  "topology_done w nx ny h =
     surfaces_state (liney_done w nx ny h) nx ny
       (linex_tag (nodes_done w nx ny h) nx) (liney_tag (linex_done w nx ny h) ny) ny 0"

text \<open>
  The demo run with its mesh size set, and the same run with line tables that name the
  ids 1 to 12 on a kernel session that holds no line.
\<close>

definition demo_ex :: "nat \<times> nat \<Rightarrow> int" where
  "demo_ex c = 1 + int (snd c * 2 + fst c)"

definition demo_ey :: "nat \<times> nat \<Rightarrow> int" where
  "demo_ey c = 7 + int (fst c * 2 + snd c)"

definition demo_linex :: array2 where
  "demo_linex = \<lparr>shape0 = 2, shape1 = 3,
      item = (\<lambda>c. if fst c < 2 \<and> snd c < 3 then Some (demo_ex c) else None)\<rparr>"

definition demo_liney :: array2 where
  "demo_liney = \<lparr>shape0 = 3, shape1 = 2,
      item = (\<lambda>c. if fst c < 3 \<and> snd c < 2 then Some (demo_ey c) else None)\<rparr>"

definition demo_lines_world :: world where
  "demo_lines_world =
     demo_world\<lparr>mesh := demo_mesh\<lparr>self_mesh_size := Some 1,
                   self_linex := Some demo_linex, self_liney := Some demo_liney\<rparr>\<rparr>"

definition demo_sized_world :: world where
  "demo_sized_world = demo_world\<lparr>mesh := demo_mesh\<lparr>self_mesh_size := Some 1\<rparr>\<rparr>"

text \<open>
  For \<open>generate_physical_groups\<close>: the names in force (the supplied ones, or one decimal
  string per matrix row), the group a cell is filed under, and the group list once the
  cells \<open>cs\<close> have been filed, in this order.
\<close>

definition effective_names :: "int list list \<Rightarrow> string list option \<Rightarrow> string list" where
  "effective_names M nm =
     (case nm of None \<Rightarrow> map (\<lambda>i. py_str (int i)) [0..<length M] | Some names \<Rightarrow> names)"

definition gid :: "int list list \<Rightarrow> nat \<Rightarrow> nat \<Rightarrow> nat \<times> nat \<Rightarrow> error + nat" where
  "gid M ny k c =
     (case getitem_matrix M (int ny - 1 - int (snd c)) (int (fst c)) of
        Inl e \<Rightarrow> Inl e
      | Inr v \<Rightarrow> norm_index k (v - 1))"

definition groups_of ::
  "string list \<Rightarrow> (nat \<times> nat \<Rightarrow> int) \<Rightarrow> (nat \<times> nat \<Rightarrow> error + nat) \<Rightarrow> (nat \<times> nat) list
     \<Rightarrow> physical_group list" where
  "groups_of names sid f cs =
     map (\<lambda>g. \<lparr>material_name = names ! g, entities = map sid (filter (\<lambda>c. f c = Inr g) cs)\<rparr>)
       [0..<length names]"

definition groups_state ::
  "world \<Rightarrow> int list list \<Rightarrow> string list \<Rightarrow> physical_group list \<Rightarrow> world" where
  "groups_state w M names gs =
     w\<lparr>mesh := (mesh w)\<lparr>self_n_matrial := Some (int (length M)),
                         self_material_names := Some names,
                         self_physical_groups := Some gs\<rparr>\<rparr>"

definition registrations :: "physical_group list \<Rightarrow> (int \<times> int list \<times> int \<times> string) list" where
  "registrations gs =
     map (\<lambda>p. (2, entities (snd p), int (fst p) + 1, material_name (snd p))) (enumerate 0 gs)"

definition groups_done ::
  "world \<Rightarrow> int list list \<Rightarrow> string list \<Rightarrow> physical_group list \<Rightarrow> world" where
  "groups_done w M names gs =
     (groups_state w M names gs)\<lparr>gmsh := (gmsh w)\<lparr>geo_physical_groups :=
        geo_physical_groups (gmsh w) @ registrations gs\<rparr>\<rparr>"

text \<open>
  The demo run with its surfaces in place and no material names given, and a run on a
  grid of two cells in one row, with the material matrix \<open>[[1, 2]]\<close> and no names.
\<close>

definition demo_unnamed_world :: world where
  "demo_unnamed_world =
     demo_world\<lparr>mesh := demo_mesh\<lparr>self_material_names := None,
                                     self_surfaces := Some demo_surfaces\<rparr>\<rparr>"

definition row_surfaces :: array2 where
  "row_surfaces =
     \<lparr>shape0 = 2, shape1 = 1,
      item = (\<lambda>c. if fst c < 2 \<and> snd c < 1 then Some (1 + int (fst c)) else None)\<rparr>"

definition row_world :: world where
  "row_world =
     \<lparr>mesh = (init [0, 1, 2] [0, 1] (Some [[1, 2]]) None)\<lparr>self_surfaces := Some row_surfaces\<rparr>,
      gmsh = fresh_kernel, heap = (\<lambda>r. []), heap_next = 0\<rparr>"

text \<open>A computation that raises no \<open>RuntimeError\<close>, whatever state it starts from.\<close>

definition no_runtime_error :: "'a py \<Rightarrow> bool" where
  "no_runtime_error m \<longleftrightarrow> (\<forall>w. fst (m w) \<noteq> Inl RuntimeError)"

text \<open>The one-row run with two material names supplied.\<close>

definition row_named_world :: world where
  "row_named_world = row_world\<lparr>mesh := (mesh row_world)\<lparr>self_material_names := Some [''A'', ''B'']\<rparr>\<rparr>"

text \<open>
  For \<open>export_assembly_materials\<close>: the pairs of surface id and group index, group by
  group, and the demo run with its two groups in place.
\<close>

definition group_pairs :: "physical_group list \<Rightarrow> (int \<times> int) list" where
  "group_pairs gs =
     concat (map (\<lambda>p. map (\<lambda>e. (e, int (fst p))) (entities (snd p))) (enumerate 0 gs))"

definition demo_groups_world :: world where
  "demo_groups_world =
     demo_world\<lparr>mesh := demo_mesh\<lparr>self_physical_groups :=
       Some [\<lparr>material_name = ''F1'', entities = [2, 3]\<rparr>,
             \<lparr>material_name = ''F2'', entities = [1, 4]\<rparr>]\<rparr>\<rparr>"

section \<open>The selection filters and resolve\<close>

lemmas py_defs = py_bind_def py_return_def py_raise_def py_lift_def attr_def field_def
  modify_mesh_def deref_def assign_def new_list_def

lemma greater_Some:
  "norm_index (length (heap w r)) dimn = Inr d \<Longrightarrow>
   greater dimn bound (Some r) w =
     (Inr r, w\<lparr>heap := (heap w)(r := (heap w r)[d := filter (\<lambda>i. bound \<le> i) (heap w r ! d)])\<rparr>)"
  by (simp add: greater_def default_selected_def py_defs getitem_def setitem_def)

lemma less_Some:
  "norm_index (length (heap w r)) dimn = Inr d \<Longrightarrow>
   less dimn bound (Some r) w =
     (Inr r, w\<lparr>heap := (heap w)(r := (heap w r)[d := filter (\<lambda>i. i \<le> bound) (heap w r ! d)])\<rparr>)"
  by (simp add: less_def default_selected_def py_defs getitem_def setitem_def)

lemma equal_Some:
  "norm_index (length (heap w r)) dimn = Inr d \<Longrightarrow>
   equal dimn bound (Some r) w =
     (Inr r, w\<lparr>heap := (heap w)(r := (heap w r)[d := filter (\<lambda>i. i = bound) (heap w r ! d)])\<rparr>)"
  by (simp add: equal_def default_selected_def py_defs getitem_def setitem_def)

lemma greater_None:
  "greater dimn bound None w = greater dimn bound (Some (heap_next w)) (with_default w)"
  by (simp add: greater_def default_selected_def py_defs with_default_def)

lemma less_None:
  "less dimn bound None w = less dimn bound (Some (heap_next w)) (with_default w)"
  by (simp add: less_def default_selected_def py_defs with_default_def)

lemma equal_None:
  "equal dimn bound None w = equal dimn bound (Some (heap_next w)) (with_default w)"
  by (simp add: equal_def default_selected_def py_defs with_default_def)

lemma norm_index_bound: "norm_index n i = Inr d \<Longrightarrow> d < n"
  by (auto simp: norm_index_def split: if_splits)

lemma norm_index_0: "0 < n \<Longrightarrow> norm_index n 0 = Inr 0"
  by (simp add: norm_index_def)

lemma norm_index_1: "1 < n \<Longrightarrow> norm_index n 1 = Inr 1"
  by (simp add: norm_index_def)

lemma collect_map:
  "(\<And>p. p \<in> set ps \<Longrightarrow> f p = Inr (g p)) \<Longrightarrow> collect (map f ps) = Inr (map g ps)"
  by (induction ps) auto

lemma resolve_frame: "snd (resolve coord w) = w"
  by (simp add: resolve_def py_defs split: option.splits sum.splits)

lemma getitem_0: "getitem (a # as) 0 = Inr a"
  by (simp add: getitem_def norm_index_def)

lemma getitem_1: "getitem (a # b # as) 1 = Inr b"
  by (simp add: getitem_def norm_index_def)

lemma resolve_unfold:
  "self_surfaces (mesh w) = Some sf \<Longrightarrow> heap w coord = selX # selY # rest \<Longrightarrow>
   resolve coord w = (fancy_index sf selX selY, w)"
  by (simp add: resolve_def py_defs getitem_0 getitem_1)

lemma getitem2_in_range:
  "0 \<le> i \<Longrightarrow> i < int (shape0 sf) \<Longrightarrow> 0 \<le> j \<Longrightarrow> j < int (shape1 sf) \<Longrightarrow>
   item sf (nat i, nat j) = Some v \<Longrightarrow> getitem2 sf i j = Inr v"
  by (simp add: getitem2_def norm_index_def)

lemma demo_selection_heap: "heap demo_selection_world 0 = [[0, 1], [0, 1]]"
  by (simp add: demo_selection_world_def)

lemma np_unique_set: "np_unique xs = sorted_list_of_set (set xs)"
  by (simp add: np_unique_def sorted_list_of_set_sort_remdups)

lemma sort_np_unique: "sort (np_unique xs) = sorted_list_of_set (set xs)"
  by (simp add: np_unique_set sort_key_id_if_sorted)

lemma np_arange_sorted_distinct: "sorted (np_arange n) \<and> distinct (np_arange n)"
  by (simp add: np_arange_def py_range_def distinct_map sorted_map inj_on_def)

lemma sorted_list_of_set_np_arange: "sorted_list_of_set (set (np_arange n)) = np_arange n"
  using np_arange_sorted_distinct [of n]
  by (simp add: sorted_list_of_set.idem_if_sorted_distinct)

lemma join_split:
  assumes "\<And>i. P i \<or> Q i"
  shows "sort (np_unique (filter P (np_arange n) @ filter Q (np_arange n))) = np_arange n"
proof -
  have "set (filter P (np_arange n) @ filter Q (np_arange n)) = set (np_arange n)"
    using assms by auto
  then show ?thesis by (simp only: sort_np_unique sorted_list_of_set_np_arange)
qed

lemma join_split_bound:
  "sort (np_unique (filter (\<lambda>i. b \<le> i) (np_arange n) @ filter (\<lambda>i. i < b) (np_arange n)))
     = np_arange n"
  by (rule join_split) auto

lemma join_same: "sort (np_unique (np_arange n @ np_arange n)) = np_arange n"
  by (simp add: sort_np_unique sorted_list_of_set_np_arange)

lemma join_value:
  "join a b w = (Inr (heap_next w),
     w\<lparr>heap := (heap w)(heap_next w := map (\<lambda>(ai, bi). sort (np_unique (ai @ bi))) (zip (heap w a) (heap w b))),
       heap_next := Suc (heap_next w)\<rparr>)"
  by (simp add: join_def py_defs)

lemma greater_axis0:
  "heap w r = [X, Y] \<Longrightarrow>
   greater 0 b (Some r) w = (Inr r, w\<lparr>heap := (heap w)(r := [filter (\<lambda>i. b \<le> i) X, Y])\<rparr>)"
  using greater_Some [of w r 0 0 b] by (simp add: norm_index_def)

lemma greater_axis1:
  "heap w r = [X, Y] \<Longrightarrow>
   greater 1 b (Some r) w = (Inr r, w\<lparr>heap := (heap w)(r := [X, filter (\<lambda>i. b \<le> i) Y])\<rparr>)"
  using greater_Some [of w r 1 1 b] by (simp add: norm_index_def)

lemma less_axis0:
  "heap w r = [X, Y] \<Longrightarrow>
   less 0 b (Some r) w = (Inr r, w\<lparr>heap := (heap w)(r := [filter (\<lambda>i. i \<le> b) X, Y])\<rparr>)"
  using less_Some [of w r 0 0 b] by (simp add: norm_index_def)

lemma less_axis1:
  "heap w r = [X, Y] \<Longrightarrow>
   less 1 b (Some r) w = (Inr r, w\<lparr>heap := (heap w)(r := [X, filter (\<lambda>i. i \<le> b) Y])\<rparr>)"
  using less_Some [of w r 1 1 b] by (simp add: norm_index_def)


lemma partition_separate0:
  assumes ne: "r1 \<noteq> r2"
    and h1: "heap w r1 = [np_arange nx, np_arange ny]"
    and h2: "heap w r2 = [np_arange nx, np_arange ny]"
  shows "partition_call 0 b (Some r1) (Some r2) w = (Inr (heap_next w), snd (partition_call 0 b (Some r1) (Some r2) w))
       \<and> heap (snd (partition_call 0 b (Some r1) (Some r2) w)) (heap_next w)
           = [np_arange nx, np_arange ny]"
proof -
  let ?w1 = "w\<lparr>heap := (heap w)(r1 := [filter (\<lambda>i. b \<le> i) (np_arange nx), np_arange ny])\<rparr>"
  have g: "greater 0 b (Some r1) w = (Inr r1, ?w1)" by (rule greater_axis0 [OF h1])
  have h2': "heap ?w1 r2 = [np_arange nx, np_arange ny]" using ne h2 by simp
  have l: "less 0 (b - 1) (Some r2) ?w1 =
       (Inr r2, ?w1\<lparr>heap := (heap ?w1)(r2 := [filter (\<lambda>i. i \<le> b - 1) (np_arange nx), np_arange ny])\<rparr>)"
    by (rule less_axis0 [OF h2'])
  show ?thesis using ne
    by (simp add: partition_call_def py_bind_def g l join_value join_split_bound join_same
          del: One_nat_def)
qed

lemma partition_separate1:
  assumes ne: "r1 \<noteq> r2"
    and h1: "heap w r1 = [np_arange nx, np_arange ny]"
    and h2: "heap w r2 = [np_arange nx, np_arange ny]"
  shows "partition_call 1 b (Some r1) (Some r2) w = (Inr (heap_next w), snd (partition_call 1 b (Some r1) (Some r2) w))
       \<and> heap (snd (partition_call 1 b (Some r1) (Some r2) w)) (heap_next w)
           = [np_arange nx, np_arange ny]"
proof -
  let ?w1 = "w\<lparr>heap := (heap w)(r1 := [np_arange nx, filter (\<lambda>i. b \<le> i) (np_arange ny)])\<rparr>"
  have g: "greater 1 b (Some r1) w = (Inr r1, ?w1)" by (rule greater_axis1 [OF h1])
  have h2': "heap ?w1 r2 = [np_arange nx, np_arange ny]" using ne h2 by simp
  have l: "less 1 (b - 1) (Some r2) ?w1 =
       (Inr r2, ?w1\<lparr>heap := (heap ?w1)(r2 := [np_arange nx, filter (\<lambda>i. i \<le> b - 1) (np_arange ny)])\<rparr>)"
    by (rule less_axis1 [OF h2'])
  show ?thesis using ne
    by (simp add: partition_call_def py_bind_def g l join_value join_split_bound join_same
          del: One_nat_def)
qed

lemma partition_default_unfold:
  "partition_call dimn b None None w =
     (case greater dimn b (Some (heap_next w)) (with_default w) of
        (Inl e, w') \<Rightarrow> (Inl e, w')
      | (Inr a, w') \<Rightarrow>
          (case less dimn (b - 1) (Some (heap_next w')) (with_default w') of
             (Inl e, w'') \<Rightarrow> (Inl e, w'')
           | (Inr c, w'') \<Rightarrow> join a c w''))"
  by (simp add: partition_call_def py_bind_def greater_None less_None split: prod.splits sum.splits)

lemma partition_default0:
  "partition_call 0 b None None w = (Inr (Suc (Suc (heap_next w))), snd (partition_call 0 b None None w))
   \<and> heap (snd (partition_call 0 b None None w)) (Suc (Suc (heap_next w)))
       = [np_arange (self_nx (mesh w)), np_arange (self_ny (mesh w))]"
proof -
  let ?nx = "self_nx (mesh w)" and ?ny = "self_ny (mesh w)"
  have hd: "heap (with_default w) (heap_next w) = [np_arange ?nx, np_arange ?ny]"
    by (simp add: with_default_def)
  let ?w1 = "(with_default w)\<lparr>heap := (heap (with_default w))
      (heap_next w := [filter (\<lambda>i. b \<le> i) (np_arange ?nx), np_arange ?ny])\<rparr>"
  have g: "greater 0 b (Some (heap_next w)) (with_default w) = (Inr (heap_next w), ?w1)"
    by (rule greater_axis0 [OF hd])
  have n1: "heap_next ?w1 = Suc (heap_next w)" by (simp add: with_default_def)
  have hd2: "heap (with_default ?w1) (Suc (heap_next w)) = [np_arange ?nx, np_arange ?ny]"
    by (simp add: with_default_def)
  have l: "less 0 (b - 1) (Some (Suc (heap_next w))) (with_default ?w1) =
      (Inr (Suc (heap_next w)), (with_default ?w1)\<lparr>heap := (heap (with_default ?w1))
         (Suc (heap_next w) := [filter (\<lambda>i. i \<le> b - 1) (np_arange ?nx), np_arange ?ny])\<rparr>)"
    by (rule less_axis0 [OF hd2])
  show ?thesis
    by (simp add: partition_default_unfold g n1 l join_value)
       (simp add: with_default_def join_split_bound join_same)
qed

lemma partition_default1:
  "partition_call 1 b None None w = (Inr (Suc (Suc (heap_next w))), snd (partition_call 1 b None None w))
   \<and> heap (snd (partition_call 1 b None None w)) (Suc (Suc (heap_next w)))
       = [np_arange (self_nx (mesh w)), np_arange (self_ny (mesh w))]"
proof -
  let ?nx = "self_nx (mesh w)" and ?ny = "self_ny (mesh w)"
  have hd: "heap (with_default w) (heap_next w) = [np_arange ?nx, np_arange ?ny]"
    by (simp add: with_default_def)
  let ?w1 = "(with_default w)\<lparr>heap := (heap (with_default w))
      (heap_next w := [np_arange ?nx, filter (\<lambda>i. b \<le> i) (np_arange ?ny)])\<rparr>"
  have g: "greater 1 b (Some (heap_next w)) (with_default w) = (Inr (heap_next w), ?w1)"
    by (rule greater_axis1 [OF hd])
  have n1: "heap_next ?w1 = Suc (heap_next w)" by (simp add: with_default_def)
  have hd2: "heap (with_default ?w1) (Suc (heap_next w)) = [np_arange ?nx, np_arange ?ny]"
    by (simp add: with_default_def)
  have l: "less 1 (b - 1) (Some (Suc (heap_next w))) (with_default ?w1) =
      (Inr (Suc (heap_next w)), (with_default ?w1)\<lparr>heap := (heap (with_default ?w1))
         (Suc (heap_next w) := [np_arange ?nx, filter (\<lambda>i. i \<le> b - 1) (np_arange ?ny)])\<rparr>)"
    by (rule less_axis1 [OF hd2])
  show ?thesis
    by (simp add: partition_default_unfold g n1 l join_value)
       (simp add: with_default_def join_split_bound join_same)
qed

lemma np_arange_2: "np_arange 2 = [0, 1]"
  by code_simp

lemma demo_selection_mesh:
  "self_nx (mesh demo_selection_world) = 2 \<and> self_ny (mesh demo_selection_world) = 2"
  by (simp add: demo_selection_world_def demo_world_def demo_mesh_def init_def)

lemma filter_none: "(\<And>x. x \<in> set xs \<Longrightarrow> \<not> P x) \<Longrightarrow> filter P xs = []"
  by (simp add: filter_empty_conv)

lemma filter_all: "(\<And>x. x \<in> set xs \<Longrightarrow> P x) \<Longrightarrow> filter P xs = xs"
  by (simp add: filter_id_conv)

lemma broadcast_mismatch:
  "length c0 \<noteq> length c1 \<Longrightarrow> length c0 \<noteq> 1 \<Longrightarrow> length c1 \<noteq> 1 \<Longrightarrow>
   fancy_index sf c0 c1 = Inl IndexError"
  by (simp add: fancy_index_def broadcast_def)

lemma resolve_mismatch:
  assumes "self_surfaces (mesh w) = Some sf" "heap w coord = c0 # c1 # rest"
    "length c0 \<noteq> length c1" "length c0 \<noteq> 1" "length c1 \<noteq> 1"
  shows "resolve coord w = (Inl IndexError, w)"
  using assms by (simp add: resolve_unfold broadcast_mismatch)

lemma broadcast_left_one:
  "length c0 = 1 \<Longrightarrow> broadcast c0 c1 = Inr (map (\<lambda>j. (hd c0, j)) c1)"
  by (cases c0; cases c1) (auto simp: broadcast_def)

lemma broadcast_right_one:
  "length c1 = 1 \<Longrightarrow> broadcast c0 c1 = Inr (map (\<lambda>i. (i, hd c1)) c0)"
  by (cases c0; cases c1) (auto simp: broadcast_def)

lemma broadcast_equal:
  "length c0 = length c1 \<Longrightarrow> broadcast c0 c1 = Inr (zip c0 c1)"
  by (simp add: broadcast_def)

lemma collect_cells:
  assumes cells: "\<forall>i<shape0 sf. \<forall>j<shape1 sf. item sf (i, j) = Some (sid i j)"
    and ps: "\<forall>p\<in>set ps. 0 \<le> fst p \<and> fst p < int (shape0 sf) \<and> 0 \<le> snd p \<and> snd p < int (shape1 sf)"
  shows "collect (map (\<lambda>(i, j). getitem2 sf i j) ps) = Inr (map (\<lambda>(i, j). sid (nat i) (nat j)) ps)"
proof (rule collect_map)
  fix p assume p: "p \<in> set ps"
  obtain i j where [simp]: "p = (i, j)" by (cases p)
  from ps p have r: "0 \<le> i" "i < int (shape0 sf)" "0 \<le> j" "j < int (shape1 sf)" by auto
  then have "item sf (nat i, nat j) = Some (sid (nat i) (nat j))" using cells by auto
  then show "(case p of (i, j) \<Rightarrow> getitem2 sf i j) = Inr (case p of (i, j) \<Rightarrow> sid (nat i) (nat j))"
    using r by (simp add: getitem2_in_range)
qed

lemma demo_resolve_facts:
  "self_surfaces (mesh demo_resolve_world) = Some demo_surfaces"
  "heap demo_resolve_world 0 = [[1], [0, 1]]"
  "heap demo_resolve_world 1 = [[0, 1, 0], [0, 1]]"
  "heap demo_resolve_world 2 = [[0, 1], [0, 1]]"
  "shape0 demo_surfaces = 2" "shape1 demo_surfaces = 2"
  "heap demo_resolve_world (Suc 0) = [[0, 1, 0], [0, 1]]"
  by (simp_all add: demo_resolve_world_def demo_surfaces_def)

lemma demo_surfaces_cells:
  "\<forall>i<shape0 demo_surfaces. \<forall>j<shape1 demo_surfaces.
     item demo_surfaces (i, j) = Some (demo_surface_id i j)"
  by (simp add: demo_surfaces_def)

lemma upto_0_1: "[0..1] = [0, 1::int]"
  by code_simp

section \<open>The loop nests of the topology builder\<close>

lemma for_each_append:
  "for_each (xs @ ys) body w =
     (case for_each xs body w of (Inl e, w') \<Rightarrow> (Inl e, w') | (Inr u, w') \<Rightarrow> for_each ys body w')"
  by (induction xs arbitrary: w) (auto split: prod.splits sum.splits)

lemma for_range_closed:
  assumes "\<And>i. i < n \<Longrightarrow> body i (F i) = (Inr (), F (Suc i))"
  shows "for_each [0..<n] body (F 0) = (Inr (), F n)"
  using assms
proof (induction n)
  case 0
  then show ?case by simp
next
  case (Suc n)
  then have "for_each [0..<n] body (F 0) = (Inr (), F n)" by simp
  then show ?case using Suc.prems [of n] by (simp add: for_each_append)
qed

lemma grid_loop:
  assumes step: "\<And>q i. q < H \<Longrightarrow> i < W \<Longrightarrow> body q i (G q i) = (Inr (), G q (Suc i))"
    and row: "\<And>q. q < H \<Longrightarrow> G q W = G (Suc q) 0"
    and inner: "\<And>q. q < H \<Longrightarrow> inner q (G q 0) = for_each [0..<W] (body q) (G q 0)"
  shows "for_each [0..<H] inner (G 0 0) = (Inr (), G H 0)"
proof (rule for_range_closed [where F = "\<lambda>q. G q 0"])
  fix q assume q: "q < H"
  have "for_each [0..<W] (body q) (G q 0) = (Inr (), G q W)"
    by (rule for_range_closed [where F = "G q"]) (simp add: step q)
  then show "inner q (G q 0) = (Inr (), G (Suc q) 0)"
    by (simp add: inner q row)
qed

lemma cells_upto_Suc: "cells_upto W iy (Suc ix) = cells_upto W iy ix @ [(ix, iy)]"
  by (simp add: cells_upto_def)

lemma cells_upto_row: "cells_upto W iy W = cells_upto W (Suc iy) 0"
  by (simp add: cells_upto_def cells_def)

lemma cells_upto_0: "cells_upto W 0 0 = []"
  by (simp add: cells_upto_def cells_def)

lemma cells_upto_full: "cells_upto W H 0 = cells W H"
  by (simp add: cells_upto_def)

lemma cols_upto_Suc: "cols_upto H ix (Suc iy) = cols_upto H ix iy @ [(ix, iy)]"
  by (simp add: cols_upto_def)

lemma cols_upto_row: "cols_upto H ix H = cols_upto H (Suc ix) 0"
  by (simp add: cols_upto_def cols_def)

lemma cols_upto_0: "cols_upto H 0 0 = []"
  by (simp add: cols_upto_def cols_def)

lemma cols_upto_full: "cols_upto H W 0 = cols W H"
  by (simp add: cols_upto_def)

lemma filled_row: "filled W H iy W f = filled W H (Suc iy) 0 f"
  by (auto simp: filled_def fun_eq_iff)

lemma filled_0: "filled W H 0 0 f = \<lparr>shape0 = W, shape1 = H, item = (\<lambda>c. None)\<rparr>"
  by (auto simp: filled_def fun_eq_iff)

lemma filled_cols_row: "filled_cols W H ix H f = filled_cols W H (Suc ix) 0 f"
  by (auto simp: filled_cols_def fun_eq_iff)

lemma filled_cols_0: "filled_cols W H 0 0 f = \<lparr>shape0 = W, shape1 = H, item = (\<lambda>c. None)\<rparr>"
  by (auto simp: filled_cols_def fun_eq_iff)

lemma setitem2_filled:
  "ix < W \<Longrightarrow> iy < H \<Longrightarrow> v = f (ix, iy) \<Longrightarrow>
   setitem2 (filled W H iy ix f) (int ix) (int iy) v = Inr (filled W H iy (Suc ix) f)"
  by (auto simp: setitem2_def norm_index_def filled_def fun_eq_iff)

lemma setitem2_filled_cols:
  "ix < W \<Longrightarrow> iy < H \<Longrightarrow> v = f (ix, iy) \<Longrightarrow>
   setitem2 (filled_cols W H ix iy f) (int ix) (int iy) v = Inr (filled_cols W H ix (Suc iy) f)"
  by (auto simp: setitem2_def norm_index_def filled_cols_def fun_eq_iff)

lemma getitem2_filled:
  "i < W \<Longrightarrow> j < H \<Longrightarrow> j < iy \<or> j = iy \<and> i < ix \<Longrightarrow>
   getitem2 (filled W H iy ix f) (int i) (int j) = Inr (f (i, j))"
  by (auto simp: getitem2_def norm_index_def filled_def)

lemma holds_filled: "holds (filled W H H 0 f) W H f"
  by (simp add: holds_def filled_def)

lemma holds_filled_cols: "holds (filled_cols W H W 0 f) W H f"
  by (simp add: holds_def filled_cols_def)

lemma getitem2_holds:
  "holds a W H f \<Longrightarrow> i < W \<Longrightarrow> j < H \<Longrightarrow> getitem2 a (int i) (int j) = Inr (f (i, j))"
  by (simp add: holds_def getitem2_def norm_index_def)

lemma getitem2_holds_Suc0:
  "holds a W H f \<Longrightarrow> Suc i < W \<Longrightarrow> j < H \<Longrightarrow> getitem2 a (int i + 1) (int j) = Inr (f (Suc i, j))"
  using getitem2_holds [of a W H f "Suc i" j] by (simp add: add.commute)

lemma getitem2_holds_Suc1:
  "holds a W H f \<Longrightarrow> i < W \<Longrightarrow> Suc j < H \<Longrightarrow> getitem2 a (int i) (int j + 1) = Inr (f (i, Suc j))"
  using getitem2_holds [of a W H f i "Suc j"] by (simp add: add.commute)

lemma py_range_nat: "py_range (int n) = [0..<n]" "py_range (int n + 1) = [0..<Suc n]"
  by (simp_all add: py_range_def nat_add_distrib)

lemma np_empty_nat:
  "np_empty (int a) (int b) = Inr \<lparr>shape0 = a, shape1 = b, item = (\<lambda>c. None)\<rparr>"
  "np_empty (int a + 1) (int b + 1) = Inr \<lparr>shape0 = Suc a, shape1 = Suc b, item = (\<lambda>c. None)\<rparr>"
  "np_empty (int a) (int b + 1) = Inr \<lparr>shape0 = a, shape1 = Suc b, item = (\<lambda>c. None)\<rparr>"
  "np_empty (int a + 1) (int b) = Inr \<lparr>shape0 = Suc a, shape1 = b, item = (\<lambda>c. None)\<rparr>"
  by (simp_all add: np_empty_def nat_add_distrib)

lemma nodes_body_step:
  assumes "ix < W" "iy < H" "W \<le> length (self_x (mesh w))" "H \<le> length (self_y (mesh w))"
    "self_mesh_size (mesh w) = Some h"
  shows "nodes_body iy ix (nodes_state w W H h iy ix) = (Inr (), nodes_state w W H h iy (Suc ix))"
  using assms
  by (simp add: nodes_body_def nodes_state_def py_bind_def field_def py_lift_def attr_def
      addPoint_def modify_mesh_def getitem_def norm_index_def Let_def setitem2_filled
      cells_upto_Suc node_tag_def tag_after_def)

lemma nodes_state_row: "nodes_state w W H h iy W = nodes_state w W H h (Suc iy) 0"
  by (simp add: nodes_state_def filled_row cells_upto_row)

lemma nodes_state_0:
  "nodes_state w W H h 0 0 =
     w\<lparr>mesh := (mesh w)\<lparr>self_nodes := Some \<lparr>shape0 = W, shape1 = H, item = (\<lambda>c. None)\<rparr>\<rparr>\<rparr>"
  by (simp add: nodes_state_def filled_0 cells_upto_0)

lemma generate_nodes_closed:
  assumes nx: "self_nx (mesh w) = int nx" and ny: "self_ny (mesh w) = int ny"
    and lx: "Suc nx \<le> length (self_x (mesh w))" and ly: "Suc ny \<le> length (self_y (mesh w))"
    and h: "self_mesh_size (mesh w) = Some h"
  shows "generate_nodes w = (Inr (), nodes_state w (Suc nx) (Suc ny) h (Suc ny) 0)"
proof -
  let ?inner = "\<lambda>iy. py_bind (field self_nx) (\<lambda>nx'. for_each (py_range (nx' + 1)) (\<lambda>ix. nodes_body iy ix))"
  have loop: "for_each [0..<Suc ny] ?inner (nodes_state w (Suc nx) (Suc ny) h 0 0)
      = (Inr (), nodes_state w (Suc nx) (Suc ny) h (Suc ny) 0)"
  proof (rule grid_loop [where body = nodes_body and W = "Suc nx"])
    show "nodes_body q i (nodes_state w (Suc nx) (Suc ny) h q i)
        = (Inr (), nodes_state w (Suc nx) (Suc ny) h q (Suc i))"
      if "q < Suc ny" "i < Suc nx" for q i
      using that lx ly h by (intro nodes_body_step) auto
    show "nodes_state w (Suc nx) (Suc ny) h q (Suc nx) = nodes_state w (Suc nx) (Suc ny) h (Suc q) 0" for q
      by (rule nodes_state_row)
    show "?inner q (nodes_state w (Suc nx) (Suc ny) h q 0)
        = for_each [0..<Suc nx] (nodes_body q) (nodes_state w (Suc nx) (Suc ny) h q 0)" for q
      by (simp add: py_bind_def field_def nodes_state_def nx py_range_nat)
  qed
  show ?thesis
    by (simp add: generate_nodes_def py_bind_def field_def py_lift_def modify_mesh_def nx ny
        np_empty_nat py_range_nat loop [unfolded nodes_state_0] del: upt_Suc)
qed

lemmas loop_defs = py_bind_def field_def py_lift_def attr_def modify_mesh_def Let_def

lemma linex_body_step:
  assumes "ix < nx" "iy < Suc ny" "self_nodes (mesh w) = Some nd" "holds nd (Suc nx) (Suc ny) nid"
  shows "linex_body iy ix (linex_state w nx ny nid iy ix) = (Inr (), linex_state w nx ny nid iy (Suc ix))"
  using assms
  by (simp add: linex_body_def linex_state_def loop_defs addLine_def
      getitem2_holds [of nd "Suc nx" "Suc ny" nid] getitem2_holds_Suc0 [of nd "Suc nx" "Suc ny" nid]
      setitem2_filled cells_upto_Suc linex_tag_def tag_after_def)

lemma linex_state_row: "linex_state w nx ny nid iy nx = linex_state w nx ny nid (Suc iy) 0"
  by (simp add: linex_state_def filled_row cells_upto_row)

lemma linex_state_0:
  "linex_state w nx ny nid 0 0 =
     w\<lparr>mesh := (mesh w)\<lparr>self_linex := Some \<lparr>shape0 = nx, shape1 = Suc ny, item = (\<lambda>c. None)\<rparr>\<rparr>\<rparr>"
  by (simp add: linex_state_def filled_0 cells_upto_0)

lemma generate_linex_closed:
  assumes nx: "self_nx (mesh w) = int nx" and ny: "self_ny (mesh w) = int ny"
    and nd: "self_nodes (mesh w) = Some nd" and hd: "holds nd (Suc nx) (Suc ny) nid"
  shows "generate_linex w = (Inr (), linex_state w nx ny nid (Suc ny) 0)"
proof -
  let ?inner = "\<lambda>iy. py_bind (field self_nx) (\<lambda>nx'. for_each (py_range nx') (\<lambda>ix. linex_body iy ix))"
  have loop: "for_each [0..<Suc ny] ?inner (linex_state w nx ny nid 0 0)
      = (Inr (), linex_state w nx ny nid (Suc ny) 0)"
  proof (rule grid_loop [where body = linex_body and W = nx])
    show "linex_body q i (linex_state w nx ny nid q i) = (Inr (), linex_state w nx ny nid q (Suc i))"
      if "q < Suc ny" "i < nx" for q i
      using that nd hd by (intro linex_body_step) auto
    show "linex_state w nx ny nid q nx = linex_state w nx ny nid (Suc q) 0" for q
      by (rule linex_state_row)
    show "?inner q (linex_state w nx ny nid q 0)
        = for_each [0..<nx] (linex_body q) (linex_state w nx ny nid q 0)" for q
      by (simp add: py_bind_def field_def linex_state_def nx py_range_nat)
  qed
  show ?thesis
    by (simp add: generate_linex_def py_bind_def field_def py_lift_def modify_mesh_def nx ny
        np_empty_nat py_range_nat loop [unfolded linex_state_0] del: upt_Suc)
qed

lemma liney_body_step:
  assumes "ix < Suc nx" "iy < ny" "self_nodes (mesh w) = Some nd" "holds nd (Suc nx) (Suc ny) nid"
  shows "liney_body ix iy (liney_state w nx ny nid ix iy) = (Inr (), liney_state w nx ny nid ix (Suc iy))"
  using assms
  by (simp add: liney_body_def liney_state_def loop_defs addLine_def
      getitem2_holds [of nd "Suc nx" "Suc ny" nid] getitem2_holds_Suc1 [of nd "Suc nx" "Suc ny" nid]
      setitem2_filled_cols cols_upto_Suc liney_tag_def tag_after_def)

lemma liney_state_row: "liney_state w nx ny nid ix ny = liney_state w nx ny nid (Suc ix) 0"
  by (simp add: liney_state_def filled_cols_row cols_upto_row)

lemma liney_state_0:
  "liney_state w nx ny nid 0 0 =
     w\<lparr>mesh := (mesh w)\<lparr>self_liney := Some \<lparr>shape0 = Suc nx, shape1 = ny, item = (\<lambda>c. None)\<rparr>\<rparr>\<rparr>"
  by (simp add: liney_state_def filled_cols_0 cols_upto_0)

lemma generate_liney_closed:
  assumes nx: "self_nx (mesh w) = int nx" and ny: "self_ny (mesh w) = int ny"
    and nd: "self_nodes (mesh w) = Some nd" and hd: "holds nd (Suc nx) (Suc ny) nid"
  shows "generate_liney w = (Inr (), liney_state w nx ny nid (Suc nx) 0)"
proof -
  let ?inner = "\<lambda>ix. py_bind (field self_ny) (\<lambda>ny'. for_each (py_range ny') (\<lambda>iy. liney_body ix iy))"
  have loop: "for_each [0..<Suc nx] ?inner (liney_state w nx ny nid 0 0)
      = (Inr (), liney_state w nx ny nid (Suc nx) 0)"
  proof (rule grid_loop [where body = liney_body and W = ny])
    show "liney_body q i (liney_state w nx ny nid q i) = (Inr (), liney_state w nx ny nid q (Suc i))"
      if "q < Suc nx" "i < ny" for q i
      using that nd hd by (intro liney_body_step) auto
    show "liney_state w nx ny nid q ny = liney_state w nx ny nid (Suc q) 0" for q
      by (rule liney_state_row)
    show "?inner q (liney_state w nx ny nid q 0)
        = for_each [0..<ny] (liney_body q) (liney_state w nx ny nid q 0)" for q
      by (simp add: py_bind_def field_def liney_state_def ny py_range_nat)
  qed
  show ?thesis
    by (simp add: generate_liney_def py_bind_def field_def py_lift_def modify_mesh_def nx ny
        np_empty_nat py_range_nat loop [unfolded liney_state_0] del: upt_Suc)
qed

lemma lookup_snoc: "lookup (xs @ [(t, v)]) t = Some v"
  by (simp add: lookup_def)

lemma lookup_append_new:
  assumes "distinct (map fst new)" "(t, v) \<in> set new"
  shows "lookup (old @ new) t = Some v"
proof -
  have "map_of (rev new) t = Some v"
    using assms by (intro map_of_is_SomeI) (simp_all add: rev_map [symmetric])
  then show ?thesis by (simp add: lookup_def map_add_def)
qed

lemma coplanar_flat:
  assumes "list_all (\<lambda>p. snd (snd p) = 0) ps"
  shows "coplanar ps"
proof (cases ps)
  case Nil
  then show ?thesis by (simp add: coplanar_def)
next
  case (Cons p rest)
  have "det3 u v w = 0" if "snd (snd u) = 0" "snd (snd v) = 0" "snd (snd w) = 0" for u v w
    using that by (simp add: det3_def)
  moreover have "snd (snd (diff3 q p)) = 0" if "q \<in> set rest" for q
    using that assms Cons by (simp add: diff3_def list_all_iff)
  ultimately show ?thesis
    using Cons by (simp add: coplanar_def list_all_iff)
qed

lemma cell_loop_ends:
  assumes g: "grid_in_kernel k nx ny nid ex ey" and ix: "ix < nx" and iy: "iy < ny"
  shows "loop_ends (geo_lines k) [ey (Suc ix, iy), - ex (ix, Suc iy), - ey (ix, iy), ex (ix, iy)]
       = Some (cell_walk nid (ix, iy))"
proof -
  have r: "0 < ey (Suc ix, iy)"
      "lookup (geo_lines k) (ey (Suc ix, iy)) = Some (nid (Suc ix, iy), nid (Suc ix, Suc iy))"
    and t: "0 < ex (ix, Suc iy)"
      "lookup (geo_lines k) (ex (ix, Suc iy)) = Some (nid (ix, Suc iy), nid (Suc ix, Suc iy))"
    and l: "0 < ey (ix, iy)"
      "lookup (geo_lines k) (ey (ix, iy)) = Some (nid (ix, iy), nid (ix, Suc iy))"
    and b: "0 < ex (ix, iy)"
      "lookup (geo_lines k) (ex (ix, iy)) = Some (nid (ix, iy), nid (Suc ix, iy))"
    using g ix iy by (simp_all add: grid_in_kernel_def)
  have "curve_ends (geo_lines k) (ey (Suc ix, iy)) = Some (nid (Suc ix, iy), nid (Suc ix, Suc iy))"
    using r by (simp add: curve_ends_def)
  moreover have "curve_ends (geo_lines k) (- ex (ix, Suc iy)) = Some (nid (Suc ix, Suc iy), nid (ix, Suc iy))"
    using t by (simp add: curve_ends_def)
  moreover have "curve_ends (geo_lines k) (- ey (ix, iy)) = Some (nid (ix, Suc iy), nid (ix, iy))"
    using l by (simp add: curve_ends_def)
  moreover have "curve_ends (geo_lines k) (ex (ix, iy)) = Some (nid (ix, iy), nid (Suc ix, iy))"
    using b by (simp add: curve_ends_def)
  ultimately show ?thesis by (simp add: loop_ends_def cell_walk_def)
qed

lemma cell_walk_closed: "closed_chain (cell_walk nid c)"
  by (simp add: closed_chain_def cell_walk_def)

lemma cell_walk_flat:
  assumes g: "grid_in_kernel k nx ny nid ex ey" and ix: "ix < nx" and iy: "iy < ny"
  shows "\<exists>ps. those (map (\<lambda>e. point_coords (geo_points k) (fst e)) (cell_walk nid (ix, iy))) = Some ps
           \<and> coplanar ps"
proof -
  have pt: "\<exists>x y. point_coords (geo_points k) (nid (i, j)) = Some (x, y, 0)"
    if "i \<le> nx" "j \<le> ny" for i j
    using g that by (simp add: grid_in_kernel_def)
  obtain x1 y1 where 1: "point_coords (geo_points k) (nid (Suc ix, iy)) = Some (x1, y1, 0)"
    using pt [of "Suc ix" iy] ix iy by auto
  obtain x2 y2 where 2: "point_coords (geo_points k) (nid (Suc ix, Suc iy)) = Some (x2, y2, 0)"
    using pt [of "Suc ix" "Suc iy"] ix iy by auto
  obtain x3 y3 where 3: "point_coords (geo_points k) (nid (ix, Suc iy)) = Some (x3, y3, 0)"
    using pt [of ix "Suc iy"] ix iy by auto
  obtain x4 y4 where 4: "point_coords (geo_points k) (nid (ix, iy)) = Some (x4, y4, 0)"
    using pt [of ix iy] ix iy by auto
  have "those (map (\<lambda>e. point_coords (geo_points k) (fst e)) (cell_walk nid (ix, iy)))
      = Some [(x1, y1, 0), (x2, y2, 0), (x3, y3, 0), (x4, y4, 0)]"
    by (simp add: cell_walk_def 1 2 3 4)
  moreover have "coplanar [(x1, y1, 0), (x2, y2, 0), (x3, y3, 0), (x4, y4, 0)]"
    by (rule coplanar_flat) simp
  ultimately show ?thesis by blast
qed

lemma cell_loop_accepted:
  assumes g: "grid_in_kernel k nx ny nid ex ey" and ix: "ix < nx" and iy: "iy < ny"
    and same: "geo_lines k' = geo_lines k"
  shows "loop_accepted k' [ey (Suc ix, iy), - ex (ix, Suc iy), - ey (ix, iy), ex (ix, iy)]"
  by (simp add: loop_accepted_def same cell_loop_ends [OF g ix iy] cell_walk_closed)

lemma cell_wire_accepted:
  assumes g: "grid_in_kernel k nx ny nid ex ey" and ix: "ix < nx" and iy: "iy < ny"
    and same: "geo_lines k' = geo_lines k" "geo_points k' = geo_points k"
    and loop: "lookup (geo_curve_loops k') t
                 = Some [ey (Suc ix, iy), - ex (ix, Suc iy), - ey (ix, iy), ex (ix, iy)]"
  shows "wire_accepted k' t"
  using cell_walk_flat [OF g ix iy]
  by (auto simp: wire_accepted_def same loop cell_loop_ends [OF g ix iy] cell_walk_closed)

lemma addCurveLoop_accepted:
  "loop_accepted (gmsh w) curveTags \<Longrightarrow>
   addCurveLoop curveTags w =
     (Inr (int (max_curve_loop (gmsh w)) + 1),
      w\<lparr>gmsh := (gmsh w)\<lparr>geo_curve_loops :=
                            geo_curve_loops (gmsh w) @ [(int (max_curve_loop (gmsh w)) + 1, curveTags)],
                          max_curve_loop := Suc (max_curve_loop (gmsh w))\<rparr>\<rparr>)"
  by (simp add: addCurveLoop_def Let_def)

lemma addPlaneSurface_accepted:
  "wire_accepted (gmsh w) wire \<Longrightarrow>
   addPlaneSurface [wire] w =
     (Inr (int (max_surface (gmsh w)) + 1),
      w\<lparr>gmsh := (gmsh w)\<lparr>geo_plane_surfaces :=
                            geo_plane_surfaces (gmsh w) @ [(int (max_surface (gmsh w)) + 1, [wire])],
                          max_surface := Suc (max_surface (gmsh w))\<rparr>\<rparr>)"
  by (simp add: addPlaneSurface_def Let_def)

lemma surfaces_body_step:
  assumes "ix < nx" "iy < ny"
    "self_linex (mesh w) = Some lx" "holds lx nx (Suc ny) ex"
    "self_liney (mesh w) = Some ly" "holds ly (Suc nx) ny ey"
    and g: "grid_in_kernel (gmsh w) nx ny nid ex ey"
  shows "surfaces_body iy ix (surfaces_state w nx ny ex ey iy ix)
       = (Inr (), surfaces_state w nx ny ex ey iy (Suc ix))"
  using assms(1-6)
  by (simp add: surfaces_body_def surfaces_state_def loop_defs
      addCurveLoop_accepted cell_loop_accepted [OF g]
      addPlaneSurface_accepted cell_wire_accepted [OF g] lookup_def
      getitem2_holds [of lx nx "Suc ny" ex] getitem2_holds_Suc1 [of lx nx "Suc ny" ex]
      getitem2_holds [of ly "Suc nx" ny ey] getitem2_holds_Suc0 [of ly "Suc nx" ny ey]
      setitem2_filled getitem2_filled cells_upto_Suc loop_tag_def surface_tag_def tag_after_def
      cell_loop_def)

lemma surfaces_state_row:
  "surfaces_state w nx ny ex ey iy nx = surfaces_state w nx ny ex ey (Suc iy) 0"
  by (simp add: surfaces_state_def filled_row cells_upto_row)

lemma surfaces_state_0:
  "surfaces_state w nx ny ex ey 0 0 =
     w\<lparr>mesh := (mesh w)\<lparr>self_curves := Some \<lparr>shape0 = nx, shape1 = ny, item = (\<lambda>c. None)\<rparr>,
                         self_surfaces := Some \<lparr>shape0 = nx, shape1 = ny, item = (\<lambda>c. None)\<rparr>\<rparr>\<rparr>"
  by (simp add: surfaces_state_def filled_0 cells_upto_0)

lemma generate_surfaces_closed:
  assumes nx: "self_nx (mesh w) = int nx" and ny: "self_ny (mesh w) = int ny"
    and lx: "self_linex (mesh w) = Some lx" and hx: "holds lx nx (Suc ny) ex"
    and ly: "self_liney (mesh w) = Some ly" and hy: "holds ly (Suc nx) ny ey"
    and g: "grid_in_kernel (gmsh w) nx ny nid ex ey"
  shows "generate_surfaces w = (Inr (), surfaces_state w nx ny ex ey ny 0)"
proof -
  let ?inner = "\<lambda>iy. py_bind (field self_nx) (\<lambda>nx'. for_each (py_range nx') (\<lambda>ix. surfaces_body iy ix))"
  have loop: "for_each [0..<ny] ?inner (surfaces_state w nx ny ex ey 0 0)
      = (Inr (), surfaces_state w nx ny ex ey ny 0)"
  proof (rule grid_loop [where body = surfaces_body and W = nx])
    show "surfaces_body q i (surfaces_state w nx ny ex ey q i)
        = (Inr (), surfaces_state w nx ny ex ey q (Suc i))"
      if "q < ny" "i < nx" for q i
      using that lx hx ly hy g by (intro surfaces_body_step [where nid = nid]) auto
    show "surfaces_state w nx ny ex ey q nx = surfaces_state w nx ny ex ey (Suc q) 0" for q
      by (rule surfaces_state_row)
    show "?inner q (surfaces_state w nx ny ex ey q 0)
        = for_each [0..<nx] (surfaces_body q) (surfaces_state w nx ny ex ey q 0)" for q
      by (simp add: py_bind_def field_def surfaces_state_def nx py_range_nat)
  qed
  show ?thesis
    by (simp add: generate_surfaces_def py_bind_def field_def py_lift_def modify_mesh_def attr_def
        nx ny np_empty_nat np_empty_like_def py_range_nat loop [unfolded surfaces_state_0]
        del: upt_Suc)
qed

lemma cells_Suc: "cells W (Suc H) = cells W H @ map (\<lambda>i. (i, H)) [0..<W]"
  by (simp add: cells_def)

lemma cols_Suc: "cols (Suc W) H = cols W H @ map (\<lambda>j. (W, j)) [0..<H]"
  by (simp add: cols_def)

lemma map_shift_upt: "map (\<lambda>i. k + i) [0..<n] = [k..<k + n]"
  by (induction n) simp_all

lemma upt_split: "[0..<a + b] = [0..<a] @ [a..<a + b]"
  by (rule upt_add_eq_append) simp

lemma cells_index: "map (\<lambda>c. snd c * W + fst c) (cells W H) = [0..<H * W]"
proof (induction H)
  case 0
  then show ?case by (simp add: cells_def)
next
  case (Suc H)
  have row: "map (\<lambda>c. snd c * W + fst c) (map (\<lambda>i. (i, H)) [0..<W]) = [H * W..<H * W + W]"
    by (simp add: comp_def map_shift_upt)
  have "map (\<lambda>c. snd c * W + fst c) (cells W (Suc H)) =
      map (\<lambda>c. snd c * W + fst c) (cells W H) @
      map (\<lambda>c. snd c * W + fst c) (map (\<lambda>i. (i, H)) [0..<W])"
    by (simp only: cells_Suc map_append)
  also have "\<dots> = [0..<H * W] @ [H * W..<H * W + W]" by (simp only: Suc row)
  also have "\<dots> = [0..<H * W + W]" by (rule upt_split [symmetric])
  finally show ?case by (simp add: add.commute)
qed

lemma cols_index: "map (\<lambda>c. fst c * H + snd c) (cols W H) = [0..<W * H]"
proof (induction W)
  case 0
  then show ?case by (simp add: cols_def)
next
  case (Suc W)
  have row: "map (\<lambda>c. fst c * H + snd c) (map (\<lambda>j. (W, j)) [0..<H]) = [W * H..<W * H + H]"
    by (simp add: comp_def map_shift_upt)
  have "map (\<lambda>c. fst c * H + snd c) (cols (Suc W) H) =
      map (\<lambda>c. fst c * H + snd c) (cols W H) @
      map (\<lambda>c. fst c * H + snd c) (map (\<lambda>j. (W, j)) [0..<H])"
    by (simp only: cols_Suc map_append)
  also have "\<dots> = [0..<W * H] @ [W * H..<W * H + H]" by (simp only: Suc row)
  also have "\<dots> = [0..<W * H + H]" by (rule upt_split [symmetric])
  finally show ?case by (simp add: add.commute)
qed

lemma length_cells: "length (cells W H) = H * W"
  using arg_cong [OF cells_index [of W H], of length] by simp

lemma length_cols: "length (cols W H) = W * H"
  using arg_cong [OF cols_index [of H W], of length] by simp

lemma set_cells: "set (cells W H) = {c. fst c < W \<and> snd c < H}"
  by (auto simp: cells_def)

lemma set_cols: "set (cols W H) = {c. fst c < W \<and> snd c < H}"
  by (auto simp: cols_def)

lemma grid_index_unique:
  fixes a b c d W :: nat
  assumes "a * W + b = c * W + d" "b < W" "d < W"
  shows "a = c \<and> b = d"
proof -
  have "(a * W + b) div W = a" "(a * W + b) mod W = b" using assms(2) by simp_all
  moreover have "(c * W + d) div W = c" "(c * W + d) mod W = d" using assms(3) by simp_all
  ultimately show ?thesis using assms(1) by metis
qed

lemma cells_nth:
  assumes "i < W" "j < H"
  shows "cells W H ! (j * W + i) = (i, j)"
proof -
  have lt: "j * W + i < H * W"
  proof -
    have "j * W + i < j * W + W" using assms by simp
    also have "\<dots> = (Suc j) * W" by simp
    also have "\<dots> \<le> H * W" using assms by (intro mult_le_mono1) simp
    finally show ?thesis .
  qed
  then have n: "j * W + i < length (cells W H)" by (simp add: length_cells)
  let ?c = "cells W H ! (j * W + i)"
  have "?c \<in> set (cells W H)" using n by simp
  then have f: "fst ?c < W" by (simp add: set_cells)
  have "map (\<lambda>c. snd c * W + fst c) (cells W H) ! (j * W + i) = [0..<H * W] ! (j * W + i)"
    by (simp only: cells_index)
  then have "snd ?c * W + fst ?c = j * W + i" using n lt by simp
  from grid_index_unique [OF this f assms(1)] show ?thesis by (simp add: prod_eq_iff)
qed

lemma tags_of_cells:
  "map (\<lambda>c. tag_after t0 (snd c * W + fst c)) (cells W H) = map (tag_after t0) [0..<H * W]"
  using arg_cong [OF cells_index [of W H], of "map (tag_after t0)"] by (simp add: comp_def)

lemma tags_of_cols:
  "map (\<lambda>c. tag_after t0 (fst c * H + snd c)) (cols W H) = map (tag_after t0) [0..<W * H]"
  using arg_cong [OF cols_index [of H W], of "map (tag_after t0)"] by (simp add: comp_def)

lemma distinct_tags: "distinct (map (tag_after t0) [0..<n])"
  by (simp add: distinct_map inj_on_def tag_after_def)

lemma generate_surfaces_result:
  assumes nx: "self_nx (mesh w) = int nx" and ny: "self_ny (mesh w) = int ny"
    and lx: "self_linex (mesh w) = Some lx" and hx: "holds lx nx (Suc ny) ex"
    and ly: "self_liney (mesh w) = Some ly" and hy: "holds ly (Suc nx) ny ey"
    and g: "grid_in_kernel (gmsh w) nx ny nid ex ey"
  shows "generate_surfaces w = (Inr (), surfaces_state w nx ny ex ey ny 0)"
    and "self_curves (mesh (surfaces_state w nx ny ex ey ny 0)) = Some (filled nx ny ny 0 (loop_tag w nx))"
    and "self_surfaces (mesh (surfaces_state w nx ny ex ey ny 0)) = Some (filled nx ny ny 0 (surface_tag w nx))"
    and "geo_curve_loops (gmsh (surfaces_state w nx ny ex ey ny 0)) =
           geo_curve_loops (gmsh w) @ map (\<lambda>c. (loop_tag w nx c, cell_loop ex ey c)) (cells nx ny)"
    and "geo_plane_surfaces (gmsh (surfaces_state w nx ny ex ey ny 0)) =
           geo_plane_surfaces (gmsh w) @ map (\<lambda>c. (surface_tag w nx c, [loop_tag w nx c])) (cells nx ny)"
  using generate_surfaces_closed [OF assms]
  by (simp_all add: surfaces_state_def cells_upto_full)

lemma nodes_done_fields:
  "self_nx (mesh (nodes_done w nx ny h)) = self_nx (mesh w)"
  "self_ny (mesh (nodes_done w nx ny h)) = self_ny (mesh w)"
  "self_nodes (mesh (nodes_done w nx ny h)) = Some (filled (Suc nx) (Suc ny) (Suc ny) 0 (node_tag w (Suc nx)))"
  "max_line (gmsh (nodes_done w nx ny h)) = max_line (gmsh w)"
  "geo_lines (gmsh (nodes_done w nx ny h)) = geo_lines (gmsh w)"
  "geo_points (gmsh (nodes_done w nx ny h)) = geo_points (gmsh w) @
     map (\<lambda>c. (node_tag w (Suc nx) c, self_x (mesh w) ! fst c, self_y (mesh w) ! snd c, 0, h))
       (cells (Suc nx) (Suc ny))"
  "max_curve_loop (gmsh (nodes_done w nx ny h)) = max_curve_loop (gmsh w)"
  "max_surface (gmsh (nodes_done w nx ny h)) = max_surface (gmsh w)"
  "geo_curve_loops (gmsh (nodes_done w nx ny h)) = geo_curve_loops (gmsh w)"
  "geo_plane_surfaces (gmsh (nodes_done w nx ny h)) = geo_plane_surfaces (gmsh w)"
  by (simp_all add: nodes_done_def nodes_state_def cells_upto_full)

lemma linex_done_fields:
  "self_nx (mesh (linex_done w nx ny h)) = self_nx (mesh w)"
  "self_ny (mesh (linex_done w nx ny h)) = self_ny (mesh w)"
  "self_nodes (mesh (linex_done w nx ny h)) = Some (filled (Suc nx) (Suc ny) (Suc ny) 0 (node_tag w (Suc nx)))"
  "self_linex (mesh (linex_done w nx ny h)) = Some (filled nx (Suc ny) (Suc ny) 0 (linex_tag (nodes_done w nx ny h) nx))"
  "max_line (gmsh (linex_done w nx ny h)) = max_line (gmsh w) + Suc ny * nx"
  "geo_points (gmsh (linex_done w nx ny h)) = geo_points (gmsh (nodes_done w nx ny h))"
  "geo_lines (gmsh (linex_done w nx ny h)) = geo_lines (gmsh w) @
     map (\<lambda>c. (linex_tag (nodes_done w nx ny h) nx c, node_tag w (Suc nx) c,
                node_tag w (Suc nx) (Suc (fst c), snd c))) (cells nx (Suc ny))"
  "max_curve_loop (gmsh (linex_done w nx ny h)) = max_curve_loop (gmsh w)"
  "max_surface (gmsh (linex_done w nx ny h)) = max_surface (gmsh w)"
  "geo_curve_loops (gmsh (linex_done w nx ny h)) = geo_curve_loops (gmsh w)"
  "geo_plane_surfaces (gmsh (linex_done w nx ny h)) = geo_plane_surfaces (gmsh w)"
  by (simp_all add: linex_done_def linex_state_def nodes_done_fields cells_upto_full)

lemma liney_done_fields:
  "self_nx (mesh (liney_done w nx ny h)) = self_nx (mesh w)"
  "self_ny (mesh (liney_done w nx ny h)) = self_ny (mesh w)"
  "self_nodes (mesh (liney_done w nx ny h)) = Some (filled (Suc nx) (Suc ny) (Suc ny) 0 (node_tag w (Suc nx)))"
  "self_linex (mesh (liney_done w nx ny h)) = Some (filled nx (Suc ny) (Suc ny) 0 (linex_tag (nodes_done w nx ny h) nx))"
  "self_liney (mesh (liney_done w nx ny h)) = Some (filled_cols (Suc nx) ny (Suc nx) 0 (liney_tag (linex_done w nx ny h) ny))"
  "geo_points (gmsh (liney_done w nx ny h)) = geo_points (gmsh (nodes_done w nx ny h))"
  "geo_lines (gmsh (liney_done w nx ny h)) = geo_lines (gmsh (linex_done w nx ny h)) @
     map (\<lambda>c. (liney_tag (linex_done w nx ny h) ny c, node_tag w (Suc nx) c,
                node_tag w (Suc nx) (fst c, Suc (snd c)))) (cols (Suc nx) ny)"
  "max_curve_loop (gmsh (liney_done w nx ny h)) = max_curve_loop (gmsh w)"
  "max_surface (gmsh (liney_done w nx ny h)) = max_surface (gmsh w)"
  "geo_curve_loops (gmsh (liney_done w nx ny h)) = geo_curve_loops (gmsh w)"
  "geo_plane_surfaces (gmsh (liney_done w nx ny h)) = geo_plane_surfaces (gmsh w)"
  by (simp_all add: liney_done_def liney_state_def linex_done_fields cols_upto_full)

lemma topology_done_fields:
  "self_nx (mesh (topology_done w nx ny h)) = self_nx (mesh w)"
  "self_ny (mesh (topology_done w nx ny h)) = self_ny (mesh w)"
  "self_nodes (mesh (topology_done w nx ny h)) = Some (filled (Suc nx) (Suc ny) (Suc ny) 0 (node_tag w (Suc nx)))"
  "self_linex (mesh (topology_done w nx ny h)) = Some (filled nx (Suc ny) (Suc ny) 0 (linex_tag (nodes_done w nx ny h) nx))"
  "self_liney (mesh (topology_done w nx ny h)) = Some (filled_cols (Suc nx) ny (Suc nx) 0 (liney_tag (linex_done w nx ny h) ny))"
  "self_surfaces (mesh (topology_done w nx ny h)) = Some (filled nx ny ny 0 (surface_tag (liney_done w nx ny h) nx))"
  "geo_points (gmsh (topology_done w nx ny h)) = geo_points (gmsh (nodes_done w nx ny h))"
  "geo_lines (gmsh (topology_done w nx ny h)) = geo_lines (gmsh (liney_done w nx ny h))"
  "geo_plane_surfaces (gmsh (topology_done w nx ny h)) = geo_plane_surfaces (gmsh w) @
     map (\<lambda>c. (surface_tag (liney_done w nx ny h) nx c, [loop_tag (liney_done w nx ny h) nx c])) (cells nx ny)"
  "self_materials (mesh (topology_done w nx ny h)) = self_materials (mesh w)"
  "self_material_names (mesh (topology_done w nx ny h)) = self_material_names (mesh w)"
  "geo_physical_groups (gmsh (topology_done w nx ny h)) = geo_physical_groups (gmsh w)"
  by (simp_all add: topology_done_def surfaces_state_def liney_done_fields cells_upto_full
      liney_done_def liney_state_def linex_done_def linex_state_def nodes_done_def nodes_state_def)

lemma table_of_filled:
  "map (item (filled W H H 0 f)) (cells W H) = map (\<lambda>c. Some (f c)) (cells W H)"
  by (rule map_cong) (auto simp: set_cells filled_def)

lemma table_of_filled_cols:
  "map (item (filled_cols W H W 0 f)) (cols W H) = map (\<lambda>c. Some (f c)) (cols W H)"
  by (rule map_cong) (auto simp: set_cols filled_cols_def)

lemma line_tags:
  "map (\<lambda>c. linex_tag (nodes_done w nx ny h) nx c) (cells nx (Suc ny)) @
   map (\<lambda>c. liney_tag (linex_done w nx ny h) ny c) (cols (Suc nx) ny)
     = map (tag_after (max_line (gmsh w))) [0..<Suc ny * nx + Suc nx * ny]"
proof -
  have a: "map (\<lambda>c. linex_tag (nodes_done w nx ny h) nx c) (cells nx (Suc ny))
      = map (tag_after (max_line (gmsh w))) [0..<Suc ny * nx]"
    by (simp only: linex_tag_def nodes_done_fields tags_of_cells)
  have "map (\<lambda>c. liney_tag (linex_done w nx ny h) ny c) (cols (Suc nx) ny)
      = map (tag_after (max_line (gmsh w) + Suc ny * nx)) [0..<Suc nx * ny]"
    by (simp only: liney_tag_def linex_done_fields tags_of_cols)
  also have "\<dots> = map (tag_after (max_line (gmsh w))) (map (\<lambda>i. Suc ny * nx + i) [0..<Suc nx * ny])"
    by (simp add: tag_after_def comp_def)
  also have "\<dots> = map (tag_after (max_line (gmsh w))) [Suc ny * nx..<Suc ny * nx + Suc nx * ny]"
    by (simp only: map_shift_upt)
  finally show ?thesis
    by (simp only: a map_append [symmetric] upt_split [symmetric])
qed

lemma tag_after_pos: "0 < tag_after t0 n"
  by (simp add: tag_after_def)

lemma liney_done_holds_grid:
  "grid_in_kernel (gmsh (liney_done w nx ny h)) nx ny (node_tag w (Suc nx))
     (linex_tag (nodes_done w nx ny h) nx) (liney_tag (linex_done w nx ny h) ny)"
proof -
  let ?nid = "node_tag w (Suc nx)"
  let ?ex = "linex_tag (nodes_done w nx ny h) nx"
  let ?ey = "liney_tag (linex_done w nx ny h) ny"
  let ?ps = "map (\<lambda>c. (?nid c, self_x (mesh w) ! fst c, self_y (mesh w) ! snd c, 0::real, h))
       (cells (Suc nx) (Suc ny))"
  let ?lsx = "map (\<lambda>c. (?ex c, ?nid c, ?nid (Suc (fst c), snd c))) (cells nx (Suc ny))"
  let ?lsy = "map (\<lambda>c. (?ey c, ?nid c, ?nid (fst c, Suc (snd c)))) (cols (Suc nx) ny)"
  have ls: "geo_lines (gmsh (liney_done w nx ny h)) = geo_lines (gmsh w) @ (?lsx @ ?lsy)"
    by (simp add: liney_done_fields linex_done_fields)
  have "map fst (?lsx @ ?lsy) = map (tag_after (max_line (gmsh w))) [0..<Suc ny * nx + Suc nx * ny]"
    using line_tags [of w nx ny h] by (simp add: comp_def)
  then have dl: "distinct (map fst (?lsx @ ?lsy))" by (simp only: distinct_tags)
  have ps: "geo_points (gmsh (liney_done w nx ny h)) = geo_points (gmsh w) @ ?ps"
    by (simp add: liney_done_fields nodes_done_fields)
  have dp: "distinct (map fst ?ps)"
    by (simp add: comp_def node_tag_def tags_of_cells distinct_tags del: mult_Suc_right mult_Suc)
  have x: "0 < ?ex (i, j) \<and> lookup (geo_lines (gmsh (liney_done w nx ny h))) (?ex (i, j))
             = Some (?nid (i, j), ?nid (Suc i, j))" if "i < nx" "j \<le> ny" for i j
  proof -
    have "(i, j) \<in> set (cells nx (Suc ny))" using that by (simp add: set_cells)
    then have "(?ex (i, j), ?nid (i, j), ?nid (Suc i, j)) \<in> set (?lsx @ ?lsy)" by force
    then have "lookup (geo_lines (gmsh w) @ (?lsx @ ?lsy)) (?ex (i, j))
        = Some (?nid (i, j), ?nid (Suc i, j))"
      by (rule lookup_append_new [OF dl])
    moreover have "0 < ?ex (i, j)" by (simp only: linex_tag_def tag_after_pos)
    ultimately show ?thesis unfolding ls by (rule conjI [rotated])
  qed
  have y: "0 < ?ey (i, j) \<and> lookup (geo_lines (gmsh (liney_done w nx ny h))) (?ey (i, j))
             = Some (?nid (i, j), ?nid (i, Suc j))" if "i \<le> nx" "j < ny" for i j
  proof -
    have "(i, j) \<in> set (cols (Suc nx) ny)" using that by (simp add: set_cols)
    then have "(?ey (i, j), ?nid (i, j), ?nid (i, Suc j)) \<in> set (?lsx @ ?lsy)" by force
    then have "lookup (geo_lines (gmsh w) @ (?lsx @ ?lsy)) (?ey (i, j))
        = Some (?nid (i, j), ?nid (i, Suc j))"
      by (rule lookup_append_new [OF dl])
    moreover have "0 < ?ey (i, j)" by (simp only: liney_tag_def tag_after_pos)
    ultimately show ?thesis unfolding ls by (rule conjI [rotated])
  qed
  have p: "\<exists>x y. point_coords (geo_points (gmsh (liney_done w nx ny h))) (?nid (i, j)) = Some (x, y, 0)"
    if "i \<le> nx" "j \<le> ny" for i j
  proof -
    have "(i, j) \<in> set (cells (Suc nx) (Suc ny))" using that by (simp add: set_cells)
    then have "(?nid (i, j), self_x (mesh w) ! i, self_y (mesh w) ! j, 0, h) \<in> set ?ps" by force
    then have "lookup (geo_points (gmsh w) @ ?ps) (?nid (i, j))
        = Some (self_x (mesh w) ! i, self_y (mesh w) ! j, 0, h)"
      by (rule lookup_append_new [OF dp])
    then show ?thesis unfolding ps by (simp add: point_coords_def)
  qed
  show ?thesis
    unfolding grid_in_kernel_def using x y p by blast
qed

lemma nodes_lines_closed:
  assumes nx: "self_nx (mesh w) = int nx" and ny: "self_ny (mesh w) = int ny"
    and lx: "Suc nx \<le> length (self_x (mesh w))" and ly: "Suc ny \<le> length (self_y (mesh w))"
    and h: "self_mesh_size (mesh w) = Some h"
  shows "py_bind generate_nodes (\<lambda>u. generate_lines) w = (Inr (), liney_done w nx ny h)"
proof -
  have 1: "generate_nodes w = (Inr (), nodes_done w nx ny h)"
    unfolding nodes_done_def by (rule generate_nodes_closed [OF nx ny lx ly h])
  have 2: "generate_linex (nodes_done w nx ny h) = (Inr (), linex_done w nx ny h)"
    unfolding linex_done_def
    by (rule generate_linex_closed [OF _ _ nodes_done_fields(3) holds_filled])
       (simp_all add: nodes_done_fields nx ny)
  have 3: "generate_liney (linex_done w nx ny h) = (Inr (), liney_done w nx ny h)"
    unfolding liney_done_def
    by (rule generate_liney_closed [OF _ _ linex_done_fields(3) holds_filled])
       (simp_all add: linex_done_fields nx ny)
  show ?thesis
    by (simp add: generate_lines_def py_bind_def 1 2 3)
qed

lemma surfaces_after_lines:
  assumes nx: "self_nx (mesh w) = int nx" and ny: "self_ny (mesh w) = int ny"
  shows "generate_surfaces (liney_done w nx ny h) = (Inr (), topology_done w nx ny h)"
  unfolding topology_done_def
  by (rule generate_surfaces_closed
        [OF _ _ liney_done_fields(4) holds_filled liney_done_fields(5) holds_filled_cols
            liney_done_holds_grid])
     (simp_all add: liney_done_fields nx ny)

lemma build_topology_closed:
  assumes nx: "self_nx (mesh w) = int nx" and ny: "self_ny (mesh w) = int ny"
    and lx: "Suc nx \<le> length (self_x (mesh w))" and ly: "Suc ny \<le> length (self_y (mesh w))"
    and h: "self_mesh_size (mesh w) = Some h"
  shows "build_topology w = (Inr (), topology_done w nx ny h)"
  using nodes_lines_closed [OF assms] surfaces_after_lines [OF nx ny, of h]
  by (simp add: build_topology_def py_bind_def split: prod.splits sum.splits)

lemma demo_sized_facts:
  "self_nx (mesh demo_sized_world) = int 2" "self_ny (mesh demo_sized_world) = int 2"
  "length (self_x (mesh demo_sized_world)) = 2 + 1" "length (self_y (mesh demo_sized_world)) = 2 + 1"
  "self_mesh_size (mesh demo_sized_world) = Some 1"
  "geo_points (gmsh demo_sized_world) = []" "geo_lines (gmsh demo_sized_world) = []"
  "geo_plane_surfaces (gmsh demo_sized_world) = []"
  by (simp_all add: demo_sized_world_def demo_world_def demo_mesh_def init_def fresh_kernel_def)

lemma demo_sized_counters:
  "max_point (gmsh demo_sized_world) = 0" "max_line (gmsh demo_sized_world) = 0"
  "geo_curve_loops (gmsh demo_sized_world) = []" "max_curve_loop (gmsh demo_sized_world) = 0"
  by (simp_all add: demo_sized_world_def demo_world_def fresh_kernel_def)

lemma demo_cell_lines:
  "lookup (geo_lines (gmsh (liney_done demo_sized_world 2 2 1))) 12 = Some (6, 9)"
  "lookup (geo_lines (gmsh (liney_done demo_sized_world 2 2 1))) 6 = Some (8, 9)"
  "lookup (geo_lines (gmsh (liney_done demo_sized_world 2 2 1))) 10 = Some (5, 8)"
  "lookup (geo_lines (gmsh (liney_done demo_sized_world 2 2 1))) 4 = Some (5, 6)"
proof -
  let ?k = "gmsh (liney_done demo_sized_world 2 2 1)"
  let ?nid = "node_tag demo_sized_world (Suc 2)"
  let ?ex = "linex_tag (nodes_done demo_sized_world 2 2 1) 2"
  let ?ey = "liney_tag (linex_done demo_sized_world 2 2 1) 2"
  note g = liney_done_holds_grid [of demo_sized_world 2 2 1]
  have "lookup (geo_lines ?k) (?ey (2, 1)) = Some (?nid (2, 1), ?nid (2, Suc 1))"
    "lookup (geo_lines ?k) (?ex (1, 2)) = Some (?nid (1, 2), ?nid (Suc 1, 2))"
    "lookup (geo_lines ?k) (?ey (1, 1)) = Some (?nid (1, 1), ?nid (1, Suc 1))"
    "lookup (geo_lines ?k) (?ex (1, 1)) = Some (?nid (1, 1), ?nid (Suc 1, 1))"
    using g by (simp_all add: grid_in_kernel_def)
  then show
    "lookup (geo_lines ?k) 12 = Some (6, 9)" "lookup (geo_lines ?k) 6 = Some (8, 9)"
    "lookup (geo_lines ?k) 10 = Some (5, 8)" "lookup (geo_lines ?k) 4 = Some (5, 6)"
    by (simp_all add: node_tag_def linex_tag_def liney_tag_def tag_after_def
        nodes_done_fields linex_done_fields demo_sized_counters)
qed

subsection \<open>What the kernel refuses\<close>

lemma upt_0_2: "[0..<2] = [0, 1]" "[0..<1] = [0]"
  by (simp_all add: upt_rec)

text \<open>
  On the demo grid with line tables that name lines the kernel does not hold,
  \<open>generate_surfaces\<close> stops at its first cell: the loop of the unknown curves 9, 3, 7
  and 1 is recorded, the surface on it is refused, and no surface exists afterwards.
\<close>

lemma surfaces_need_lines:
  "fst (generate_surfaces demo_lines_world) = Inl GeometryConstructionError
   \<and> geo_curve_loops (gmsh (snd (generate_surfaces demo_lines_world))) = [(1, [9, - 3, - 7, 1])]
   \<and> geo_plane_surfaces (gmsh (snd (generate_surfaces demo_lines_world))) = []"
  by (simp add: generate_surfaces_def surfaces_body_def loop_defs py_range_def upt_0_2
      demo_lines_world_def demo_world_def demo_mesh_def init_def fresh_kernel_def
      np_empty_def np_empty_like_def getitem2_def setitem2_def norm_index_def
      demo_linex_def demo_liney_def demo_ex_def demo_ey_def
      addCurveLoop_def addPlaneSurface_def loop_accepted_def wire_accepted_def loop_ends_def
      curve_ends_def lookup_def)

text \<open>
  Once the demo grid has its nodes and lines, the loop of the cell \<open>(1, 1)\<close> is accepted
  as \<open>generate_surfaces\<close> signs it, and refused when its top side is not negated: the
  right side ends at node 9, where the top side, walked forwards, does not start.
\<close>

lemma open_loop_rejected:
  "fst (addCurveLoop [12, 6, - 10, 4] (liney_done demo_sized_world 2 2 1))
     = Inl GeometryConstructionError"
  "fst (addCurveLoop [12, - 6, - 10, 4] (liney_done demo_sized_world 2 2 1)) = Inr 1"
  by (simp_all add: addCurveLoop_def loop_accepted_def loop_ends_def curve_ends_def
      closed_chain_def demo_cell_lines liney_done_fields(8) demo_sized_counters Let_def)

section \<open>The classification of cells by material\<close>

lemma for_each_inv:
  assumes run: "for_each xs body w = (Inr (), w')"
    and init: "I pre w"
    and step: "\<And>p a s s'. a \<in> set xs \<Longrightarrow> I p s \<Longrightarrow> body a s = (Inr (), s') \<Longrightarrow> I (p @ [a]) s'"
  shows "I (pre @ xs) w'"
  using run init step
proof (induction xs arbitrary: pre w)
  case Nil
  then show ?case by simp
next
  case (Cons a xs)
  from Cons.prems(1) obtain s where a: "body a w = (Inr (), s)" and r: "for_each xs body s = (Inr (), w')"
    by (auto split: prod.splits sum.splits)
  have "I (pre @ [a]) s" using Cons.prems(2,3) a by simp
  from Cons.IH [OF r this] Cons.prems(3) show ?case by simp
qed

lemma groups_of_length: "length (groups_of names sid f cs) = length names"
  by (simp add: groups_of_def)

lemma groups_of_nth:
  "g < length names \<Longrightarrow>
   groups_of names sid f cs ! g =
     \<lparr>material_name = names ! g, entities = map sid (filter (\<lambda>c. f c = Inr g) cs)\<rparr>"
  by (simp add: groups_of_def)

lemma groups_of_append:
  assumes "f c = Inr g" "g < length names"
  shows "(groups_of names sid f cs)[g := (groups_of names sid f cs ! g)
            \<lparr>entities := entities (groups_of names sid f cs ! g) @ [sid c]\<rparr>]
         = groups_of names sid f (cs @ [c])"
proof (rule nth_equalityI)
  show "length ((groups_of names sid f cs)[g := (groups_of names sid f cs ! g)
            \<lparr>entities := entities (groups_of names sid f cs ! g) @ [sid c]\<rparr>])
      = length (groups_of names sid f (cs @ [c]))"
    by (simp add: groups_of_length)
next
  fix i assume "i < length ((groups_of names sid f cs)[g := (groups_of names sid f cs ! g)
            \<lparr>entities := entities (groups_of names sid f cs ! g) @ [sid c]\<rparr>])"
  then have i: "i < length names" by (simp add: groups_of_length)
  show "(groups_of names sid f cs)[g := (groups_of names sid f cs ! g)
            \<lparr>entities := entities (groups_of names sid f cs ! g) @ [sid c]\<rparr>] ! i
      = groups_of names sid f (cs @ [c]) ! i"
    using i assms by (cases "i = g") (simp_all add: groups_of_nth groups_of_length)
qed

lemma gid_bound: "gid M ny k c = Inr g \<Longrightarrow> g < k"
  by (auto simp: gid_def dest: norm_index_bound split: sum.splits)

lemma groups_state_fields:
  "self_nx (mesh (groups_state w M names gs)) = self_nx (mesh w)"
  "self_ny (mesh (groups_state w M names gs)) = self_ny (mesh w)"
  "self_materials (mesh (groups_state w M names gs)) = self_materials (mesh w)"
  "self_surfaces (mesh (groups_state w M names gs)) = self_surfaces (mesh w)"
  "self_physical_groups (mesh (groups_state w M names gs)) = Some gs"
  "self_material_names (mesh (groups_state w M names gs)) = Some names"
  "gmsh (groups_state w M names gs) = gmsh w"
  "heap (groups_state w M names gs) = heap w"
  by (simp_all add: groups_state_def)

lemma groups_state_update:
  "(groups_state w M names gs)\<lparr>mesh := (mesh (groups_state w M names gs))\<lparr>self_physical_groups := Some gs'\<rparr>\<rparr>
     = groups_state w M names gs'"
  by (simp add: groups_state_def)

lemma groups_body_cases:
  assumes mat: "self_materials (mesh w) = Some M" and ny: "self_ny (mesh w) = int ny"
    and sf: "self_surfaces (mesh w) = Some sf" and hs: "holds sf nx ny sid"
    and c: "ix < nx" "iy < ny"
  shows "groups_body iy ix (groups_state w M names (groups_of names sid (gid M ny (length names)) cs)) =
      (case gid M ny (length names) (ix, iy) of
         Inl e \<Rightarrow> (Inl e, groups_state w M names (groups_of names sid (gid M ny (length names)) cs))
       | Inr g \<Rightarrow> (Inr (), groups_state w M names
                    (groups_of names sid (gid M ny (length names)) (cs @ [(ix, iy)]))))"
proof (cases "getitem_matrix M (int ny - 1 - int iy) (int ix)")
  case (Inl e)
  then show ?thesis
    by (simp add: groups_body_def loop_defs py_return_def py_raise_def groups_state_fields mat ny gid_def)
next
  case (Inr v)
  show ?thesis
  proof (cases "norm_index (length names) (v - 1)")
    case (Inl e)
    then show ?thesis
      using Inr c
      by (simp add: groups_body_def loop_defs py_return_def py_raise_def groups_state_fields mat ny
          sf getitem2_holds [OF hs] gid_def getitem_def groups_of_length)
  next
    case g: (Inr g)
    have gd: "gid M ny (length names) (ix, iy) = Inr g" using Inr g by (simp add: gid_def)
    have gl: "g < length names" using g by (rule norm_index_bound)
    show ?thesis
      using Inr g c
      by (simp add: groups_body_def loop_defs py_return_def py_raise_def groups_state_fields mat ny
          sf getitem2_holds [OF hs] gd getitem_def setitem_def groups_of_length
          groups_of_append [of "gid M ny (length names)" "(ix, iy)" g names sid cs, OF gd gl]
          groups_state_update)
  qed
qed

lemma groups_of_nil:
  "groups_of names sid f [] = map (\<lambda>n. \<lparr>material_name = n, entities = []\<rparr>) names"
proof -
  have "map (\<lambda>n. \<lparr>material_name = n, entities = []\<rparr>) names =
      map (\<lambda>n. \<lparr>material_name = n, entities = []\<rparr>) (map (\<lambda>i. names ! i) [0..<length names])"
    by (simp only: map_nth)
  then show ?thesis by (simp add: groups_of_def comp_def)
qed

lemma cells_0: "cells W 0 = []"
  by (simp add: cells_def)

lemma classify_total:
  assumes mat: "self_materials (mesh w) = Some M"
    and nx: "self_nx (mesh w) = int nx" and ny: "self_ny (mesh w) = int ny"
    and sf: "self_surfaces (mesh w) = Some sf" and hs: "holds sf nx ny sid"
    and ok: "\<And>c. c \<in> set (cells nx ny) \<Longrightarrow> \<exists>g. gid M ny (length names) c = Inr g"
  shows "classify_cells (groups_state w M names (groups_of names sid (gid M ny (length names)) []))
       = (Inr (), groups_state w M names (groups_of names sid (gid M ny (length names)) (cells nx ny)))"
proof -
  let ?f = "gid M ny (length names)"
  let ?G = "\<lambda>iy ix. groups_state w M names (groups_of names sid ?f (cells_upto nx iy ix))"
  let ?inner = "\<lambda>iy. py_bind (field self_nx) (\<lambda>nx. for_each (py_range nx) (\<lambda>ix. groups_body iy ix))"
  have loop: "for_each [0..<ny] ?inner (?G 0 0) = (Inr (), ?G ny 0)"
  proof (rule grid_loop [where body = groups_body and W = nx and G = ?G])
    show "groups_body q i (?G q i) = (Inr (), ?G q (Suc i))" if "q < ny" "i < nx" for q i
    proof -
      have "(i, q) \<in> set (cells nx ny)" using that by (simp add: set_cells)
      from ok [OF this] obtain g where "?f (i, q) = Inr g" ..
      then show ?thesis
        using groups_body_cases [OF mat ny sf hs that(2) that(1), of names "cells_upto nx q i"]
        by (simp add: cells_upto_Suc)
    qed
    show "?G q nx = ?G (Suc q) 0" for q by (simp add: cells_upto_row)
    show "?inner q (?G q 0) = for_each [0..<nx] (groups_body q) (?G q 0)" for q
      by (simp add: py_bind_def field_def groups_state_fields nx py_range_nat)
  qed
  show ?thesis
    using loop
    by (simp add: classify_cells_def py_bind_def field_def groups_state_fields ny py_range_nat
        cells_upto_0 cells_upto_full cells_0)
qed

lemma classify_partial:
  assumes mat: "self_materials (mesh w) = Some M"
    and nx: "self_nx (mesh w) = int nx" and ny: "self_ny (mesh w) = int ny"
    and sf: "self_surfaces (mesh w) = Some sf" and hs: "holds sf nx ny sid"
    and run: "classify_cells (groups_state w M names (groups_of names sid (gid M ny (length names)) []))
       = (Inr (), w')"
  shows "w' = groups_state w M names (groups_of names sid (gid M ny (length names)) (cells nx ny))
       \<and> (\<forall>c\<in>set (cells nx ny). \<exists>g. gid M ny (length names) c = Inr g)"
proof -
  let ?f = "gid M ny (length names)"
  let ?GS = "\<lambda>cs. groups_state w M names (groups_of names sid ?f cs)"
  let ?I = "\<lambda>cs s. s = ?GS cs \<and> (\<forall>c\<in>set cs. \<exists>g. ?f c = Inr g)"
  let ?row = "\<lambda>j. map (\<lambda>i. (i, j)) [0..<nx]"
  let ?inner = "\<lambda>iy. py_bind (field self_nx) (\<lambda>nx. for_each (py_range nx) (\<lambda>ix. groups_body iy ix))"
  have run': "for_each [0..<ny] ?inner (?GS []) = (Inr (), w')"
    using run by (simp add: classify_cells_def py_bind_def field_def groups_state_fields ny py_range_nat)
  have "?I (concat (map ?row ([] @ [0..<ny]))) w'"
  proof (rule for_each_inv [where I = "\<lambda>p s. ?I (concat (map ?row p)) s", OF run'])
    show "?I (concat (map ?row [])) (?GS [])" by simp
  next
    fix p a s s'
    assume a: "a \<in> set [0..<ny]" and I: "?I (concat (map ?row p)) s"
      and b: "?inner a s = (Inr (), s')"
    let ?base = "concat (map ?row p)"
    have b': "for_each [0..<nx] (groups_body a) s = (Inr (), s')"
      using b I by (simp add: py_bind_def field_def groups_state_fields nx py_range_nat)
    have "?I (?base @ map (\<lambda>i. (i, a)) ([] @ [0..<nx])) s'"
    proof (rule for_each_inv [where I = "\<lambda>q t. ?I (?base @ map (\<lambda>i. (i, a)) q) t", OF b'])
      show "?I (?base @ map (\<lambda>i. (i, a)) []) s" using I by simp
    next
      fix q i t t'
      assume i: "i \<in> set [0..<nx]" and J: "?I (?base @ map (\<lambda>i. (i, a)) q) t"
        and c: "groups_body a i t = (Inr (), t')"
      have ia: "i < nx" "a < ny" using i a by simp_all
      show "?I (?base @ map (\<lambda>i. (i, a)) (q @ [i])) t'"
      proof (cases "?f (i, a)")
        case (Inl e)
        then show ?thesis
          using c J groups_body_cases [OF mat ny sf hs ia, of names "?base @ map (\<lambda>i. (i, a)) q"]
          by simp
      next
        case (Inr g)
        then show ?thesis
          using c J groups_body_cases [OF mat ny sf hs ia, of names "?base @ map (\<lambda>i. (i, a)) q"]
          by auto
      qed
    qed
    then show "?I (concat (map ?row (p @ [a]))) s'" by simp
  qed
  then show ?thesis by (simp add: cells_def)
qed

lemma addPhysicalGroup_value:
  "addPhysicalGroup d tags tag name s =
     (Inr (), s\<lparr>gmsh := (gmsh s)\<lparr>geo_physical_groups :=
        geo_physical_groups (gmsh s) @ [(d, tags, tag, name)]\<rparr>\<rparr>)"
  by (simp add: addPhysicalGroup_def Let_def)

lemma register_loop:
  "for_each (enumerate n gs)
     (\<lambda>(group_id, grp). addPhysicalGroup 2 (entities grp) (int group_id + 1) (material_name grp)) s
   = (Inr (), s\<lparr>gmsh := (gmsh s)\<lparr>geo_physical_groups := geo_physical_groups (gmsh s) @
        map (\<lambda>p. (2, entities (snd p), int (fst p) + 1, material_name (snd p))) (enumerate n gs)\<rparr>\<rparr>)"
proof (induction gs arbitrary: n s)
  case Nil
  then show ?case by simp
next
  case (Cons g gs)
  let ?body = "\<lambda>(group_id, grp). addPhysicalGroup 2 (entities grp) (int group_id + 1) (material_name grp)"
  let ?s1 = "s\<lparr>gmsh := (gmsh s)\<lparr>geo_physical_groups :=
        geo_physical_groups (gmsh s) @ [(2, entities g, int n + 1, material_name g)]\<rparr>\<rparr>"
  have "for_each (enumerate n (g # gs)) ?body s = for_each (enumerate (Suc n) gs) ?body ?s1"
    by (simp only: enumerate_simps for_each.simps prod.case addPhysicalGroup_value sum.case)
  also note Cons.IH [of "Suc n" ?s1]
  finally show ?case by simp
qed

lemma register_groups_closed:
  "self_physical_groups (mesh s) = Some gs \<Longrightarrow>
   register_groups s = (Inr (), s\<lparr>gmsh := (gmsh s)\<lparr>geo_physical_groups :=
      geo_physical_groups (gmsh s) @ registrations gs\<rparr>\<rparr>)"
  by (simp add: register_groups_def py_bind_def attr_def register_loop registrations_def)

lemma generate_physical_groups_prelude:
  assumes mat: "self_materials (mesh w) = Some M"
  shows "generate_physical_groups w =
     py_bind classify_cells (\<lambda>u. register_groups)
       (groups_state w M (effective_names M (self_material_names (mesh w)))
          (groups_of (effective_names M (self_material_names (mesh w))) sid f []))"
proof (cases "self_material_names (mesh w)")
  case None
  then show ?thesis
    by (simp add: generate_physical_groups_def default_material_names_def py_bind_def field_def
        modify_mesh_def attr_def py_return_def py_raise_def mat effective_names_def py_range_def
        groups_of_nil groups_state_def)
next
  case (Some names)
  then have e: "(mesh w)\<lparr>self_n_matrial := a, self_material_names := Some names, self_physical_groups := b\<rparr>
      = (mesh w)\<lparr>self_n_matrial := a, self_physical_groups := b\<rparr>" for a b
    by (cases "mesh w") simp
  show ?thesis
    using Some
    by (simp add: generate_physical_groups_def default_material_names_def py_bind_def field_def
        modify_mesh_def attr_def py_return_def py_raise_def mat effective_names_def
        groups_of_nil groups_state_def e)
qed

lemma generate_physical_groups_absent:
  "self_materials (mesh w) = None \<Longrightarrow> generate_physical_groups w = (Inl RuntimeError, w)"
  by (simp add: generate_physical_groups_def py_bind_def field_def py_raise_def)

lemma groups_done_register:
  "register_groups (groups_state w M names gs) = (Inr (), groups_done w M names gs)"
  using register_groups_closed [of "groups_state w M names gs" gs]
  by (simp add: groups_done_def groups_state_fields)

lemma generate_physical_groups_total:
  assumes mat: "self_materials (mesh w) = Some M"
    and nx: "self_nx (mesh w) = int nx" and ny: "self_ny (mesh w) = int ny"
    and sf: "self_surfaces (mesh w) = Some sf" and hs: "holds sf nx ny sid"
    and names: "names = effective_names M (self_material_names (mesh w))"
    and ok: "\<And>c. c \<in> set (cells nx ny) \<Longrightarrow> \<exists>g. gid M ny (length names) c = Inr g"
  shows "generate_physical_groups w =
      (Inr (), groups_done w M names (groups_of names sid (gid M ny (length names)) (cells nx ny)))"
  using classify_total [OF mat nx ny sf hs ok]
  by (simp add: generate_physical_groups_prelude [OF mat, of sid "gid M ny (length names)"]
      names [symmetric] py_bind_def groups_done_register)

lemma generate_physical_groups_partial:
  assumes mat: "self_materials (mesh w) = Some M"
    and nx: "self_nx (mesh w) = int nx" and ny: "self_ny (mesh w) = int ny"
    and sf: "self_surfaces (mesh w) = Some sf" and hs: "holds sf nx ny sid"
    and names: "names = effective_names M (self_material_names (mesh w))"
    and run: "generate_physical_groups w = (Inr (), w')"
  shows "w' = groups_done w M names (groups_of names sid (gid M ny (length names)) (cells nx ny))
       \<and> (\<forall>c\<in>set (cells nx ny). \<exists>g. gid M ny (length names) c = Inr g)"
proof -
  let ?f = "gid M ny (length names)"
  from run have r: "py_bind classify_cells (\<lambda>u. register_groups)
       (groups_state w M names (groups_of names sid ?f [])) = (Inr (), w')"
    by (simp add: generate_physical_groups_prelude [OF mat, of sid ?f] names [symmetric])
  then obtain s where c: "classify_cells (groups_state w M names (groups_of names sid ?f [])) = (Inr (), s)"
    and g: "register_groups s = (Inr (), w')"
    by (auto simp: py_bind_def split: prod.splits sum.splits)
  from classify_partial [OF mat nx ny sf hs c]
  have s: "s = groups_state w M names (groups_of names sid ?f (cells nx ny))"
    and ok: "\<forall>c\<in>set (cells nx ny). \<exists>g. ?f c = Inr g" by simp_all
  from g show ?thesis by (simp add: s groups_done_register ok)
qed

lemma sum_list_delta:
  "g0 < k \<Longrightarrow> sum_list (map (\<lambda>g. if g = g0 then {#x#} else {#}) [0..<k]) = {#x#}"
  by (simp add: interv_sum_list_conv_sum_set_nat)

lemma mset_concat_groups:
  assumes "\<forall>c\<in>set cs. \<exists>g<k. f c = Inr g"
  shows "mset (concat (map (\<lambda>g. map sid (filter (\<lambda>c. f c = Inr g) cs)) [0..<k])) = mset (map sid cs)"
  using assms
proof (induction cs)
  case Nil
  then show ?case by (simp add: mset_concat comp_def)
next
  case (Cons c cs)
  then obtain g0 where g0: "g0 < k" "f c = Inr g0" by auto
  have "mset (concat (map (\<lambda>g. map sid (filter (\<lambda>c. f c = Inr g) (c # cs))) [0..<k]))
      = sum_list (map (\<lambda>g. mset (map sid (filter (\<lambda>c. f c = Inr g) cs)) + (if g = g0 then {#sid c#} else {#})) [0..<k])"
    using g0 by (auto simp: mset_concat comp_def intro!: arg_cong [where f = sum_list])
  also have "\<dots> = sum_list (map (\<lambda>g. mset (map sid (filter (\<lambda>c. f c = Inr g) cs))) [0..<k]) + {#sid c#}"
    by (simp add: sum_list_addf sum_list_delta [OF g0(1)])
  also have "sum_list (map (\<lambda>g. mset (map sid (filter (\<lambda>c. f c = Inr g) cs))) [0..<k])
      = mset (concat (map (\<lambda>g. map sid (filter (\<lambda>c. f c = Inr g) cs)) [0..<k]))"
    by (simp add: mset_concat comp_def)
  finally show ?case using Cons by simp
qed

lemma entities_groups_of:
  "map entities (groups_of names sid f cs) =
     map (\<lambda>g. map sid (filter (\<lambda>c. f c = Inr g) cs)) [0..<length names]"
  by (simp add: groups_of_def comp_def)

lemma names_groups_of: "map material_name (groups_of names sid f cs) = names"
  by (simp add: groups_of_def comp_def map_nth)

lemma distinct_cells: "distinct (cells W H)"
proof -
  have "distinct (map (\<lambda>c. snd c * W + fst c) (cells W H))" by (simp only: cells_index distinct_upt)
  then show ?thesis by (simp add: distinct_map)
qed

lemma groups_done_fields:
  "self_physical_groups (mesh (groups_done w M names gs)) = Some gs"
  "geo_physical_groups (gmsh (groups_done w M names gs)) = geo_physical_groups (gmsh w) @ registrations gs"
  "self_material_names (mesh (groups_done w M names gs)) = Some names"
  by (simp_all add: groups_done_def groups_state_def)

lemma getitem_matrix_in_range:
  "r < length M \<Longrightarrow> c < length (M ! r) \<Longrightarrow> getitem_matrix M (int r) (int c) = Inr (M ! r ! c)"
  by (simp add: getitem_matrix_def norm_index_def)

lemma gid_in_range:
  assumes shape: "length M = ny" "\<forall>row\<in>set M. length row = nx"
    and vals: "\<forall>row\<in>set M. \<forall>v\<in>set row. 1 \<le> v \<and> v \<le> int k"
    and c: "c \<in> set (cells nx ny)"
  shows "gid M ny k c = Inr (nat (M ! (ny - 1 - snd c) ! fst c - 1))
       \<and> 1 \<le> M ! (ny - 1 - snd c) ! fst c"
proof -
  from c have i: "fst c < nx" "snd c < ny" by (simp_all add: set_cells)
  let ?r = "ny - 1 - snd c"
  have r: "?r < length M" using i shape by simp
  then have row: "M ! ?r \<in> set M" by simp
  then have cl: "fst c < length (M ! ?r)" using shape i by simp
  then have v: "M ! ?r ! fst c \<in> set (M ! ?r)" by simp
  have rng: "1 \<le> M ! ?r ! fst c" "M ! ?r ! fst c \<le> int k" using vals row v by auto
  have "int ny - 1 - int (snd c) = int ?r" using i by simp
  then have "getitem_matrix M (int ny - 1 - int (snd c)) (int (fst c)) = Inr (M ! ?r ! fst c)"
    using getitem_matrix_in_range [OF r cl] by simp
  then show ?thesis using rng by (simp add: gid_def norm_index_def)
qed

lemma set_map_filter_cells:
  "set (map sid (filter P (cells nx ny))) = {sid (ix, iy) | ix iy. ix < nx \<and> iy < ny \<and> P (ix, iy)}"
proof (intro set_eqI iffI)
  fix x assume "x \<in> set (map sid (filter P (cells nx ny)))"
  then obtain c where c: "c \<in> set (cells nx ny)" "P c" "x = sid c" by auto
  obtain ix iy where p: "c = (ix, iy)" by (cases c)
  from c p have "ix < nx" "iy < ny" "P (ix, iy)" "x = sid (ix, iy)" by (simp_all add: set_cells)
  then show "x \<in> {sid (ix, iy) | ix iy. ix < nx \<and> iy < ny \<and> P (ix, iy)}" by blast
next
  fix x assume "x \<in> {sid (ix, iy) | ix iy. ix < nx \<and> iy < ny \<and> P (ix, iy)}"
  then obtain ix iy where "ix < nx" "iy < ny" "P (ix, iy)" "x = sid (ix, iy)" by blast
  then have "(ix, iy) \<in> set (filter P (cells nx ny))" by (simp add: set_cells)
  with \<open>x = sid (ix, iy)\<close> show "x \<in> set (map sid (filter P (cells nx ny)))"
    by (metis image_eqI set_map)
qed

lemma cells_2_2: "cells 2 2 = [(0, 0), (1, 0), (0, 1), (1, 1)]"
  by code_simp

lemma cells_2_1: "cells 2 1 = [(0, 0), (1, 0)]"
  by code_simp

lemma inj_on_grid_tag: "inj_on (\<lambda>c. tag_after t0 (snd c * W + fst c)) (set (cells W H))"
proof (rule inj_onI)
  fix a b assume a: "a \<in> set (cells W H)" and b: "b \<in> set (cells W H)"
    and e: "tag_after t0 (snd a * W + fst a) = tag_after t0 (snd b * W + fst b)"
  from e have "int (snd a * W + fst a) = int (snd b * W + fst b)" by (simp add: tag_after_def)
  then have "snd a * W + fst a = snd b * W + fst b" by (simp only: of_nat_eq_iff)
  from grid_index_unique [OF this] a b show "a = b" by (simp add: set_cells prod_eq_iff)
qed

lemma demo_surfaces_holds: "holds demo_surfaces 2 2 (\<lambda>c. demo_surface_id (fst c) (snd c))"
  by (simp add: holds_def demo_surfaces_def)

lemma demo_surfaces_inj: "inj_on (\<lambda>c. demo_surface_id (fst c) (snd c)) (set (cells 2 2))"
  using inj_on_grid_tag [of 0 2 2] by (simp add: tag_after_def demo_surface_id_def)

lemma demo_unnamed_facts:
  "self_materials (mesh demo_unnamed_world) = Some [[1, 2], [2, 1]]"
  "self_nx (mesh demo_unnamed_world) = int 2" "self_ny (mesh demo_unnamed_world) = int 2"
  "self_surfaces (mesh demo_unnamed_world) = Some demo_surfaces"
  "self_material_names (mesh demo_unnamed_world) = None"
  "geo_physical_groups (gmsh demo_unnamed_world) = []"
  by (simp_all add: demo_unnamed_world_def demo_world_def demo_mesh_def init_def fresh_kernel_def)

lemma demo_resolve_mesh:
  "self_materials (mesh demo_resolve_world) = Some [[1, 2], [2, 1]]"
  "self_nx (mesh demo_resolve_world) = int 2" "self_ny (mesh demo_resolve_world) = int 2"
  "self_material_names (mesh demo_resolve_world) = Some [''F1'', ''F2'']"
  "geo_physical_groups (gmsh demo_resolve_world) = []"
  by (simp_all add: demo_resolve_world_def demo_world_def demo_mesh_def init_def fresh_kernel_def)

lemma str_nat_digit: "n < 10 \<Longrightarrow> str_nat n = [digit_char n]"
  by (subst str_nat.simps) simp

lemma str_nat_step: "10 \<le> n \<Longrightarrow> str_nat n = str_nat (n div 10) @ [digit_char (n mod 10)]"
  by (subst str_nat.simps) simp

lemma default_names_2: "effective_names [[1, 2], [2, 1]] None = [''0'', ''1'']"
  by (simp add: effective_names_def py_str_def str_nat_digit digit_char_def upt_rec)

lemma demo_matrix_ok:
  "length [[1, 2], [2, 1 :: int]] = 2"
  "\<forall>row\<in>set [[1, 2], [2, 1 :: int]]. length row = 2"
  "\<forall>row\<in>set [[1, 2], [2, 1 :: int]]. \<forall>v\<in>set row. 1 \<le> v \<and> v \<le> int 2"
  by simp_all

lemma row_world_facts:
  "self_materials (mesh row_world) = Some [[1, 2]]"
  "self_nx (mesh row_world) = int 2" "self_ny (mesh row_world) = int 1"
  "self_surfaces (mesh row_world) = Some row_surfaces"
  "self_material_names (mesh row_world) = None"
  by (simp_all add: row_world_def init_def)

lemma row_named_facts:
  "self_materials (mesh row_named_world) = Some [[1, 2]]"
  "self_nx (mesh row_named_world) = int 2" "self_ny (mesh row_named_world) = int 1"
  "self_surfaces (mesh row_named_world) = Some row_surfaces"
  "self_material_names (mesh row_named_world) = Some [''A'', ''B'']"
  by (simp_all add: row_named_world_def row_world_def init_def)

lemma row_surfaces_holds: "holds row_surfaces 2 1 (\<lambda>c. 1 + int (fst c))"
  by (simp add: holds_def row_surfaces_def)

lemma default_names_1: "effective_names [[1, 2]] None = [''0'']"
  by (simp add: effective_names_def py_str_def str_nat_digit digit_char_def)

lemma no_runtime_error_bind:
  "no_runtime_error m \<Longrightarrow> (\<And>v. no_runtime_error (f v)) \<Longrightarrow> no_runtime_error (py_bind m f)"
  unfolding no_runtime_error_def py_bind_def
proof (intro allI)
  fix w
  assume m: "\<forall>w. fst (m w) \<noteq> Inl RuntimeError" and f: "\<And>v. \<forall>w. fst (f v w) \<noteq> Inl RuntimeError"
  show "fst (case m w of (Inl e, w') \<Rightarrow> (Inl e, w') | (Inr v, w') \<Rightarrow> f v w') \<noteq> Inl RuntimeError"
    using m [rule_format, of w] f by (cases "m w"; cases "fst (m w)") auto
qed

lemma no_runtime_error_for_each:
  assumes "\<And>a. no_runtime_error (body a)"
  shows "no_runtime_error (for_each xs body)"
  unfolding no_runtime_error_def
proof
  fix w show "fst (for_each xs body w) \<noteq> Inl RuntimeError"
  proof (induction xs arbitrary: w)
    case Nil
    then show ?case by simp
  next
    case (Cons a xs)
    have "fst (body a w) \<noteq> Inl RuntimeError" using assms by (simp add: no_runtime_error_def)
    then show ?case using Cons by (cases "body a w"; cases "fst (body a w)") auto
  qed
qed

lemma no_runtime_error_basic:
  "no_runtime_error (field f)" "no_runtime_error (attr g)" "no_runtime_error (py_return v)"
  "no_runtime_error (modify_mesh h)" "no_runtime_error (py_raise TypeError)"
  "no_runtime_error (addPhysicalGroup d tags tag name)"
  by (auto simp: no_runtime_error_def field_def attr_def py_return_def modify_mesh_def py_raise_def
      addPhysicalGroup_def Let_def split: option.splits)

lemma norm_index_error: "norm_index n i \<noteq> Inl RuntimeError"
  by (simp add: norm_index_def)

lemma no_runtime_error_lift:
  "no_runtime_error (py_lift (getitem xs i))"
  "no_runtime_error (py_lift (setitem xs i v))"
  "no_runtime_error (py_lift (getitem2 a j k))"
  "no_runtime_error (py_lift (getitem_matrix M r c))"
  using norm_index_error
  by (auto simp: no_runtime_error_def py_lift_def getitem_def setitem_def getitem2_def
      getitem_matrix_def split: sum.splits option.splits)

lemma no_runtime_error_groups_body: "no_runtime_error (groups_body iy ix)"
  unfolding groups_body_def
  by (intro no_runtime_error_bind no_runtime_error_basic no_runtime_error_lift)
     (auto simp: no_runtime_error_basic split: option.splits)

lemma no_runtime_error_classify: "no_runtime_error classify_cells"
  unfolding classify_cells_def
  by (intro no_runtime_error_bind no_runtime_error_for_each no_runtime_error_basic
      no_runtime_error_groups_body)

lemma no_runtime_error_register: "no_runtime_error register_groups"
  unfolding register_groups_def
  by (intro no_runtime_error_bind no_runtime_error_for_each no_runtime_error_basic)
     (auto simp: no_runtime_error_basic split: prod.splits)

lemma runtime_error_iff_matrix_absent:
  "fst (generate_physical_groups w) = Inl RuntimeError \<longleftrightarrow> self_materials (mesh w) = None"
proof (cases "self_materials (mesh w)")
  case None
  then show ?thesis by (simp add: generate_physical_groups_absent)
next
  case (Some M)
  have "no_runtime_error (py_bind classify_cells (\<lambda>u. register_groups))"
    by (intro no_runtime_error_bind no_runtime_error_classify no_runtime_error_register)
  then show ?thesis
    using generate_physical_groups_prelude [OF Some, of "\<lambda>c. 0" "\<lambda>c. Inr 0"] Some
    by (simp add: no_runtime_error_def)
qed

section \<open>The exported table\<close>

lemma fold_append_pairs:
  "fold (\<lambda>entity a. a @ [(entity, g)]) es acc = acc @ map (\<lambda>e. (e, g)) es"
  by (induction es arbitrary: acc) simp_all

lemma flatten_groups_eq:
  "flatten_groups xs acc =
     acc @ concat (map (\<lambda>p. map (\<lambda>e. (e, int (fst p))) (entities (snd p))) xs)"
  by (induction xs acc rule: flatten_groups.induct) (simp_all add: fold_append_pairs)

lemma fold_append_lines:
  "fold (\<lambda>p out. out @ assembly_line p) ps acc = acc @ concat (map assembly_line ps)"
  by (induction ps arbitrary: acc) simp_all

lemma export_closed:
  "self_physical_groups (mesh w) = Some gs \<Longrightarrow>
   export_assembly_materials w =
     (Inr (concat (map assembly_line (sort_key fst (group_pairs gs)))), w)"
  by (simp add: export_assembly_materials_def py_bind_def attr_def py_return_def
      flatten_groups_eq fold_append_lines group_pairs_def)

lemma demo_groups_facts:
  "self_physical_groups (mesh demo_groups_world) =
     Some [\<lparr>material_name = ''F1'', entities = [2, 3]\<rparr>, \<lparr>material_name = ''F2'', entities = [1, 4]\<rparr>]"
  by (simp add: demo_groups_world_def)

lemma demo_group_pairs:
  "sort_key fst (group_pairs [\<lparr>material_name = ''F1'', entities = [2, 3]\<rparr>,
      \<lparr>material_name = ''F2'', entities = [1, 4]\<rparr>]) = [(1, 1), (2, 0), (3, 0), (4, 1)]"
  by (simp add: group_pairs_def)

lemma replicate_4: "replicate 4 c = [c, c, c, c]"
  by (simp add: eval_nat_numeral)

lemma demo_lines:
  "assembly_line (1, 1) = ''1     2'' @ [CHR 0x0A]"
  "assembly_line (2, 0) = ''2     1'' @ [CHR 0x0A]"
  "assembly_line (3, 0) = ''3     1'' @ [CHR 0x0A]"
  "assembly_line (4, 1) = ''4     2'' @ [CHR 0x0A]"
  "assembly_line (12345, 11) = ''12345 12'' @ [CHR 0x0A]"
  "assembly_line (123456, 0) = ''123456 1'' @ [CHR 0x0A]"
  by (simp_all add: assembly_line_def py_format_ljust_def py_str_def str_nat_digit str_nat_step
      digit_char_def replicate_4)

text \<open>
  Claim C10. A call of \<open>greater\<close>, \<open>less\<close> or \<open>equal\<close> that is handed a selection works
  on that very list object: the entry of the chosen axis is replaced by its sublist of
  the indices that pass the filter (\<open>\<ge> bound\<close>, \<open>\<le> bound\<close>, \<open>= bound\<close>), every other
  entry of the list and every other object stay as they were, and the reference returned
  is the one that was passed in, not a copy.
\<close>

theorem filters_mutate_in_place:
  assumes "norm_index (length (heap w r)) dimn = Inr d"
  shows "greater dimn bound (Some r) w =
           (Inr r, w\<lparr>heap := (heap w)(r := (heap w r)[d := filter (\<lambda>i. bound \<le> i) (heap w r ! d)])\<rparr>)
       \<and> less dimn bound (Some r) w =
           (Inr r, w\<lparr>heap := (heap w)(r := (heap w r)[d := filter (\<lambda>i. i \<le> bound) (heap w r ! d)])\<rparr>)
       \<and> equal dimn bound (Some r) w =
           (Inr r, w\<lparr>heap := (heap w)(r := (heap w r)[d := filter (\<lambda>i. i = bound) (heap w r ! d)])\<rparr>)"
  using assms by (simp add: greater_Some less_Some equal_Some)

theorem filters_mutate_in_place_witness:
  "norm_index (length (heap demo_selection_world 0)) 1 = Inr 1
   \<and> fst (greater 1 1 (Some 0) demo_selection_world) = Inr 0
   \<and> heap (snd (greater 1 1 (Some 0) demo_selection_world)) 0 = [[0, 1], [1]]
   \<and> fst (less 1 0 (Some 0) demo_selection_world) = Inr 0
   \<and> heap (snd (less 1 0 (Some 0) demo_selection_world)) 0 = [[0, 1], [0]]
   \<and> fst (equal 1 1 (Some 0) demo_selection_world) = Inr 0
   \<and> heap (snd (equal 1 1 (Some 0) demo_selection_world)) 0 = [[0, 1], [1]]"
proof -
  have h: "norm_index (length (heap demo_selection_world 0)) 1 = Inr 1"
    by (simp add: demo_selection_heap norm_index_def)
  show ?thesis
    using h filters_mutate_in_place [OF h, of 1] filters_mutate_in_place [OF h, of 0]
    by (simp add: demo_selection_heap)
qed

text \<open>
  Claim C5, as amended. For an axis \<open>d\<close> in \<open>{0, 1}\<close> and any bound \<open>b\<close>, the call
  \<^verbatim>\<open>join(greater(d, b), less(d, b - 1))\<close> in which each filter builds its own default
  selection, or is handed its own list object holding the full index ranges, returns a
  selection whose two entries are the full ranges \<open>[0..nx)\<close> and \<open>[0..ny)\<close>.
\<close>

theorem partition_law_separate_selections:
  assumes "dimn = 0 \<or> dimn = 1"
  shows "(\<exists>r w'. partition_call dimn b None None w = (Inr r, w')
            \<and> heap w' r = [np_arange (self_nx (mesh w)), np_arange (self_ny (mesh w))])
       \<and> (r1 \<noteq> r2
            \<and> heap w r1 = [np_arange (self_nx (mesh w)), np_arange (self_ny (mesh w))]
            \<and> heap w r2 = [np_arange (self_nx (mesh w)), np_arange (self_ny (mesh w))]
          \<longrightarrow> (\<exists>r w'. partition_call dimn b (Some r1) (Some r2) w = (Inr r, w')
                \<and> heap w' r = [np_arange (self_nx (mesh w)), np_arange (self_ny (mesh w))]))"
  using assms partition_default0 [of b w] partition_default1 [of b w]
    partition_separate0 [of r1 r2 w "self_nx (mesh w)" "self_ny (mesh w)" b]
    partition_separate1 [of r1 r2 w "self_nx (mesh w)" "self_ny (mesh w)" b]
  by metis

theorem partition_law_separate_selections_witness:
  "((1::int) = 0 \<or> (1::int) = 1)
   \<and> (\<exists>r w'. partition_call 1 1 None None demo_two_selections_world = (Inr r, w')
         \<and> heap w' r = [[0, 1], [0, 1]])
   \<and> (0::nat) \<noteq> 1
   \<and> heap demo_two_selections_world 0 = [[0, 1], [0, 1]]
   \<and> heap demo_two_selections_world 1 = [[0, 1], [0, 1]]
   \<and> (\<exists>r w'. partition_call 1 1 (Some 0) (Some 1) demo_two_selections_world = (Inr r, w')
         \<and> heap w' r = [[0, 1], [0, 1]])"
  using partition_law_separate_selections [of 1 1 demo_two_selections_world 0 1]
  by (simp add: demo_two_selections_world_def demo_world_def demo_mesh_def init_def np_arange_2)

text \<open>
  Handing one and the same list object to both filters gives something else: \<open>greater\<close>
  has already cut the object down when \<open>less\<close> filters it, both results are that one
  object, and the joined entry of the axis is empty.
\<close>

theorem partition_law_shared_selection_counterexample:
  "heap demo_selection_world 0 =
     [np_arange (self_nx (mesh demo_selection_world)), np_arange (self_ny (mesh demo_selection_world))]
   \<and> fst (partition_call 0 1 (Some 0) (Some 0) demo_selection_world) = Inr 1
   \<and> heap (snd (partition_call 0 1 (Some 0) (Some 0) demo_selection_world)) 1 = [[], [0, 1]]"
proof -
  have g: "greater 0 1 (Some 0) demo_selection_world =
      (Inr 0, demo_selection_world\<lparr>heap := (heap demo_selection_world)(0 := [[1], [0, 1]])\<rparr>)"
    using greater_axis0 [OF demo_selection_heap, of 1] by simp
  have l: "less 0 0 (Some 0) (demo_selection_world\<lparr>heap := (heap demo_selection_world)(0 := [[1], [0, 1]])\<rparr>) =
      (Inr 0, demo_selection_world\<lparr>heap := (heap demo_selection_world)(0 := [[], [0, 1]])\<rparr>)"
    using less_axis0 [of "demo_selection_world\<lparr>heap := (heap demo_selection_world)(0 := [[1], [0, 1]])\<rparr>" 0 "[1]" "[0, 1]" 0]
    by simp
  have n: "heap_next demo_selection_world = 1" by (simp add: demo_selection_world_def)
  have s: "sort (np_unique ([] :: int list)) = []" "sort (np_unique ([0, 1, 0, 1] :: int list)) = [0, 1]"
    by code_simp+
  show ?thesis
    by (simp add: demo_selection_heap demo_selection_mesh np_arange_2 partition_call_def
          py_bind_def g l join_value n s)
qed

text \<open>
  Claim C3. \<open>resolve\<close> pairs the two index arrays of a selection by position, with
  broadcasting, and reads one surface id per pair: arrays of equal length are zipped
  (no cartesian product), an array of length one is repeated along the other, and any
  other combination of lengths is an error. In particular \<open>selX = [c]\<close> with
  \<open>selY = [a..b]\<close> gives the ids of the surfaces \<open>(c, i)\<close> for \<open>i\<close> from \<open>a\<close> to \<open>b\<close>, in
  that order. Here \<open>sid i j\<close> is the id stored for the cell \<open>(i, j)\<close> and the indices lie
  within the grid.
\<close>

theorem resolve_pairs_positionally:
  assumes sf: "self_surfaces (mesh w) = Some sf"
    and co: "heap w coord = selX # selY # rest"
    and cells: "\<forall>i<shape0 sf. \<forall>j<shape1 sf. item sf (i, j) = Some (sid i j)"
    and rx: "\<forall>i\<in>set selX. 0 \<le> i \<and> i < int (shape0 sf)"
    and ry: "\<forall>j\<in>set selY. 0 \<le> j \<and> j < int (shape1 sf)"
  shows "(length selX = length selY \<longrightarrow>
            resolve coord w = (Inr (map (\<lambda>(i, j). sid (nat i) (nat j)) (zip selX selY)), w))
       \<and> (length selX = 1 \<longrightarrow>
            resolve coord w = (Inr (map (\<lambda>j. sid (nat (hd selX)) (nat j)) selY), w))
       \<and> (length selY = 1 \<longrightarrow>
            resolve coord w = (Inr (map (\<lambda>i. sid (nat i) (nat (hd selY))) selX), w))
       \<and> (length selX \<noteq> length selY \<and> length selX \<noteq> 1 \<and> length selY \<noteq> 1 \<longrightarrow>
            resolve coord w = (Inl IndexError, w))
       \<and> (selX = [c] \<and> selY = [a..b] \<longrightarrow>
            resolve coord w = (Inr (map (\<lambda>i. sid (nat c) (nat i)) [a..b]), w))"
proof -
  note un = resolve_unfold [OF sf co]
  have eq: "resolve coord w = (Inr (map (\<lambda>(i, j). sid (nat i) (nat j)) (zip selX selY)), w)"
    if "length selX = length selY"
  proof -
    have "\<forall>p\<in>set (zip selX selY). 0 \<le> fst p \<and> fst p < int (shape0 sf) \<and> 0 \<le> snd p \<and> snd p < int (shape1 sf)"
      using rx ry by (auto dest: set_zip_leftD set_zip_rightD)
    then show ?thesis
      using that by (simp add: un fancy_index_def broadcast_equal collect_cells [OF cells])
  qed
  have left: "resolve coord w = (Inr (map (\<lambda>j. sid (nat (hd selX)) (nat j)) selY), w)"
    if "length selX = 1"
  proof -
    from that obtain x where x: "selX = [x]" by (cases selX) auto
    have "\<forall>p\<in>set (map (\<lambda>j. (hd selX, j)) selY). 0 \<le> fst p \<and> fst p < int (shape0 sf) \<and> 0 \<le> snd p \<and> snd p < int (shape1 sf)"
      using rx ry x by auto
    from collect_cells [OF cells this] show ?thesis
      using that by (simp add: un fancy_index_def broadcast_left_one comp_def)
  qed
  have right: "resolve coord w = (Inr (map (\<lambda>i. sid (nat i) (nat (hd selY))) selX), w)"
    if "length selY = 1"
  proof -
    from that obtain y where y: "selY = [y]" by (cases selY) auto
    have "\<forall>p\<in>set (map (\<lambda>i. (i, hd selY)) selX). 0 \<le> fst p \<and> fst p < int (shape0 sf) \<and> 0 \<le> snd p \<and> snd p < int (shape1 sf)"
      using rx ry y by auto
    from collect_cells [OF cells this] show ?thesis
      using that by (simp add: un fancy_index_def broadcast_right_one comp_def)
  qed
  have mis: "resolve coord w = (Inl IndexError, w)"
    if "length selX \<noteq> length selY" "length selX \<noteq> 1" "length selY \<noteq> 1"
    using that by (simp add: un broadcast_mismatch)
  have line: "resolve coord w = (Inr (map (\<lambda>i. sid (nat c) (nat i)) [a..b]), w)"
    if "selX = [c]" "selY = [a..b]"
    using left that by simp
  show ?thesis using eq left right mis line by blast
qed

theorem resolve_pairs_positionally_witness:
  "self_surfaces (mesh demo_resolve_world) = Some demo_surfaces
   \<and> heap demo_resolve_world 0 = [[1], [0..1]]
   \<and> set [1::int] \<subseteq> {0..<int (shape0 demo_surfaces)}
   \<and> set [0, 1::int] \<subseteq> {0..<int (shape1 demo_surfaces)}
   \<and> resolve 0 demo_resolve_world = (Inr [2, 4], demo_resolve_world)
   \<and> resolve 2 demo_resolve_world = (Inr [1, 4], demo_resolve_world)
   \<and> resolve 1 demo_resolve_world = (Inl IndexError, demo_resolve_world)"
  using
    resolve_pairs_positionally [OF demo_resolve_facts(1) demo_resolve_facts(2) demo_surfaces_cells,
      of 1 0 1]
    resolve_pairs_positionally [OF demo_resolve_facts(1) demo_resolve_facts(4) demo_surfaces_cells,
      of 1 0 1]
    resolve_pairs_positionally [OF demo_resolve_facts(1) demo_resolve_facts(3) demo_surfaces_cells,
      of 1 0 1]
  by (simp add: demo_resolve_facts demo_surface_id_def upto_0_1)

text \<open>
  Claim C9, as amended. On an axis whose indices lie in \<open>[0, n)\<close>, \<open>greater\<close> with a bound
  of \<open>n\<close> or more, \<open>less\<close> with a bound below \<open>0\<close>, and \<open>equal\<close> with any bound outside
  \<open>[0, n)\<close> leave the empty index set on that axis; \<open>greater\<close> with a bound of \<open>0\<close> or
  less and \<open>less\<close> with a bound of \<open>n - 1\<close> or more keep every index; none of them is an
  error. \<open>resolve\<close> on two index arrays of unequal lengths, both longer than one, raises
  \<open>IndexError\<close> and leaves the whole state as it was.
\<close>

theorem out_of_range_bounds:
  assumes ax: "norm_index (length (heap w r)) dimn = Inr d"
    and rng: "\<forall>i \<in> set (heap w r ! d). 0 \<le> i \<and> i < n"
  shows "(n \<le> bound \<longrightarrow>
            greater dimn bound (Some r) w = (Inr r, w\<lparr>heap := (heap w)(r := (heap w r)[d := []])\<rparr>))
       \<and> (bound < 0 \<longrightarrow>
            less dimn bound (Some r) w = (Inr r, w\<lparr>heap := (heap w)(r := (heap w r)[d := []])\<rparr>))
       \<and> (bound < 0 \<or> n \<le> bound \<longrightarrow>
            equal dimn bound (Some r) w = (Inr r, w\<lparr>heap := (heap w)(r := (heap w r)[d := []])\<rparr>))
       \<and> (bound \<le> 0 \<longrightarrow> greater dimn bound (Some r) w = (Inr r, w))
       \<and> (n - 1 \<le> bound \<longrightarrow> less dimn bound (Some r) w = (Inr r, w))
       \<and> (self_surfaces (mesh w) = Some sf \<and> heap w coord = c0 # c1 # rest
            \<and> 1 < length c0 \<and> 1 < length c1 \<and> length c0 \<noteq> length c1
          \<longrightarrow> resolve coord w = (Inl IndexError, w))"
proof -
  have g: "n \<le> bound \<Longrightarrow> filter (\<lambda>i. bound \<le> i) (heap w r ! d) = []"
    using rng by (intro filter_none) auto
  have l: "bound < 0 \<Longrightarrow> filter (\<lambda>i. i \<le> bound) (heap w r ! d) = []"
    using rng by (intro filter_none) auto
  have e: "bound < 0 \<or> n \<le> bound \<Longrightarrow> filter (\<lambda>i. i = bound) (heap w r ! d) = []"
    using rng by (intro filter_none) auto
  have g': "bound \<le> 0 \<Longrightarrow> filter (\<lambda>i. bound \<le> i) (heap w r ! d) = heap w r ! d"
    using rng by (intro filter_all) auto
  have l': "n - 1 \<le> bound \<Longrightarrow> filter (\<lambda>i. i \<le> bound) (heap w r ! d) = heap w r ! d"
    using rng by (intro filter_all) auto
  show ?thesis
    using resolve_mismatch [of w sf coord c0 c1 rest]
    by (auto simp: greater_Some [OF ax] less_Some [OF ax] equal_Some [OF ax] g l e g' l')
qed

theorem out_of_range_bounds_witness:
  "norm_index (length (heap demo_resolve_world 2)) 0 = Inr 0
   \<and> set (heap demo_resolve_world 2 ! 0) \<subseteq> {0..<2}
   \<and> fst (greater 0 2 (Some 2) demo_resolve_world) = Inr 2
   \<and> heap (snd (greater 0 2 (Some 2) demo_resolve_world)) 2 = [[], [0, 1]]
   \<and> heap (snd (less 0 (- 1) (Some 2) demo_resolve_world)) 2 = [[], [0, 1]]
   \<and> heap (snd (equal 0 5 (Some 2) demo_resolve_world)) 2 = [[], [0, 1]]
   \<and> greater 0 (- 3) (Some 2) demo_resolve_world = (Inr 2, demo_resolve_world)
   \<and> less 0 7 (Some 2) demo_resolve_world = (Inr 2, demo_resolve_world)
   \<and> resolve 1 demo_resolve_world = (Inl IndexError, demo_resolve_world)"
proof -
  have ax: "norm_index (length (heap demo_resolve_world 2)) 0 = Inr 0"
    by (simp add: demo_resolve_facts norm_index_def)
  have rng: "\<forall>i \<in> set (heap demo_resolve_world 2 ! 0). 0 \<le> i \<and> i < 2"
    by (simp add: demo_resolve_facts)
  show ?thesis
    using ax
      out_of_range_bounds [OF ax rng, of 2 demo_surfaces 1 "[0, 1, 0]" "[0, 1]" "[]"]
      out_of_range_bounds [OF ax rng, of "- 1" demo_surfaces 1 "[0, 1, 0]" "[0, 1]" "[]"]
      out_of_range_bounds [OF ax rng, of 5 demo_surfaces 1 "[0, 1, 0]" "[0, 1]" "[]"]
      out_of_range_bounds [OF ax rng, of "- 3" demo_surfaces 1 "[0, 1, 0]" "[0, 1]" "[]"]
      out_of_range_bounds [OF ax rng, of 7 demo_surfaces 1 "[0, 1, 0]" "[0, 1]" "[]"]
    by (simp add: demo_resolve_facts)
qed

text \<open>
  A bound outside the range does not always empty the axis: \<open>greater\<close> with the bound
  \<open>-1\<close>, and \<open>less\<close> with the bound \<open>2\<close> on a grid of two columns, keep both indices.
\<close>

theorem out_of_range_bounds_counterexample:
  "self_nx (mesh demo_world) = 2
   \<and> fst (greater 0 (- 1) None demo_world) = Inr 0
   \<and> heap (snd (greater 0 (- 1) None demo_world)) 0 ! 0 = [0, 1]
   \<and> fst (less 0 2 None demo_world) = Inr 0
   \<and> heap (snd (less 0 2 None demo_world)) 0 ! 0 = [0, 1]"
proof -
  have d: "heap (with_default demo_world) 0 = [[0, 1], [0, 1]]" "heap_next demo_world = 0"
    by (simp_all add: with_default_def demo_world_def demo_mesh_def init_def np_arange_2)
  show ?thesis
    using greater_axis0 [OF d(1), of "- 1"] less_axis0 [OF d(1), of 2]
    by (simp add: greater_None less_None d(2))
       (simp add: demo_world_def demo_mesh_def init_def)
qed

text \<open>
  Claim C1. On a grid of \<open>nx\<close> by \<open>ny\<close> cells with its mesh size set, once
  \<open>generate_nodes\<close> and \<open>generate_lines\<close> have run, the kernel holds for every cell
  \<open>(ix, iy)\<close> the four lines its tables name: \<open>right = liney[ix+1, iy]\<close> and
  \<open>left = liney[ix, iy]\<close> run upwards, \<open>top = linex[ix, iy+1]\<close> and
  \<open>bottom = linex[ix, iy]\<close> run to the right, between the corner nodes of the cell.
  \<open>generate_surfaces\<close> then succeeds, the kernel accepting every loop and surface, and
  for the cell it hands the kernel one curve loop made of the four signed line ids
  \<open>[+right, -top, -left, +bottom]\<close> in this order, stores the loop's id in
  \<open>curves[ix, iy]\<close>, and then one plane surface bounded by that loop alone, whose id it
  stores in \<open>surfaces[ix, iy]\<close>. Walked in this order and with these signs the four
  lines go up the right side, back along the top, down the left side and along the
  bottom, each ending at the corner where the next starts. The loops and the surfaces
  are \<open>nx * ny\<close> each, with pairwise different ids.
\<close>

theorem generate_surfaces_cell_loops:
  assumes nx: "self_nx (mesh w) = int nx" and ny: "self_ny (mesh w) = int ny"
    and x: "length (self_x (mesh w)) = nx + 1" and y: "length (self_y (mesh w)) = ny + 1"
    and h: "self_mesh_size (mesh w) = Some h"
    and ix: "ix < nx" and iy: "iy < ny"
  shows "\<exists>w1 w' nd lxa lya n00 n10 n01 n11 right top left bottom cv sf c s loops surfs.
           py_bind generate_nodes (\<lambda>u. generate_lines) w = (Inr (), w1)
         \<and> self_nodes (mesh w1) = Some nd
         \<and> item nd (ix, iy) = Some n00 \<and> item nd (Suc ix, iy) = Some n10
         \<and> item nd (ix, Suc iy) = Some n01 \<and> item nd (Suc ix, Suc iy) = Some n11
         \<and> self_linex (mesh w1) = Some lxa \<and> self_liney (mesh w1) = Some lya
         \<and> item lya (Suc ix, iy) = Some right \<and> 0 < right
         \<and> lookup (geo_lines (gmsh w1)) right = Some (n10, n11)
         \<and> item lxa (ix, Suc iy) = Some top \<and> 0 < top
         \<and> lookup (geo_lines (gmsh w1)) top = Some (n01, n11)
         \<and> item lya (ix, iy) = Some left \<and> 0 < left
         \<and> lookup (geo_lines (gmsh w1)) left = Some (n00, n01)
         \<and> item lxa (ix, iy) = Some bottom \<and> 0 < bottom
         \<and> lookup (geo_lines (gmsh w1)) bottom = Some (n00, n10)
         \<and> loop_ends (geo_lines (gmsh w1)) [right, - top, - left, bottom]
             = Some [(n10, n11), (n11, n01), (n01, n00), (n00, n10)]
         \<and> generate_surfaces w1 = (Inr (), w')
         \<and> self_curves (mesh w') = Some cv \<and> item cv (ix, iy) = Some c
         \<and> self_surfaces (mesh w') = Some sf \<and> item sf (ix, iy) = Some s
         \<and> geo_curve_loops (gmsh w') = geo_curve_loops (gmsh w1) @ loops
         \<and> length loops = nx * ny \<and> distinct (map fst loops)
         \<and> loops ! (iy * nx + ix) = (c, [right, - top, - left, bottom])
         \<and> geo_plane_surfaces (gmsh w') = geo_plane_surfaces (gmsh w1) @ surfs
         \<and> length surfs = nx * ny \<and> distinct (map fst surfs)
         \<and> surfs ! (iy * nx + ix) = (s, [c])"
proof -
  let ?w1 = "liney_done w nx ny h"
  let ?nid = "node_tag w (Suc nx)"
  let ?ex = "linex_tag (nodes_done w nx ny h) nx"
  let ?ey = "liney_tag (linex_done w nx ny h) ny"
  let ?loops = "map (\<lambda>c. (loop_tag ?w1 nx c, cell_loop ?ex ?ey c)) (cells nx ny)"
  let ?surfs = "map (\<lambda>c. (surface_tag ?w1 nx c, [loop_tag ?w1 nx c])) (cells nx ny)"
  have run: "py_bind generate_nodes (\<lambda>u. generate_lines) w = (Inr (), ?w1)"
    using x y by (intro nodes_lines_closed [OF nx ny _ _ h]) simp_all
  note g = liney_done_holds_grid [of w nx ny h]
  have nx1: "self_nx (mesh ?w1) = int nx" and ny1: "self_ny (mesh ?w1) = int ny"
    by (simp_all add: liney_done_fields nx ny)
  note r = generate_surfaces_result
    [OF nx1 ny1 liney_done_fields(4) holds_filled liney_done_fields(5) holds_filled_cols g]
  have nd: "item (filled (Suc nx) (Suc ny) (Suc ny) 0 ?nid) (ix, iy) = Some (?nid (ix, iy))"
      "item (filled (Suc nx) (Suc ny) (Suc ny) 0 ?nid) (Suc ix, iy) = Some (?nid (Suc ix, iy))"
      "item (filled (Suc nx) (Suc ny) (Suc ny) 0 ?nid) (ix, Suc iy) = Some (?nid (ix, Suc iy))"
      "item (filled (Suc nx) (Suc ny) (Suc ny) 0 ?nid) (Suc ix, Suc iy) = Some (?nid (Suc ix, Suc iy))"
    using ix iy by (simp_all add: filled_def)
  have tx: "item (filled nx (Suc ny) (Suc ny) 0 ?ex) (ix, Suc iy) = Some (?ex (ix, Suc iy))"
      "item (filled nx (Suc ny) (Suc ny) 0 ?ex) (ix, iy) = Some (?ex (ix, iy))"
    using ix iy by (simp_all add: filled_def)
  have ty: "item (filled_cols (Suc nx) ny (Suc nx) 0 ?ey) (Suc ix, iy) = Some (?ey (Suc ix, iy))"
      "item (filled_cols (Suc nx) ny (Suc nx) 0 ?ey) (ix, iy) = Some (?ey (ix, iy))"
    using ix iy by (simp_all add: filled_cols_def)
  have right: "0 < ?ey (Suc ix, iy)"
      "lookup (geo_lines (gmsh ?w1)) (?ey (Suc ix, iy)) = Some (?nid (Suc ix, iy), ?nid (Suc ix, Suc iy))"
    and top: "0 < ?ex (ix, Suc iy)"
      "lookup (geo_lines (gmsh ?w1)) (?ex (ix, Suc iy)) = Some (?nid (ix, Suc iy), ?nid (Suc ix, Suc iy))"
    and left: "0 < ?ey (ix, iy)"
      "lookup (geo_lines (gmsh ?w1)) (?ey (ix, iy)) = Some (?nid (ix, iy), ?nid (ix, Suc iy))"
    and bottom: "0 < ?ex (ix, iy)"
      "lookup (geo_lines (gmsh ?w1)) (?ex (ix, iy)) = Some (?nid (ix, iy), ?nid (Suc ix, iy))"
    using g ix iy by (simp_all add: grid_in_kernel_def)
  have walk: "loop_ends (geo_lines (gmsh ?w1))
        [?ey (Suc ix, iy), - ?ex (ix, Suc iy), - ?ey (ix, iy), ?ex (ix, iy)]
      = Some [(?nid (Suc ix, iy), ?nid (Suc ix, Suc iy)), (?nid (Suc ix, Suc iy), ?nid (ix, Suc iy)),
              (?nid (ix, Suc iy), ?nid (ix, iy)), (?nid (ix, iy), ?nid (Suc ix, iy))]"
    using cell_loop_ends [OF g ix iy] by (simp add: cell_walk_def)
  have n: "iy * nx + ix < length (cells nx ny)"
    using cells_nth [OF ix iy] ix iy length_cells [of nx ny]
    by (metis add_less_cancel_left add.commute mult.commute less_le_trans mult_Suc_right mult_le_mono2 Suc_leI)
  have c1: "item (filled nx ny ny 0 (loop_tag ?w1 nx)) (ix, iy) = Some (loop_tag ?w1 nx (ix, iy))"
    and c2: "item (filled nx ny ny 0 (surface_tag ?w1 nx)) (ix, iy) = Some (surface_tag ?w1 nx (ix, iy))"
    using ix iy by (simp_all add: filled_def)
  have d1: "distinct (map fst ?loops)" and d2: "distinct (map fst ?surfs)"
    by (simp_all add: comp_def loop_tag_def surface_tag_def tags_of_cells distinct_tags)
  have e1: "?loops ! (iy * nx + ix) =
      (loop_tag ?w1 nx (ix, iy), [?ey (Suc ix, iy), - ?ex (ix, Suc iy), - ?ey (ix, iy), ?ex (ix, iy)])"
    and e2: "?surfs ! (iy * nx + ix) = (surface_tag ?w1 nx (ix, iy), [loop_tag ?w1 nx (ix, iy)])"
    using n by (simp_all add: cells_nth [OF ix iy] cell_loop_def)
  have l: "length ?loops = nx * ny" "length ?surfs = nx * ny"
    by (simp_all add: length_cells mult.commute)
  show ?thesis
    apply (intro exI conjI)
    apply (rule run)
    apply (rule liney_done_fields(3))
    apply (rule nd(1))
    apply (rule nd(2))
    apply (rule nd(3))
    apply (rule nd(4))
    apply (rule liney_done_fields(4))
    apply (rule liney_done_fields(5))
    apply (rule ty(1))
    apply (rule right(1))
    apply (rule right(2))
    apply (rule tx(1))
    apply (rule top(1))
    apply (rule top(2))
    apply (rule ty(2))
    apply (rule left(1))
    apply (rule left(2))
    apply (rule tx(2))
    apply (rule bottom(1))
    apply (rule bottom(2))
    apply (rule walk)
    apply (rule r(1))
    apply (rule r(2))
    apply (rule c1)
    apply (rule r(3))
    apply (rule c2)
    apply (rule r(4))
    apply (rule l(1))
    apply (rule d1)
    apply (rule e1)
    apply (rule r(5))
    apply (rule l(2))
    apply (rule d2)
    apply (rule e2)
    done
qed

theorem generate_surfaces_cell_loops_witness:
  "self_nx (mesh demo_sized_world) = 2 \<and> self_ny (mesh demo_sized_world) = 2
   \<and> length (self_x (mesh demo_sized_world)) = 3 \<and> length (self_y (mesh demo_sized_world)) = 3
   \<and> self_mesh_size (mesh demo_sized_world) = Some 1
   \<and> (1::nat) < 2
   \<and> (\<exists>w1 w' c s cv sf.
        py_bind generate_nodes (\<lambda>u. generate_lines) demo_sized_world = (Inr (), w1)
      \<and> lookup (geo_lines (gmsh w1)) 12 = Some (6, 9)
      \<and> lookup (geo_lines (gmsh w1)) 6 = Some (8, 9)
      \<and> lookup (geo_lines (gmsh w1)) 10 = Some (5, 8)
      \<and> lookup (geo_lines (gmsh w1)) 4 = Some (5, 6)
      \<and> loop_ends (geo_lines (gmsh w1)) [12, - 6, - 10, 4] = Some [(6, 9), (9, 8), (8, 5), (5, 6)]
      \<and> generate_surfaces w1 = (Inr (), w')
      \<and> geo_curve_loops (gmsh w') ! 3 = (c, [12, - 6, - 10, 4])
      \<and> geo_plane_surfaces (gmsh w') ! 3 = (s, [c])
      \<and> self_curves (mesh w') = Some cv \<and> item cv (1, 1) = Some c
      \<and> self_surfaces (mesh w') = Some sf \<and> item sf (1, 1) = Some s)"
proof -
  have one: "(1::nat) < 2" by simp
  from generate_surfaces_cell_loops [OF demo_sized_facts(1-5) one one]
  obtain w1 w' nd lxa lya n00 n10 n01 n11 right top left bottom cv sf c s loops surfs where
    r: "py_bind generate_nodes (\<lambda>u. generate_lines) demo_sized_world = (Inr (), w1)"
      "self_nodes (mesh w1) = Some nd"
      "item nd (1, 1) = Some n00" "item nd (Suc 1, 1) = Some n10"
      "item nd (1, Suc 1) = Some n01" "item nd (Suc 1, Suc 1) = Some n11"
      "self_linex (mesh w1) = Some lxa" "self_liney (mesh w1) = Some lya"
      "item lya (Suc 1, 1) = Some right" "lookup (geo_lines (gmsh w1)) right = Some (n10, n11)"
      "item lxa (1, Suc 1) = Some top" "lookup (geo_lines (gmsh w1)) top = Some (n01, n11)"
      "item lya (1, 1) = Some left" "lookup (geo_lines (gmsh w1)) left = Some (n00, n01)"
      "item lxa (1, 1) = Some bottom" "lookup (geo_lines (gmsh w1)) bottom = Some (n00, n10)"
      "loop_ends (geo_lines (gmsh w1)) [right, - top, - left, bottom]
         = Some [(n10, n11), (n11, n01), (n01, n00), (n00, n10)]"
    and q: "generate_surfaces w1 = (Inr (), w')"
      "self_curves (mesh w') = Some cv" "item cv (1, 1) = Some c"
      "self_surfaces (mesh w') = Some sf" "item sf (1, 1) = Some s"
      "geo_curve_loops (gmsh w') = geo_curve_loops (gmsh w1) @ loops"
      "loops ! (1 * 2 + 1) = (c, [right, - top, - left, bottom])"
      "geo_plane_surfaces (gmsh w') = geo_plane_surfaces (gmsh w1) @ surfs"
      "surfs ! (1 * 2 + 1) = (s, [c])"
    by blast
  have "py_bind generate_nodes (\<lambda>u. generate_lines) demo_sized_world
      = (Inr (), liney_done demo_sized_world 2 2 1)"
    by (rule nodes_lines_closed [OF demo_sized_facts(1,2) _ _ demo_sized_facts(5)])
       (simp_all add: demo_sized_facts)
  with r(1) have w1: "w1 = liney_done demo_sized_world 2 2 1" by simp
  have nd: "nd = filled (Suc 2) (Suc 2) (Suc 2) 0 (node_tag demo_sized_world (Suc 2))"
    and lxa: "lxa = filled 2 (Suc 2) (Suc 2) 0 (linex_tag (nodes_done demo_sized_world 2 2 1) 2)"
    and lya: "lya = filled_cols (Suc 2) 2 (Suc 2) 0 (liney_tag (linex_done demo_sized_world 2 2 1) 2)"
    using r(2,7,8) by (simp_all add: w1 liney_done_fields)
  have n: "n00 = 5" "n10 = 6" "n01 = 8" "n11 = 9"
    using r(3-6) by (simp_all add: nd filled_def node_tag_def tag_after_def demo_sized_counters)
  have e: "right = 12" "top = 6" "left = 10" "bottom = 4"
    using r(9,11,13,15)
    by (simp_all add: lxa lya filled_def filled_cols_def linex_tag_def liney_tag_def tag_after_def
        nodes_done_fields linex_done_fields demo_sized_counters)
  have s: "geo_curve_loops (gmsh w1) = []" "geo_plane_surfaces (gmsh w1) = []"
    by (simp_all add: w1 liney_done_fields demo_sized_counters demo_sized_facts)
  have "geo_curve_loops (gmsh w') ! 3 = (c, [12, - 6, - 10, 4])"
    using q(6,7) by (simp add: s e)
  moreover have "geo_plane_surfaces (gmsh w') ! 3 = (s, [c])"
    using q(8,9) by (simp add: s)
  ultimately show ?thesis
    using r(1,10,12,14,16,17) q(1-5) demo_sized_facts by (simp add: n e)
qed

text \<open>
  Claim C4. On a grid of \<open>nx\<close> by \<open>ny\<close> cells with its mesh size set, \<open>generate_nodes\<close>,
  \<open>generate_lines\<close> and \<open>generate_surfaces\<close> in this order all succeed and create
  exactly \<open>(nx + 1)(ny + 1)\<close> points, \<open>nx(ny + 1) + (nx + 1)ny\<close> lines and \<open>nx * ny\<close> plane
  surfaces, with pairwise different ids within each kind; the node, line and surface
  tables of the object hold exactly these ids, one per grid position.
\<close>

theorem topology_counts_and_unique_ids:
  assumes nx: "self_nx (mesh w) = int nx" and ny: "self_ny (mesh w) = int ny"
    and x: "length (self_x (mesh w)) = nx + 1" and y: "length (self_y (mesh w)) = ny + 1"
    and h: "self_mesh_size (mesh w) = Some h"
  shows "\<exists>w' ps ls ss nd lxa lya sfa.
           build_topology w = (Inr (), w')
         \<and> geo_points (gmsh w') = geo_points (gmsh w) @ ps
         \<and> length ps = (nx + 1) * (ny + 1) \<and> distinct (map fst ps)
         \<and> geo_lines (gmsh w') = geo_lines (gmsh w) @ ls
         \<and> length ls = nx * (ny + 1) + (nx + 1) * ny \<and> distinct (map fst ls)
         \<and> geo_plane_surfaces (gmsh w') = geo_plane_surfaces (gmsh w) @ ss
         \<and> length ss = nx * ny \<and> distinct (map fst ss)
         \<and> self_nodes (mesh w') = Some nd
         \<and> map (item nd) (cells (nx + 1) (ny + 1)) = map (\<lambda>p. Some (fst p)) ps
         \<and> self_linex (mesh w') = Some lxa \<and> self_liney (mesh w') = Some lya
         \<and> map (item lxa) (cells nx (ny + 1)) @ map (item lya) (cols (nx + 1) ny)
             = map (\<lambda>l. Some (fst l)) ls
         \<and> self_surfaces (mesh w') = Some sfa
         \<and> map (item sfa) (cells nx ny) = map (\<lambda>s. Some (fst s)) ss"
proof -
  let ?w' = "topology_done w nx ny h"
  let ?ps = "map (\<lambda>c. (node_tag w (Suc nx) c, self_x (mesh w) ! fst c, self_y (mesh w) ! snd c, 0::real, h))
       (cells (Suc nx) (Suc ny))"
  let ?lsx = "map (\<lambda>c. (linex_tag (nodes_done w nx ny h) nx c, node_tag w (Suc nx) c,
                node_tag w (Suc nx) (Suc (fst c), snd c))) (cells nx (Suc ny))"
  let ?lsy = "map (\<lambda>c. (liney_tag (linex_done w nx ny h) ny c, node_tag w (Suc nx) c,
                node_tag w (Suc nx) (fst c, Suc (snd c)))) (cols (Suc nx) ny)"
  let ?ss = "map (\<lambda>c. (surface_tag (liney_done w nx ny h) nx c, [loop_tag (liney_done w nx ny h) nx c]))
       (cells nx ny)"
  have run: "build_topology w = (Inr (), ?w')"
    using x y by (intro build_topology_closed [OF nx ny _ _ h]) simp_all
  have p1: "geo_points (gmsh ?w') = geo_points (gmsh w) @ ?ps"
    by (simp add: topology_done_fields nodes_done_fields)
  have p2: "length ?ps = (nx + 1) * (ny + 1)" by (simp add: length_cells)
  have p3: "distinct (map fst ?ps)"
    by (simp add: comp_def node_tag_def tags_of_cells distinct_tags del: mult_Suc_right mult_Suc)
  have l1: "geo_lines (gmsh ?w') = geo_lines (gmsh w) @ (?lsx @ ?lsy)"
    by (simp add: topology_done_fields liney_done_fields linex_done_fields)
  have l2: "length (?lsx @ ?lsy) = nx * (ny + 1) + (nx + 1) * ny"
    by (simp add: length_cells length_cols)
  have lt: "map fst (?lsx @ ?lsy) = map (tag_after (max_line (gmsh w))) [0..<Suc ny * nx + Suc nx * ny]"
    using line_tags [of w nx ny h] by (simp add: comp_def)
  have l3: "distinct (map fst (?lsx @ ?lsy))"
    by (simp only: lt distinct_tags)
  have s1: "geo_plane_surfaces (gmsh ?w') = geo_plane_surfaces (gmsh w) @ ?ss"
    by (simp add: topology_done_fields)
  have s2: "length ?ss = nx * ny" by (simp add: length_cells mult.commute)
  have s3: "distinct (map fst ?ss)"
    by (simp add: comp_def surface_tag_def tags_of_cells distinct_tags)
  have t1: "map (item (filled (Suc nx) (Suc ny) (Suc ny) 0 (node_tag w (Suc nx)))) (cells (nx + 1) (ny + 1))
      = map (\<lambda>p. Some (fst p)) ?ps"
    by (simp add: table_of_filled comp_def)
  have t2: "map (item (filled nx (Suc ny) (Suc ny) 0 (linex_tag (nodes_done w nx ny h) nx))) (cells nx (ny + 1))
        @ map (item (filled_cols (Suc nx) ny (Suc nx) 0 (liney_tag (linex_done w nx ny h) ny))) (cols (nx + 1) ny)
      = map (\<lambda>l. Some (fst l)) (?lsx @ ?lsy)"
    by (simp add: table_of_filled table_of_filled_cols comp_def)
  have t3: "map (item (filled nx ny ny 0 (surface_tag (liney_done w nx ny h) nx))) (cells nx ny)
      = map (\<lambda>s. Some (fst s)) ?ss"
    by (simp add: table_of_filled comp_def)
  show ?thesis
    using run p1 p2 p3 l1 l2 l3 s1 s2 s3 topology_done_fields(3) [of w nx ny h] t1
      topology_done_fields(4) [of w nx ny h] topology_done_fields(5) [of w nx ny h] t2
      topology_done_fields(6) [of w nx ny h] t3
    by blast
qed

theorem topology_counts_and_unique_ids_witness:
  "self_nx (mesh demo_sized_world) = 2 \<and> self_ny (mesh demo_sized_world) = 2
   \<and> length (self_x (mesh demo_sized_world)) = 3 \<and> length (self_y (mesh demo_sized_world)) = 3
   \<and> self_mesh_size (mesh demo_sized_world) = Some 1
   \<and> fst (build_topology demo_sized_world) = Inr ()
   \<and> length (geo_points (gmsh (snd (build_topology demo_sized_world)))) = 9
   \<and> distinct (map fst (geo_points (gmsh (snd (build_topology demo_sized_world)))))
   \<and> length (geo_lines (gmsh (snd (build_topology demo_sized_world)))) = 12
   \<and> distinct (map fst (geo_lines (gmsh (snd (build_topology demo_sized_world)))))
   \<and> length (geo_plane_surfaces (gmsh (snd (build_topology demo_sized_world)))) = 4
   \<and> distinct (map fst (geo_plane_surfaces (gmsh (snd (build_topology demo_sized_world)))))"
proof -
  from topology_counts_and_unique_ids [OF demo_sized_facts(1-5)]
  obtain w' ps ls ss where
    r: "build_topology demo_sized_world = (Inr (), w')"
      "geo_points (gmsh w') = geo_points (gmsh demo_sized_world) @ ps"
      "length ps = (2 + 1) * (2 + 1)" "distinct (map fst ps)"
      "geo_lines (gmsh w') = geo_lines (gmsh demo_sized_world) @ ls"
      "length ls = 2 * (2 + 1) + (2 + 1) * 2" "distinct (map fst ls)"
      "geo_plane_surfaces (gmsh w') = geo_plane_surfaces (gmsh demo_sized_world) @ ss"
      "length ss = 2 * 2" "distinct (map fst ss)"
    by blast
  then show ?thesis
    using demo_sized_facts by simp
qed

text \<open>
  Claim C2. For a material matrix \<open>M\<close> of shape \<open>(ny, nx)\<close> with entries in \<open>1..k\<close>, where
  \<open>k\<close> is the number of material names in force, \<open>generate_physical_groups\<close> succeeds
  and group \<open>g\<close> receives, in the order the cells are visited, the surface id of every
  cell \<open>(ix, iy)\<close> with \<open>M[ny - 1 - iy, ix] - 1 = g\<close>: the row index is flipped against
  \<open>iy\<close> and the id is shifted to start at zero. So the entities of group \<open>g\<close> are
  exactly the set of these surface ids.
\<close>

theorem groups_follow_flipped_matrix:
  assumes mat: "self_materials (mesh w) = Some M"
    and nx: "self_nx (mesh w) = int nx" and ny: "self_ny (mesh w) = int ny"
    and sf: "self_surfaces (mesh w) = Some sf" and hs: "holds sf nx ny sid"
    and shape: "length M = ny" "\<forall>row\<in>set M. length row = nx"
    and vals: "\<forall>row\<in>set M. \<forall>v\<in>set row. 1 \<le> v \<and> v \<le> int k"
    and k: "k = length (effective_names M (self_material_names (mesh w)))"
  shows "\<exists>w' gs. generate_physical_groups w = (Inr (), w')
         \<and> self_physical_groups (mesh w') = Some gs \<and> length gs = k
         \<and> (\<forall>g<k. entities (gs ! g) =
               map sid (filter (\<lambda>c. M ! (ny - 1 - snd c) ! fst c - 1 = int g) (cells nx ny)))
         \<and> (\<forall>g<k. set (entities (gs ! g)) =
               {sid (ix, iy) | ix iy. ix < nx \<and> iy < ny \<and> M ! (ny - 1 - iy) ! ix - 1 = int g})"
proof -
  define names where "names = effective_names M (self_material_names (mesh w))"
  have kn: "k = length names" by (simp add: k names_def)
  define f where "f = gid M ny (length names)"
  define gs where "gs = groups_of names sid f (cells nx ny)"
  note gr = gid_in_range [OF shape vals [unfolded kn]]
  have ok: "\<exists>g. gid M ny (length names) c = Inr g" if "c \<in> set (cells nx ny)" for c
    using gr [OF that] by blast
  have run: "generate_physical_groups w = (Inr (), groups_done w M names gs)"
    unfolding gs_def f_def
    by (rule generate_physical_groups_total [OF mat nx ny sf hs names_def ok])
  have fl: "filter (\<lambda>c. f c = Inr g) (cells nx ny)
      = filter (\<lambda>c. M ! (ny - 1 - snd c) ! fst c - 1 = int g) (cells nx ny)" for g
  proof (rule filter_cong [OF refl])
    fix c assume "c \<in> set (cells nx ny)"
    from gr [OF this] have "f c = Inr (nat (M ! (ny - 1 - snd c) ! fst c - 1))"
      and "1 \<le> M ! (ny - 1 - snd c) ! fst c" by (simp_all add: f_def)
    then show "(f c = Inr g) = (M ! (ny - 1 - snd c) ! fst c - 1 = int g)" by auto
  qed
  have e: "entities (gs ! g) = map sid (filter (\<lambda>c. M ! (ny - 1 - snd c) ! fst c - 1 = int g) (cells nx ny))"
    if "g < k" for g
    using that by (simp add: gs_def groups_of_nth kn fl)
  have s: "set (entities (gs ! g)) = {sid (ix, iy) | ix iy. ix < nx \<and> iy < ny \<and> M ! (ny - 1 - iy) ! ix - 1 = int g}"
    if "g < k" for g
    unfolding e [OF that]
    using set_map_filter_cells [of sid "\<lambda>c. M ! (ny - 1 - snd c) ! fst c - 1 = int g" nx ny]
    by simp
  have f1: "self_physical_groups (mesh (groups_done w M names gs)) = Some gs"
    by (simp add: groups_done_fields)
  have f2: "length gs = k" by (simp add: gs_def groups_of_length kn)
  show ?thesis
    using run f1 f2 e s by blast
qed

theorem groups_follow_flipped_matrix_witness:
  "self_materials (mesh demo_resolve_world) = Some [[1, 2], [2, 1]]
   \<and> self_nx (mesh demo_resolve_world) = 2 \<and> self_ny (mesh demo_resolve_world) = 2
   \<and> self_surfaces (mesh demo_resolve_world) = Some demo_surfaces
   \<and> holds demo_surfaces 2 2 (\<lambda>c. demo_surface_id (fst c) (snd c))
   \<and> list_all (\<lambda>row. length row = 2 \<and> list_all (\<lambda>v. 1 \<le> v \<and> v \<le> 2) row) [[1, 2], [2, 1 :: int]]
   \<and> (\<exists>w' gs. generate_physical_groups demo_resolve_world = (Inr (), w')
        \<and> self_physical_groups (mesh w') = Some gs \<and> length gs = 2
        \<and> entities (gs ! 0) = [2, 3] \<and> entities (gs ! 1) = [1, 4])"
proof -
  have k: "2 = length (effective_names [[1, 2], [2, 1]] (self_material_names (mesh demo_resolve_world)))"
    by (simp add: demo_resolve_mesh effective_names_def)
  from groups_follow_flipped_matrix [OF demo_resolve_mesh(1-3) demo_resolve_facts(1)
      demo_surfaces_holds demo_matrix_ok k]
  obtain w' gs where r: "generate_physical_groups demo_resolve_world = (Inr (), w')"
      "self_physical_groups (mesh w') = Some gs" "length gs = 2"
      "\<forall>g<2. entities (gs ! g) =
         map (\<lambda>c. demo_surface_id (fst c) (snd c))
           (filter (\<lambda>c. [[1, 2], [2, 1]] ! (2 - 1 - snd c) ! fst c - 1 = int g) (cells 2 2))"
    by blast
  from r(4) have "entities (gs ! 0) = [2, 3]" "entities (gs ! 1) = [1, 4]"
    by (simp_all add: cells_2_2 demo_surface_id_def)
  with r(1-3) show ?thesis
    by (simp add: demo_resolve_mesh demo_resolve_facts demo_surfaces_holds)
qed

text \<open>
  Claim C6. Whenever \<open>generate_physical_groups\<close> completes on a grid whose surfaces
  have pairwise different ids, there is one group per material name in force (supplied
  or defaulted), in order; the entity lists of the groups together hold every surface
  id exactly once, \<open>nx * ny\<close> entries in all, so every surface lies in exactly one group;
  and each group is registered with the kernel once, under its index plus one.
\<close>

theorem physical_groups_partition:
  assumes nx: "self_nx (mesh w) = int nx" and ny: "self_ny (mesh w) = int ny"
    and sf: "self_surfaces (mesh w) = Some sf" and hs: "holds sf nx ny sid"
    and inj: "inj_on sid (set (cells nx ny))"
    and run: "generate_physical_groups w = (Inr (), w')"
  shows "\<exists>M gs. self_materials (mesh w) = Some M
         \<and> self_physical_groups (mesh w') = Some gs
         \<and> map material_name gs = effective_names M (self_material_names (mesh w))
         \<and> mset (concat (map entities gs)) = mset (map sid (cells nx ny))
         \<and> distinct (concat (map entities gs))
         \<and> length (concat (map entities gs)) = nx * ny
         \<and> (\<forall>c\<in>set (cells nx ny). \<exists>!g. g < length gs \<and> sid c \<in> set (entities (gs ! g)))
         \<and> geo_physical_groups (gmsh w') = geo_physical_groups (gmsh w) @ registrations gs"
proof -
  from run obtain M where mat: "self_materials (mesh w) = Some M"
    using generate_physical_groups_absent [of w] by (cases "self_materials (mesh w)") auto
  define names where "names = effective_names M (self_material_names (mesh w))"
  define f where "f = gid M ny (length names)"
  define gs where "gs = groups_of names sid f (cells nx ny)"
  from generate_physical_groups_partial [OF mat nx ny sf hs names_def run]
  have w': "w' = groups_done w M names gs"
    and ok: "\<forall>c\<in>set (cells nx ny). \<exists>g. f c = Inr g"
    by (simp_all add: gs_def f_def)
  have okb: "\<forall>c\<in>set (cells nx ny). \<exists>g<length names. f c = Inr g"
    using ok gid_bound unfolding f_def by blast
  have m: "mset (concat (map entities gs)) = mset (map sid (cells nx ny))"
    unfolding gs_def entities_groups_of by (rule mset_concat_groups [OF okb])
  have d0: "distinct (map sid (cells nx ny))"
    using inj by (simp add: distinct_map distinct_cells)
  have d: "distinct (concat (map entities gs))"
    using m d0 by (metis mset_eq_imp_distinct_iff)
  have l: "length (concat (map entities gs)) = nx * ny"
    using mset_eq_length [OF m] by (simp add: length_cells mult.commute)
  have lg: "length gs = length names" by (simp add: gs_def groups_of_length)
  have u: "\<exists>!g. g < length gs \<and> sid c \<in> set (entities (gs ! g))" if c: "c \<in> set (cells nx ny)" for c
  proof -
    from okb c obtain g where g: "g < length names" "f c = Inr g" by blast
    have mem: "sid c \<in> set (entities (gs ! g))"
      using g c by (simp add: gs_def groups_of_nth)
    have uniq: "g' = g" if g': "g' < length gs" "sid c \<in> set (entities (gs ! g'))" for g'
    proof -
      from g' obtain c' where c': "c' \<in> set (cells nx ny)" "f c' = Inr g'" "sid c' = sid c"
        by (auto simp: gs_def groups_of_nth groups_of_length)
      from inj c c' have "c' = c" by (auto dest: inj_onD)
      with c' g show ?thesis by simp
    qed
    show ?thesis
    proof (rule ex1I [of _ g])
      show "g < length gs \<and> sid c \<in> set (entities (gs ! g))" using mem g lg by simp
    next
      fix g' assume "g' < length gs \<and> sid c \<in> set (entities (gs ! g'))"
      then show "g' = g" using uniq by blast
    qed
  qed
  have u': "\<forall>c\<in>set (cells nx ny). \<exists>!g. g < length gs \<and> sid c \<in> set (entities (gs ! g))"
    using u by blast
  have f1: "self_physical_groups (mesh w') = Some gs" by (simp add: w' groups_done_fields)
  have f2: "map material_name gs = effective_names M (self_material_names (mesh w))"
    by (simp add: gs_def names_groups_of names_def)
  have f3: "geo_physical_groups (gmsh w') = geo_physical_groups (gmsh w) @ registrations gs"
    by (simp add: w' groups_done_fields)
  show ?thesis
    using mat f1 f2 m d l u' f3 by blast
qed

theorem physical_groups_partition_witness:
  "self_nx (mesh demo_unnamed_world) = 2 \<and> self_ny (mesh demo_unnamed_world) = 2
   \<and> self_surfaces (mesh demo_unnamed_world) = Some demo_surfaces
   \<and> self_material_names (mesh demo_unnamed_world) = None
   \<and> holds demo_surfaces 2 2 (\<lambda>c. demo_surface_id (fst c) (snd c))
   \<and> inj_on (\<lambda>c. demo_surface_id (fst c) (snd c)) (set (cells 2 2))
   \<and> (\<exists>w' gs. generate_physical_groups demo_unnamed_world = (Inr (), w')
        \<and> self_physical_groups (mesh w') = Some gs
        \<and> map material_name gs = [''0'', ''1'']
        \<and> mset (concat (map entities gs)) = mset [1, 2, 3, 4]
        \<and> distinct (concat (map entities gs))
        \<and> length (concat (map entities gs)) = 4
        \<and> geo_physical_groups (gmsh w') = registrations gs)"
proof -
  have k: "2 = length (effective_names [[1, 2], [2, 1]] (self_material_names (mesh demo_unnamed_world)))"
    by (simp add: demo_unnamed_facts default_names_2)
  have ok: "\<exists>g. gid [[1, 2], [2, 1]] 2 (length (effective_names [[1, 2], [2, 1]] (self_material_names (mesh demo_unnamed_world)))) c = Inr g"
    if "c \<in> set (cells 2 2)" for c
    using gid_in_range [OF demo_matrix_ok that] k by auto
  from generate_physical_groups_total [OF demo_unnamed_facts(1-4) demo_surfaces_holds refl ok]
  obtain w' where run: "generate_physical_groups demo_unnamed_world = (Inr (), w')" by blast
  from physical_groups_partition [OF demo_unnamed_facts(2-4) demo_surfaces_holds demo_surfaces_inj run]
  obtain M gs where r: "self_materials (mesh demo_unnamed_world) = Some M"
      "self_physical_groups (mesh w') = Some gs"
      "map material_name gs = effective_names M (self_material_names (mesh demo_unnamed_world))"
      "mset (concat (map entities gs)) = mset (map (\<lambda>c. demo_surface_id (fst c) (snd c)) (cells 2 2))"
      "distinct (concat (map entities gs))"
      "length (concat (map entities gs)) = 2 * 2"
      "geo_physical_groups (gmsh w') = geo_physical_groups (gmsh demo_unnamed_world) @ registrations gs"
    by blast
  from r(1) have M: "M = [[1, 2], [2, 1]]" by (simp add: demo_unnamed_facts)
  have "map material_name gs = [''0'', ''1'']"
    using r(3) by (simp add: M demo_unnamed_facts default_names_2)
  moreover have "mset (concat (map entities gs)) = mset [1, 2, 3, 4]"
    using r(4) by (simp add: cells_2_2 demo_surface_id_def)
  ultimately show ?thesis
    using run r(2,5,6,7) demo_surfaces_inj
    by (simp add: demo_unnamed_facts demo_surfaces_holds)
qed

text \<open>
  Claim C7. The configuration error is raised exactly when the material matrix is
  absent (\<open>runtime_error_iff_matrix_absent\<close> above). With the matrix present and no names
  given the method should go through on defaulted names, but it makes one name per
  matrix row: on the grid of two cells in one row with the matrix \<open>[[1, 2]]\<close> the only
  default name is \<open>0\<close>, and filing the second cell under material 2 raises \<open>IndexError\<close>.
  With two names supplied the same run goes through.
\<close>

theorem default_names_fall_short:
  "fst (generate_physical_groups row_world) = Inl IndexError
   \<and> self_material_names (mesh (snd (generate_physical_groups row_world))) = Some [''0'']
   \<and> fst (generate_physical_groups row_named_world) = Inr ()"
proof -
  let ?M = "[[1, 2 :: int]]"
  define sid :: "nat \<times> nat \<Rightarrow> int" where "sid = (\<lambda>c. 1 + int (fst c))"
  define f where "f = gid ?M 1 (length [''0''])"
  define GS where "GS = (\<lambda>cs. groups_state row_world ?M [''0''] (groups_of [''0''] sid f cs))"
  have hs: "holds row_surfaces 2 1 sid" unfolding sid_def by (rule row_surfaces_holds)
  have g0: "f (0, 0) = Inr 0" and g1: "f (1, 0) = Inl IndexError"
    by (simp_all add: f_def gid_def getitem_matrix_def norm_index_def)
  have b0: "groups_body 0 0 (GS []) = (Inr (), GS [(0, 0)])"
    using groups_body_cases [OF row_world_facts(1,3,4) hs, of 0 0 "[''0'']" "[]", folded f_def]
    by (simp only: g0 sum.case append_Nil GS_def)
  have b1: "groups_body 0 1 (GS [(0, 0)]) = (Inl IndexError, GS [(0, 0)])"
    using groups_body_cases [OF row_world_facts(1,3,4) hs, of 1 0 "[''0'']" "[(0, 0)]", folded f_def]
    by (simp only: g1 sum.case GS_def)
  have nxy: "self_nx (mesh (GS cs)) = 2" "self_ny (mesh (GS cs)) = 1" for cs
    by (simp_all add: GS_def groups_state_fields row_world_facts)
  have c: "classify_cells (GS []) = (Inl IndexError, GS [(0, 0)])"
    by (simp add: classify_cells_def py_bind_def field_def nxy py_range_def upt_0_2 b0
        b1 [unfolded One_nat_def])
  have run: "generate_physical_groups row_world = (Inl IndexError, GS [(0, 0)])"
    using generate_physical_groups_prelude [OF row_world_facts(1), of sid f]
    by (simp add: row_world_facts default_names_1 py_bind_def c [unfolded GS_def])
       (simp add: GS_def)
  have shape: "length ?M = 1" "\<forall>row\<in>set ?M. length row = 2"
    "\<forall>row\<in>set ?M. \<forall>v\<in>set row. 1 \<le> v \<and> v \<le> int 2"
    by simp_all
  have ok: "\<exists>g. gid ?M 1 (length (effective_names ?M (self_material_names (mesh row_named_world)))) c = Inr g"
    if "c \<in> set (cells 2 1)" for c
  proof -
    have kn: "length (effective_names ?M (self_material_names (mesh row_named_world))) = 2"
      by (simp add: row_named_facts effective_names_def)
    show ?thesis unfolding kn using gid_in_range [OF shape that] by blast
  qed
  have named: "fst (generate_physical_groups row_named_world) = Inr ()"
    using generate_physical_groups_total [OF row_named_facts(1-4) row_surfaces_holds refl ok]
    by simp
  show ?thesis
    by (simp add: run named GS_def groups_state_fields)
qed

text \<open>
  Claim C8. \<open>export_assembly_materials\<close> writes one line per pair of surface id and
  group index, the pairs being all entities of all groups, sorted ascending by surface
  id. A line is the surface id in decimal, padded with spaces on the right to a width
  of five, one space, the group index plus one in decimal, and a newline.
\<close>

theorem export_sorted_fixed_width:
  assumes "self_physical_groups (mesh w) = Some gs"
  shows "export_assembly_materials w =
           (Inr (concat (map assembly_line (sort_key fst (group_pairs gs)))), w)
       \<and> sorted (map fst (sort_key fst (group_pairs gs)))
       \<and> mset (sort_key fst (group_pairs gs)) = mset (group_pairs gs)
       \<and> (\<forall>s g. assembly_line (s, g) =
             py_str s @ replicate (5 - length (py_str s)) CHR '' '' @ '' '' @ py_str (g + 1)
               @ [CHR 0x0A])"
  using assms by (simp add: export_closed assembly_line_def py_format_ljust_def Let_def)

theorem export_sorted_fixed_width_witness:
  "self_physical_groups (mesh demo_groups_world) =
     Some [\<lparr>material_name = ''F1'', entities = [2, 3]\<rparr>, \<lparr>material_name = ''F2'', entities = [1, 4]\<rparr>]
   \<and> export_assembly_materials demo_groups_world =
       (Inr (''1     2'' @ [CHR 0x0A] @ ''2     1'' @ [CHR 0x0A] @ ''3     1'' @ [CHR 0x0A]
             @ ''4     2'' @ [CHR 0x0A]), demo_groups_world)"
  using export_sorted_fixed_width [OF demo_groups_facts]
  by (simp add: demo_groups_facts demo_group_pairs demo_lines)

section \<open>A complete run\<close>

text \<open>
  The whole of \<open>generate\<close> followed by the export, on the demo grid with the material
  matrix \<open>[[1, 2], [2, 1]]\<close> and a kernel session that holds no entity yet: the four
  surfaces get the ids 1 to 4 in creation order and the exported table pairs them with
  the materials 2, 1, 1, 2.
\<close>

lemma py_bind_assoc: "py_bind (py_bind m f) g = py_bind m (\<lambda>v. py_bind (f v) g)"
  by (auto simp: py_bind_def fun_eq_iff split: prod.splits sum.splits)

lemma generate_unfold:
  "generate h =
     py_bind (modify_mesh (\<lambda>s. s\<lparr>self_mesh_size := Some h\<rparr>)) (\<lambda>u.
     py_bind build_topology (\<lambda>u. generate_physical_groups))"
  by (simp add: generate_def build_topology_def py_bind_assoc)

lemma demo_gid:
  "gid [[1, 2], [2, 1]] 2 2 (0, 0) = Inr 1" "gid [[1, 2], [2, 1]] 2 2 (1, 0) = Inr 0"
  "gid [[1, 2], [2, 1]] 2 2 (0, 1) = Inr 0" "gid [[1, 2], [2, 1]] 2 2 (1, 1) = Inr 1"
  by (simp_all add: gid_def getitem_matrix_def norm_index_def)

lemma demo_groups_of:
  "groups_of [''F1'', ''F2''] (\<lambda>c. tag_after 0 (snd c * 2 + fst c)) (gid [[1, 2], [2, 1]] 2 2) (cells 2 2)
     = [\<lparr>material_name = ''F1'', entities = [2, 3]\<rparr>, \<lparr>material_name = ''F2'', entities = [1, 4]\<rparr>]"
  by (simp add: groups_of_def upt_0_2 cells_2_2 demo_gid [unfolded One_nat_def] tag_after_def)

theorem export_scenario:
  "fst (py_bind (generate 1) (\<lambda>u. export_assembly_materials) demo_world) =
     Inr (''1     2'' @ [CHR 0x0A] @ ''2     1'' @ [CHR 0x0A] @ ''3     1'' @ [CHR 0x0A]
          @ ''4     2'' @ [CHR 0x0A])"
proof -
  let ?M = "[[1, 2], [2, 1 :: int]]"
  let ?w3 = "topology_done demo_sized_world 2 2 1"
  have sized: "modify_mesh (\<lambda>s. s\<lparr>self_mesh_size := Some 1\<rparr>) demo_world = (Inr (), demo_sized_world)"
    by (simp add: modify_mesh_def demo_sized_world_def demo_world_def)
  have build: "build_topology demo_sized_world = (Inr (), ?w3)"
    by (rule build_topology_closed [OF demo_sized_facts(1,2) _ _ demo_sized_facts(5)])
       (simp_all add: demo_sized_facts)
  have mat: "self_materials (mesh ?w3) = Some ?M"
    and nx: "self_nx (mesh ?w3) = int 2" and ny: "self_ny (mesh ?w3) = int 2"
    and nm: "self_material_names (mesh ?w3) = Some [''F1'', ''F2'']"
    by (simp_all add: topology_done_fields demo_sized_world_def demo_world_def demo_mesh_def init_def)
  have tag: "surface_tag (liney_done demo_sized_world 2 2 1) 2 = (\<lambda>c. tag_after 0 (snd c * 2 + fst c))"
    by (simp add: surface_tag_def liney_done_fields demo_sized_world_def demo_world_def
        fresh_kernel_def fun_eq_iff)
  have names: "[''F1'', ''F2''] = effective_names ?M (self_material_names (mesh ?w3))"
    by (simp add: nm effective_names_def)
  have ok: "\<exists>g. gid ?M 2 (length [''F1'', ''F2'']) c = Inr g" if "c \<in> set (cells 2 2)" for c
  proof -
    have kn: "length [''F1'', ''F2''] = 2" by simp
    show ?thesis unfolding kn using gid_in_range [OF demo_matrix_ok that] by blast
  qed
  have groups: "generate_physical_groups ?w3 =
      (Inr (), groups_done ?w3 ?M [''F1'', ''F2'']
         [\<lparr>material_name = ''F1'', entities = [2, 3]\<rparr>, \<lparr>material_name = ''F2'', entities = [1, 4]\<rparr>])"
  proof -
    have kn: "length [''F1'', ''F2''] = 2" by simp
    have dg: "groups_of [''F1'', ''F2''] (\<lambda>c. tag_after 0 (snd c * 2 + fst c))
        (gid ?M 2 (length [''F1'', ''F2''])) (cells 2 2)
        = [\<lparr>material_name = ''F1'', entities = [2, 3]\<rparr>, \<lparr>material_name = ''F2'', entities = [1, 4]\<rparr>]"
      by (simp only: kn demo_groups_of)
    show ?thesis
      using generate_physical_groups_total [OF mat nx ny topology_done_fields(6) holds_filled names ok]
      by (simp only: tag dg)
  qed
  have gen: "generate 1 demo_world =
      (Inr (), groups_done ?w3 ?M [''F1'', ''F2'']
         [\<lparr>material_name = ''F1'', entities = [2, 3]\<rparr>, \<lparr>material_name = ''F2'', entities = [1, 4]\<rparr>])"
    by (simp add: generate_unfold py_bind_def sized build groups)
  show ?thesis
    by (simp add: py_bind_def gen export_closed [OF groups_done_fields(1)] demo_group_pairs demo_lines)
qed

end
